(* ===== verification/Prelude.thy ===== *)
theory Prelude
  imports Main "HOL-Library.Word" "HOL-Library.Multiset" "HOL-Library.List_Lexorder" "HOL-Library.Char_ord"
begin

text \<open>
  Shared vocabulary of the development: machine types, the error values of the program, the two
  sequencing operators every operation is written with, and the generic list lemmas the
  component theories share.

  \<^item> Rust's \<open>?\<close> on a \<open>Result\<close> is \<open>bindR\<close>; on an operation that also changes the node's
    files it is \<open>bindS\<close>, which keeps the state reached when the error was raised, as the program
    does (there is no rollback).
  \<^item> Every \<open>bail!\<close>, failed \<open>?\<close>, and panic the model follows is a constructor of \<open>error\<close>.
\<close>

section \<open>Machine types\<close>

type_synonym byte = "8 word"
type_synonym bytes = "byte list"
type_synonym u32 = "32 word"
type_synonym u64 = "64 word"
type_synonym i64 = "64 word" \<comment> \<open>read with \<open>sint\<close>\<close>

section \<open>Errors\<close>

datatype io_error =
    Missing string \<comment> \<open>open, read or stat of a path that is not there\<close>
  | NoDirectory string \<comment> \<open>create in a directory that is not there\<close>
  | UnexpectedEof

datatype decode_error =
    NotUtf8 | NotHex | NotBase64 | NotJson | WrongLength | NotUrl

datatype signature_error =
    BadPublicKey | BadSecretKey | SignatureFailed | TimestampMismatch | IdMismatch

datatype log_error =
    WrongChannel | TruncatedRecord | CorruptRecord | NotIndexed | BadLocation | BadIdLength
  | BadChunkLength | ChunkHashMissing

datatype policy_error =
    BadPolicyVersion | RestrictedWithoutOwner | PrivateNotRestricted | InvalidRestrict
  | InvalidAdoption | NotRestricted | NotAuthorized | OnlyOwner | NotAReader | NotAWriter
  | LegacyOwnerMismatch

datatype history_error =
    BrokenChain | BadEventId | NotAnExtension | EmptyConflict | ConflictHeadMismatch
  | UnknownPolicyHead | NoSignedPolicy

datatype key_error =
    NoChannelKey | MissingChannelKey | AlreadyEncrypted | AeadFailed | NonContributory
  | WrongOffer | KeyIdMismatch

datatype peer_error =
    UnsupportedScheme | UrlWithoutHost | BadPeerVersion | ConflictingPins | Unpinned
  | AlreadyPinned

datatype auth_error =
    MissingHeader | InvalidHeader | Stale | UnknownChallenge | ExpiredChallenge
  | TooManyChallenges | BadChallenge | PinMismatch

datatype sync_error =
    BadSyncVersion | TooMany | InvalidInventory | NotAMember | PolicyFork | ModerationFork
  | UnexpectedFrame | PeerClosed | IdentityMismatch | KeysForPublicChannel
  | UnrequestedEnvelope | PeerReported

datatype app_error =
    MessageTooLong | InvalidContentLength | MissingContentLength | ChannelMissing
  | OutsideDatadir | UnknownTool | IdentityExists | PinRequired | NoChannelSelected

datatype error =
    Io io_error
  | Decode decode_error
  | Crypt signature_error
  | Log log_error
  | Policy policy_error
  | History history_error
  | Key key_error
  | Peer peer_error
  | Auth auth_error
  | Sync sync_error
  | App app_error
  | BadChannelName
  | Panicked

type_synonym 'a result = "error + 'a"

section \<open>Sequencing\<close>

definition bindR :: "'a result \<Rightarrow> ('a \<Rightarrow> 'b result) \<Rightarrow> 'b result" where
  "bindR m f = (case m of Inl e \<Rightarrow> Inl e | Inr x \<Rightarrow> f x)"

definition guardR :: "bool \<Rightarrow> error \<Rightarrow> unit result" where
  "guardR ok e = (if ok then Inr () else Inl e)"

definition from_option :: "error \<Rightarrow> 'a option \<Rightarrow> 'a result" where
  "from_option e x = (case x of None \<Rightarrow> Inl e | Some y \<Rightarrow> Inr y)"

definition is_ok :: "'a result \<Rightarrow> bool" where
  "is_ok m = (case m of Inl e \<Rightarrow> False | Inr x \<Rightarrow> True)"

definition bindS :: "('s \<Rightarrow> 'a result \<times> 's) \<Rightarrow> ('a \<Rightarrow> 's \<Rightarrow> 'b result \<times> 's) \<Rightarrow> 's \<Rightarrow> 'b result \<times> 's"
where
  "bindS m f s = (case m s of (Inl e, s') \<Rightarrow> (Inl e, s') | (Inr x, s') \<Rightarrow> f x s')"

definition okS :: "'a \<Rightarrow> 's \<Rightarrow> 'a result \<times> 's" where
  "okS x s = (Inr x, s)"

definition liftS :: "'a result \<Rightarrow> 's \<Rightarrow> 'a result \<times> 's" where
  "liftS r s = (r, s)"

definition readS :: "('s \<Rightarrow> 'a result) \<Rightarrow> 's \<Rightarrow> 'a result \<times> 's" where
  "readS f s = (f s, s)"

fun mapR :: "('a \<Rightarrow> 'b result) \<Rightarrow> 'a list \<Rightarrow> 'b list result" where
  "mapR f [] = Inr []"
| "mapR f (x # xs) = bindR (f x) (\<lambda>y. bindR (mapR f xs) (\<lambda>ys. Inr (y # ys)))"

text \<open>Rules the component proofs run on: evaluation of the operators, and inversion of a
  successful run into the successes of its parts.\<close>

named_theorems result_simps \<open>evaluation of sequenced operations\<close>
named_theorems ok_elims \<open>inversion of a successful operation\<close>

lemma bindR_simps [simp]:
  "bindR (Inl e) f = Inl e"
  "bindR (Inr x) f = f x"
  by (simp_all add: bindR_def)

lemma bindR_cong [fundef_cong]:
  assumes "m1 = m2" and "\<And>x. m2 = Inr x \<Longrightarrow> f1 x = f2 x"
  shows "bindR m1 f1 = bindR m2 f2"
  using assms by (cases m1) auto

lemma bindR_ok [ok_elims]: "bindR m f = Inr y \<longleftrightarrow> (\<exists>x. m = Inr x \<and> f x = Inr y)"
  by (cases m) auto

lemma bindR_assoc: "bindR (bindR m f) g = bindR m (\<lambda>x. bindR (f x) g)"
  by (cases m) auto

lemma guardR_simps [simp]: "guardR True e = Inr ()" "guardR False e = Inl e"
  by (simp_all add: guardR_def)

lemma guardR_ok [ok_elims]: "guardR b e = Inr u \<longleftrightarrow> b"
  by (simp add: guardR_def)

lemma guardR_err: "guardR b e = Inl e' \<longleftrightarrow> \<not> b \<and> e' = e"
  by (auto simp: guardR_def)

lemma from_option_simps [simp]:
  "from_option e None = Inl e"
  "from_option e (Some x) = Inr x"
  by (simp_all add: from_option_def)

lemma from_option_ok [ok_elims]: "from_option e x = Inr y \<longleftrightarrow> x = Some y"
  by (cases x) auto

lemma is_ok_simps [simp]: "is_ok (Inr x)" "\<not> is_ok (Inl e)"
  by (simp_all add: is_ok_def)

lemma is_ok_iff: "is_ok m \<longleftrightarrow> (\<exists>x. m = Inr x)"
  by (cases m) auto

lemma is_okE: "is_ok m \<Longrightarrow> (\<And>x. m = Inr x \<Longrightarrow> P) \<Longrightarrow> P"
  by (auto simp: is_ok_iff)

lemma bindS_step: "m s = (Inr x, t) \<Longrightarrow> bindS m f s = f x t"
  by (simp add: bindS_def)

lemma bindS_fail: "m s = (Inl e, t) \<Longrightarrow> bindS m f s = (Inl e, t)"
  by (simp add: bindS_def)

lemma bindS_okS [simp]: "bindS (okS x) f s = f x s"
  by (simp add: bindS_def okS_def)

lemma bindS_readS: "bindS (readS g) f s = (case g s of Inl e \<Rightarrow> (Inl e, s) | Inr x \<Rightarrow> f x s)"
  by (cases "g s") (auto simp: bindS_def readS_def)

lemma bindS_liftS: "bindS (liftS r) f s = (case r of Inl e \<Rightarrow> (Inl e, s) | Inr x \<Rightarrow> f x s)"
  by (cases r) (auto simp: bindS_def liftS_def)

lemma bindS_ok: "bindS m f s = (Inr y, s') \<longleftrightarrow> (\<exists>x t. m s = (Inr x, t) \<and> f x t = (Inr y, s'))"
  by (auto simp: bindS_def split: prod.splits sum.splits)

lemma liftS_ok: "liftS r s = (Inr y, s') \<longleftrightarrow> r = Inr y \<and> s' = s"
  by (auto simp: liftS_def)

lemma readS_ok: "readS f s = (Inr y, s') \<longleftrightarrow> f s = Inr y \<and> s' = s"
  by (auto simp: readS_def)

lemma okS_ok: "okS x s = (Inr y, s') \<longleftrightarrow> y = x \<and> s' = s"
  by (auto simp: okS_def)

lemmas runS_ok = bindS_ok liftS_ok readS_ok okS_ok

text \<open>A predicate that holds before, and is kept by both parts, holds after, success or error.\<close>

lemma bindS_preserves:
  assumes "P s" and "P s \<Longrightarrow> P (snd (m s))" and "\<And>x t. P t \<Longrightarrow> P (snd (f x t))"
  shows "P (snd (bindS m f s))"
  using assms by (auto simp: bindS_def split: prod.splits sum.splits)

lemma mapR_ok_length: "mapR f xs = Inr ys \<Longrightarrow> length ys = length xs"
  by (induction xs arbitrary: ys) (auto simp: bindR_ok)

lemma mapR_ok_nth: "mapR f xs = Inr ys \<Longrightarrow> i < length xs \<Longrightarrow> f (xs ! i) = Inr (ys ! i)"
proof (induction xs arbitrary: ys i)
  case Nil
  then show ?case by simp
next
  case (Cons x xs)
  then show ?case by (cases i) (auto simp: bindR_ok)
qed

lemma mapR_map_ok: "(\<And>x. x \<in> set xs \<Longrightarrow> f x = Inr (g x)) \<Longrightarrow> mapR f xs = Inr (map g xs)"
  by (induction xs) auto

section \<open>Lists\<close>

lemma sort_append_cong: "mset xs = mset ys \<Longrightarrow> sort xs = sort ys"
  by (metis mset_sort properties_for_sort sorted_sort)

lemma sort_snoc_sort: "sort (sort xs @ [x]) = sort (xs @ [x])"
  by (rule sort_append_cong) simp

end
