(* ===== verification/Rust_Std.thy ===== *)
theory Rust_Std
  imports Prelude
begin

text \<open>
  The parts of Rust's standard library the program leans on, as executable functions: a \<open>String\<close>
  is its UTF-8 bytes (HOL's \<open>string\<close> is a list of 8-bit characters), \<open>Vec<u8>\<close> is a list of
  bytes. Here are UTF-8 validation (\<open>String::from_utf8\<close>), line reading (\<open>read_until\<close>,
  \<open>BufRead::lines\<close>, \<open>str::lines\<close>), whitespace tests, \<open>u64::to_be_bytes\<close> and \<open>chunks_exact\<close>,
  with the round trips the file formats rest on.
\<close>

section \<open>Strings and bytes\<close>

definition as_bytes :: "string \<Rightarrow> bytes" where
  "as_bytes s = map (\<lambda>c. word_of_nat (of_char c)) s"

definition of_bytes :: "bytes \<Rightarrow> string" where
  "of_bytes bs = map (\<lambda>b. char_of (unat b)) bs"

lemma unat_byte_of_char [simp]: "unat (word_of_nat (of_char c) :: byte) = of_char c"
  by (simp add: unat_of_nat)

lemma of_bytes_as_bytes [simp]: "of_bytes (as_bytes s) = s"
  by (simp add: of_bytes_def as_bytes_def comp_def)

lemma as_bytes_of_bytes [simp]: "as_bytes (of_bytes bs) = bs"
proof -
  have "word_of_nat (of_char (char_of (unat b) :: char)) = b" for b :: byte
    using unsigned_less [of b, where 'a = nat] by (simp add: of_char_of)
  then show ?thesis by (simp add: of_bytes_def as_bytes_def comp_def)
qed

lemma as_bytes_inj [simp]: "as_bytes s = as_bytes t \<longleftrightarrow> s = t"
  by (metis of_bytes_as_bytes)

lemma as_bytes_append [simp]: "as_bytes (s @ t) = as_bytes s @ as_bytes t"
  by (simp add: as_bytes_def)

lemma length_as_bytes [simp]: "length (as_bytes s) = length s"
  by (simp add: as_bytes_def)

lemma newline_in_as_bytes: "10 \<in> set (as_bytes s) \<longleftrightarrow> CHR 10 \<in> set s"
proof -
  have "(10 :: byte) = word_of_nat (of_char c) \<longleftrightarrow> c = CHR 10" for c
  proof
    assume "(10 :: byte) = word_of_nat (of_char c)"
    then have "unat (10 :: byte) = unat (word_of_nat (of_char c) :: byte)" by (rule arg_cong)
    then have "of_char c = (10 :: nat)" by (simp only: unat_byte_of_char) simp
    then have "char_of (of_char c :: nat) = (char_of (10 :: nat) :: char)" by (rule arg_cong)
    moreover have "char_of (10 :: nat) = CHR 10" by code_simp
    ultimately show "c = CHR 10" by (simp only: char_of_char)
  next
    assume "c = CHR 10"
    moreover have "(10 :: byte) = word_of_nat (of_char (CHR 10))" by code_simp
    ultimately show "(10 :: byte) = word_of_nat (of_char c)" by (simp only:)
  qed
  then show ?thesis unfolding as_bytes_def set_map image_iff by metis
qed

section \<open>UTF-8\<close>

definition utf8_cont :: "byte \<Rightarrow> bool" where
  "utf8_cont b = (0x80 \<le> b \<and> b \<le> 0xBF)"

fun utf8_valid :: "bytes \<Rightarrow> bool" where
  "utf8_valid [] = True"
| "utf8_valid (b # bs) =
    (if b < 0x80 then utf8_valid bs
     else if 0xC2 \<le> b \<and> b \<le> 0xDF then
       (case bs of c1 # r \<Rightarrow> utf8_cont c1 \<and> utf8_valid r | _ \<Rightarrow> False)
     else if 0xE0 \<le> b \<and> b \<le> 0xEF then
       (case bs of
          c1 # c2 # r \<Rightarrow>
            utf8_cont c1 \<and> (b = 0xE0 \<longrightarrow> 0xA0 \<le> c1) \<and> (b = 0xED \<longrightarrow> c1 \<le> 0x9F)
            \<and> utf8_cont c2 \<and> utf8_valid r
        | _ \<Rightarrow> False)
     else if 0xF0 \<le> b \<and> b \<le> 0xF4 then
       (case bs of
          c1 # c2 # c3 # r \<Rightarrow>
            utf8_cont c1 \<and> (b = 0xF0 \<longrightarrow> 0x90 \<le> c1) \<and> (b = 0xF4 \<longrightarrow> c1 \<le> 0x8F)
            \<and> utf8_cont c2 \<and> utf8_cont c3 \<and> utf8_valid r
        | _ \<Rightarrow> False)
     else False)"

definition from_utf8 :: "bytes \<Rightarrow> string result" where
  "from_utf8 bs = (if utf8_valid bs then Inr (of_bytes bs) else Inl (Decode NotUtf8))"

lemma utf8_valid_ascii: "(\<And>b. b \<in> set bs \<Longrightarrow> b < 0x80) \<Longrightarrow> utf8_valid bs"
  by (induction bs) simp_all

text \<open>The decoder one code point at a time.\<close>

lemma utf8_valid_Cons:
  "b < 0x80 \<Longrightarrow> utf8_valid (b # bs) = utf8_valid bs"
  "0xC2 \<le> b \<and> b \<le> 0xDF \<Longrightarrow> utf8_valid (b # bs) \<longleftrightarrow>
    (\<exists>c1 r. bs = c1 # r \<and> utf8_cont c1 \<and> utf8_valid r)"
  "0xE0 \<le> b \<and> b \<le> 0xEF \<Longrightarrow> utf8_valid (b # bs) \<longleftrightarrow>
    (\<exists>c1 c2 r. bs = c1 # c2 # r \<and> utf8_cont c1 \<and> (b = 0xE0 \<longrightarrow> 0xA0 \<le> c1)
      \<and> (b = 0xED \<longrightarrow> c1 \<le> 0x9F) \<and> utf8_cont c2 \<and> utf8_valid r)"
  "0xF0 \<le> b \<and> b \<le> 0xF4 \<Longrightarrow> utf8_valid (b # bs) \<longleftrightarrow>
    (\<exists>c1 c2 c3 r. bs = c1 # c2 # c3 # r \<and> utf8_cont c1 \<and> (b = 0xF0 \<longrightarrow> 0x90 \<le> c1)
      \<and> (b = 0xF4 \<longrightarrow> c1 \<le> 0x8F) \<and> utf8_cont c2 \<and> utf8_cont c3 \<and> utf8_valid r)"
  by (auto simp: word_less_nat_alt word_le_nat_alt split: list.split)

lemma utf8_valid_lead:
  "utf8_valid (b # bs) \<Longrightarrow>
    b < 0x80 \<or> (0xC2 \<le> b \<and> b \<le> 0xDF) \<or> (0xE0 \<le> b \<and> b \<le> 0xEF) \<or> (0xF0 \<le> b \<and> b \<le> 0xF4)"
  by (simp split: if_splits)

lemma utf8_valid_append: "utf8_valid a \<Longrightarrow> utf8_valid b \<Longrightarrow> utf8_valid (a @ b)"
proof (induction a rule: length_induct)
  case (1 a)
  show ?case
  proof (cases a)
    case Nil
    then show ?thesis using 1 by simp
  next
    case (Cons c cs)
    have IH: "length r < length a \<Longrightarrow> utf8_valid r \<Longrightarrow> utf8_valid (r @ b)" for r
      using 1 by blast
    show ?thesis
      using utf8_valid_lead [OF 1(2) [unfolded Cons]]
    proof (elim disjE)
      assume c: "c < 0x80"
      show ?thesis using 1(2) IH [of cs] unfolding Cons append_Cons utf8_valid_Cons(1) [OF c] by simp
    next
      assume c: "0xC2 \<le> c \<and> c \<le> 0xDF"
      show ?thesis using 1(2) IH unfolding Cons append_Cons utf8_valid_Cons(2) [OF c] by auto
    next
      assume c: "0xE0 \<le> c \<and> c \<le> 0xEF"
      show ?thesis using 1(2) IH unfolding Cons append_Cons utf8_valid_Cons(3) [OF c] by auto
    next
      assume c: "0xF0 \<le> c \<and> c \<le> 0xF4"
      show ?thesis using 1(2) IH unfolding Cons append_Cons utf8_valid_Cons(4) [OF c] by auto
    qed
  qed
qed

lemma from_utf8_ok: "utf8_valid bs \<Longrightarrow> from_utf8 bs = Inr (of_bytes bs)"
  by (simp add: from_utf8_def)

section \<open>Lines\<close>

text \<open>\<open>read_until(b'\n')\<close>: the line with its newline, and what is left to read.\<close>

fun read_line :: "bytes \<Rightarrow> bytes \<times> bytes" where
  "read_line [] = ([], [])"
| "read_line (b # bs) =
    (if b = 10 then ([b], bs) else (let (l, r) = read_line bs in (b # l, r)))"

definition strip_eol :: "bytes \<Rightarrow> bytes" where
  "strip_eol l =
    (if l \<noteq> [] \<and> last l = 10
     then (let l' = butlast l in if l' \<noteq> [] \<and> last l' = 13 then butlast l' else l')
     else l)"

lemma read_line_split: "read_line bs = (l, r) \<Longrightarrow> bs = l @ r"
  by (induction bs arbitrary: l r) (auto split: if_splits prod.splits)

lemma read_line_nonempty: "bs \<noteq> [] \<Longrightarrow> fst (read_line bs) \<noteq> []"
  by (cases bs) (auto split: prod.splits)

lemma read_line_shorter: "bs \<noteq> [] \<Longrightarrow> length (snd (read_line bs)) < length bs"
proof -
  assume ne: "bs \<noteq> []"
  have "bs = fst (read_line bs) @ snd (read_line bs)"
    by (rule read_line_split) simp
  then have "length bs = length (fst (read_line bs)) + length (snd (read_line bs))"
    by (metis length_append)
  then show ?thesis using read_line_nonempty [OF ne] by simp
qed

lemma read_line_record: "10 \<notin> set r \<Longrightarrow> read_line (r @ 10 # rest) = (r @ [10], rest)"
  by (induction r) auto

lemma read_line_append:
  "read_line bs = (l, r) \<Longrightarrow> l \<noteq> [] \<Longrightarrow> last l = 10 \<Longrightarrow> read_line (bs @ cs) = (l, r @ cs)"
proof (induction bs arbitrary: l r)
  case Nil
  then show ?case by simp
next
  case (Cons b bs)
  show ?case
  proof (cases "b = 10")
    case True
    with Cons.prems show ?thesis by auto
  next
    case False
    obtain l' r' where lr: "read_line bs = (l', r')" by (cases "read_line bs")
    with Cons.prems False have l: "l = b # l'" "r = r'" by auto
    with Cons.prems False have "l' \<noteq> []" "last l' = 10" by (auto split: if_splits)
    with Cons.IH [OF lr] l False show ?thesis by simp
  qed
qed

function byte_lines :: "bytes \<Rightarrow> bytes list" where
  "byte_lines bs =
    (if bs = [] then [] else strip_eol (fst (read_line bs)) # byte_lines (snd (read_line bs)))"
  by pat_completeness auto
termination
  by (relation "measure length") (auto simp: read_line_shorter)

declare byte_lines.simps [simp del]

lemma byte_lines_Nil [simp]: "byte_lines [] = []"
  by (simp add: byte_lines.simps)

lemma strip_eol_record: "(r = [] \<or> last r \<noteq> 13) \<Longrightarrow> strip_eol (r @ [10]) = r"
  by (auto simp: strip_eol_def Let_def)

lemma byte_lines_record:
  "10 \<notin> set r \<Longrightarrow> (r = [] \<or> last r \<noteq> 13) \<Longrightarrow> byte_lines (r @ 10 # rest) = r # byte_lines rest"
  by (subst byte_lines.simps) (simp add: read_line_record strip_eol_record)

text \<open>A file of newline-terminated records reads back as the records.\<close>

definition ndjson :: "bytes list \<Rightarrow> bytes" where
  "ndjson rs = concat (map (\<lambda>r. r @ [10]) rs)"

definition record_ok :: "bytes \<Rightarrow> bool" where
  "record_ok r \<longleftrightarrow> 10 \<notin> set r \<and> 13 \<notin> set r"

lemma ndjson_simps [simp]:
  "ndjson [] = []"
  "ndjson (r # rs) = r @ 10 # ndjson rs"
  by (simp_all add: ndjson_def)

lemma ndjson_append [simp]: "ndjson (rs @ qs) = ndjson rs @ ndjson qs"
  by (simp add: ndjson_def)

lemma byte_lines_ndjson: "(\<And>r. r \<in> set rs \<Longrightarrow> record_ok r) \<Longrightarrow> byte_lines (ndjson rs) = rs"
proof (induction rs)
  case Nil
  then show ?case by simp
next
  case (Cons r rs)
  then have ok: "record_ok r" by simp
  then have "r = [] \<or> last r \<noteq> 13"
    by (metis last_in_set record_ok_def)
  with Cons ok show ?case
    by (simp add: byte_lines_record record_ok_def)
qed

section \<open>White space\<close>

text \<open>\<open>u8::is_ascii_whitespace\<close>: space, tab, line feed, form feed, carriage return.\<close>

definition ascii_whitespace :: "byte \<Rightarrow> bool" where
  "ascii_whitespace b \<longleftrightarrow> b = 0x20 \<or> b = 0x09 \<or> b = 0x0A \<or> b = 0x0C \<or> b = 0x0D"

text \<open>\<open>s.trim().is_empty()\<close>: every code point has the Unicode property White_Space.\<close>

fun blank :: "bytes \<Rightarrow> bool" where
  "blank [] = True"
| "blank (b # bs) =
    (if (9 \<le> b \<and> b \<le> 13) \<or> b = 0x20 then blank bs
     else if b = 0xC2 then
       (case bs of c1 # r \<Rightarrow> (c1 = 0x85 \<or> c1 = 0xA0) \<and> blank r | _ \<Rightarrow> False)
     else if b = 0xE1 then
       (case bs of c1 # c2 # r \<Rightarrow> c1 = 0x9A \<and> c2 = 0x80 \<and> blank r | _ \<Rightarrow> False)
     else if b = 0xE2 then
       (case bs of
          c1 # c2 # r \<Rightarrow>
            ((c1 = 0x80 \<and> (c2 \<le> 0x8A \<or> c2 = 0xA8 \<or> c2 = 0xA9 \<or> c2 = 0xAF))
             \<or> (c1 = 0x81 \<and> c2 = 0x9F)) \<and> blank r
        | _ \<Rightarrow> False)
     else if b = 0xE3 then
       (case bs of c1 # c2 # r \<Rightarrow> c1 = 0x80 \<and> c2 = 0x80 \<and> blank r | _ \<Rightarrow> False)
     else False)"

definition blank_string :: "string \<Rightarrow> bool" where
  "blank_string s = blank (as_bytes s)"

section \<open>Big-endian integers\<close>

definition to_be_bytes :: "u64 \<Rightarrow> bytes" where
  "to_be_bytes w = map (\<lambda>i. word_of_nat (unat w div 256 ^ i mod 256)) (rev [0..<8])"

definition from_be_bytes :: "bytes \<Rightarrow> u64" where
  "from_be_bytes bs = word_of_nat (foldl (\<lambda>n b. n * 256 + unat b) 0 bs)"

lemma length_to_be_bytes [simp]: "length (to_be_bytes w) = 8"
  by (simp add: to_be_bytes_def)

lemma foldl_digits:
  "foldl (\<lambda>a i. a * 256 + n div 256 ^ i mod 256) a (rev [0..<k]) = a * 256 ^ k + n mod (256 ^ k :: nat)"
proof (induction k arbitrary: a)
  case 0
  then show ?case by simp
next
  case (Suc k)
  have "n mod 256 ^ Suc k = 256 ^ k * (n div 256 ^ k mod 256) + n mod 256 ^ k"
    by (metis mod_mult2_eq mult.commute power_Suc)
  with Suc show ?case by (simp add: algebra_simps)
qed

lemma from_be_bytes_to_be_bytes [simp]: "from_be_bytes (to_be_bytes w) = w"
proof -
  have u: "unat (word_of_nat (m mod 256) :: byte) = m mod 256" for m
    by (simp add: unat_of_nat)
  have "foldl (\<lambda>n b. n * 256 + unat b) 0 (to_be_bytes w) = unat w mod 256 ^ 8"
    by (simp only: to_be_bytes_def foldl_map u foldl_digits mult_0 add_0)
  also have "\<dots> = unat w"
    using unsigned_less [of w, where 'a = nat] by simp
  finally show ?thesis by (simp add: from_be_bytes_def)
qed

section \<open>Fixed-size chunks\<close>

text \<open>\<open>chunks_exact(32)\<close>: the whole chunks; a shorter remainder is dropped.\<close>

function chunks32 :: "bytes \<Rightarrow> bytes list" where
  "chunks32 bs = (if length bs < 32 then [] else take 32 bs # chunks32 (drop 32 bs))"
  by pat_completeness auto
termination
  by (relation "measure length") auto

declare chunks32.simps [simp del]

lemma chunks32_concat: "(\<And>x. x \<in> set xs \<Longrightarrow> length x = 32) \<Longrightarrow> chunks32 (concat xs) = xs"
proof (induction xs)
  case Nil
  then show ?case by (simp add: chunks32.simps)
next
  case (Cons x xs)
  then show ?case by (subst chunks32.simps) simp
qed

end
