(* ===== verification/Sexp_Codec.thy ===== *)
theory Sexp_Codec
  imports Rust_Std
begin

text \<open>
  A concrete text encoding used to instantiate the serialisation parameters of the model in the
  witnesses: trees of strings, written as ASCII without white space or line breaks, and read back. A
  codec of a type is a pair of functions between it and trees; the combinators below build the codecs
  of records and variants from those of their fields.
\<close>

section \<open>Trees\<close>

datatype sexp = Atom string | Pair sexp sexp

definition nibble :: "nat \<Rightarrow> byte" where
  "nibble n = word_of_nat (if n < 10 then 48 + n else 87 + n)"

definition unnibble :: "byte \<Rightarrow> nat option" where
  "unnibble b =
    (let n = unat b in
     if 48 \<le> n \<and> n < 58 then Some (n - 48)
     else if 97 \<le> n \<and> n < 103 then Some (n - 87)
     else None)"

lemma unat_nibble: "n < 16 \<Longrightarrow> unat (nibble n) = (if n < 10 then 48 + n else 87 + n)"
  by (auto simp: nibble_def unat_of_nat)

lemma unnibble_nibble [simp]: "n < 16 \<Longrightarrow> unnibble (nibble n) = Some n"
  by (simp add: unnibble_def unat_nibble Let_def)

definition plain_char :: "char \<Rightarrow> bool" where
  "plain_char c \<longleftrightarrow>
    (let n = of_char c :: nat in (48 \<le> n \<and> n < 58) \<or> (97 \<le> n \<and> n < 123) \<or> n = 45 \<or> n = 47)"

definition escape :: "char \<Rightarrow> bytes" where
  "escape c =
    (if plain_char c then [word_of_nat (of_char c)]
     else [37, nibble (of_char c div 16), nibble (of_char c mod 16)])"

fun sexp_enc :: "sexp \<Rightarrow> bytes" where
  "sexp_enc (Atom s) = 65 # concat (map escape s) @ [59]"
| "sexp_enc (Pair a b) = 80 # sexp_enc a @ sexp_enc b"

fun atom_dec :: "bytes \<Rightarrow> (string \<times> bytes) option" where
  "atom_dec [] = None"
| "atom_dec (b # bs) =
    (if b = 59 then Some ([], bs)
     else if b = 37 then
       (case bs of
          hi # lo # r \<Rightarrow>
            (case (unnibble hi, unnibble lo) of
               (Some h, Some l) \<Rightarrow> map_option (\<lambda>(s, t). (char_of (16 * h + l) # s, t)) (atom_dec r)
             | _ \<Rightarrow> None)
        | _ \<Rightarrow> None)
     else map_option (\<lambda>(s, t). (char_of (unat b) # s, t)) (atom_dec bs))"

text \<open>One unit of fuel per byte is enough: every call consumes one.\<close>

fun sexp_dec :: "nat \<Rightarrow> bytes \<Rightarrow> (sexp \<times> bytes) option" where
  "sexp_dec 0 bs = None"
| "sexp_dec (Suc n) [] = None"
| "sexp_dec (Suc n) (b # bs) =
    (if b = 65 then map_option (\<lambda>(s, t). (Atom s, t)) (atom_dec bs)
     else if b = 80 then
       (case sexp_dec n bs of
          None \<Rightarrow> None
        | Some (x, bs') \<Rightarrow> map_option (\<lambda>(y, t). (Pair x y, t)) (sexp_dec n bs'))
     else None)"

definition sexp_read :: "bytes \<Rightarrow> sexp option" where
  "sexp_read bs =
    (case sexp_dec (length bs) bs of Some (x, []) \<Rightarrow> Some x | _ \<Rightarrow> None)"

lemma of_char_less [simp]: "(of_char c :: nat) < 256"
  using of_char_mod_256 [of c] by (metis mod_less_divisor zero_less_numeral)

lemma byte_59: "unat (59 :: byte) = 59" and byte_37: "unat (37 :: byte) = 37"
  by simp_all

lemma plain_byte:
  assumes "plain_char c"
  shows "(word_of_nat (of_char c) :: byte) \<noteq> 59 \<and> (word_of_nat (of_char c) :: byte) \<noteq> 37"
proof -
  let ?w = "word_of_nat (of_char c) :: byte"
  have "unat ?w \<noteq> 59" "unat ?w \<noteq> 37"
    using assms by (auto simp only: unat_byte_of_char plain_char_def Let_def)
  then show ?thesis by (auto simp only: byte_59 byte_37)
qed

lemma atom_dec_escape: "atom_dec (escape c @ bs) = map_option (\<lambda>(s, t). (c # s, t)) (atom_dec bs)"
proof (cases "plain_char c")
  case True
  then show ?thesis using plain_byte [OF True] by (simp add: escape_def)
next
  case False
  have "of_char c div 16 < (16 :: nat)" "of_char c mod 16 < (16 :: nat)"
    using of_char_less [of c] by linarith+
  then show ?thesis using False by (simp add: escape_def)
qed

lemma atom_dec_enc: "atom_dec (concat (map escape s) @ 59 # bs) = Some (s, bs)"
  by (induction s) (simp_all add: atom_dec_escape)

lemma sexp_enc_pos: "0 < length (sexp_enc x)"
  by (cases x) simp_all

lemma sexp_dec_enc: "length (sexp_enc x) \<le> n \<Longrightarrow> sexp_dec n (sexp_enc x @ bs) = Some (x, bs)"
proof (induction x arbitrary: n bs)
  case (Atom s)
  then show ?case by (cases n) (simp_all add: atom_dec_enc)
next
  case (Pair a b)
  then show ?case by (cases n) simp_all
qed

lemma sexp_read_enc [simp]: "sexp_read (sexp_enc x) = Some x"
  using sexp_dec_enc [of x "length (sexp_enc x)" "[]"] by (simp add: sexp_read_def)

text \<open>Every byte written is printable ASCII.\<close>

definition visible :: "byte \<Rightarrow> bool" where
  "visible b \<longleftrightarrow> 0x20 < b \<and> b < 0x7F"

lemma visible_nibble: "n < 16 \<Longrightarrow> visible (nibble n)"
  by (simp add: visible_def word_less_nat_alt unat_nibble)

lemma visible_escape:
  assumes "b \<in> set (escape c)"
  shows "visible b"
proof (cases "plain_char c")
  case True
  have "unat (word_of_nat (of_char c) :: byte) = of_char c" by simp
  with True assms show ?thesis
    by (auto simp: escape_def plain_char_def visible_def word_less_nat_alt Let_def)
next
  case False
  have "of_char c div 16 < (16 :: nat)" "of_char c mod 16 < (16 :: nat)"
    using of_char_less [of c] by linarith+
  with False assms show ?thesis
    by (auto simp: escape_def visible_nibble) (simp add: visible_def)
qed

lemma visible_enc: "b \<in> set (sexp_enc x) \<Longrightarrow> visible b"
  by (induction x) (auto simp: visible_def dest: visible_escape [unfolded visible_def])

lemma enc_record: "record_ok (sexp_enc x)"
  using visible_enc [of _ x] by (force simp: record_ok_def visible_def)

lemma enc_utf8: "utf8_valid (sexp_enc x)"
proof (rule utf8_valid_ascii)
  fix b assume "b \<in> set (sexp_enc x)"
  then have "b < 0x7F" using visible_enc by (auto simp: visible_def)
  then show "b < 0x80" by (auto simp: word_less_nat_alt)
qed

lemma enc_head: "\<exists>bs. sexp_enc x = 65 # bs \<or> sexp_enc x = 80 # bs"
  by (cases x) auto

lemma enc_not_blank: "\<not> blank (sexp_enc x)"
  using enc_head [of x] by auto

lemma enc_not_whitespace: "\<not> list_all ascii_whitespace (sexp_enc x)"
  using enc_head [of x] by (auto simp: ascii_whitespace_def)

text \<open>A bound on the length of what is written.\<close>

fun sexp_bound :: "sexp \<Rightarrow> nat" where
  "sexp_bound (Atom s) = 3 * length s + 2"
| "sexp_bound (Pair a b) = 1 + sexp_bound a + sexp_bound b"

lemma length_escape: "length (concat (map escape s)) \<le> 3 * length s"
  by (induction s) (auto simp: escape_def)

lemma length_enc: "length (sexp_enc x) \<le> sexp_bound x"
  using length_escape by (induction x) (auto simp: add_mono)

section \<open>Codecs\<close>

type_synonym 'a codec = "('a \<Rightarrow> sexp) \<times> (sexp \<Rightarrow> 'a option)"

definition codec_ok :: "'a codec \<Rightarrow> bool" where
  "codec_ok c \<longleftrightarrow> (\<forall>x. snd c (fst c x) = Some x)"

definition put :: "'a codec \<Rightarrow> 'a \<Rightarrow> bytes" where
  "put c x = sexp_enc (fst c x)"

definition get :: "'a codec \<Rightarrow> bytes \<Rightarrow> 'a option" where
  "get c bs = Option.bind (sexp_read bs) (snd c)"

definition string_c :: "string codec" where
  "string_c = (Atom, \<lambda>x. case x of Atom s \<Rightarrow> Some s | _ \<Rightarrow> None)"

definition pair_c :: "'a codec \<Rightarrow> 'b codec \<Rightarrow> ('a \<times> 'b) codec" where
  "pair_c a b =
    (\<lambda>(x, y). Pair (fst a x) (fst b y),
     \<lambda>t. case t of
       Pair u v \<Rightarrow> (case (snd a u, snd b v) of (Some x, Some y) \<Rightarrow> Some (x, y) | _ \<Rightarrow> None)
     | _ \<Rightarrow> None)"

fun list_to :: "('a \<Rightarrow> sexp) \<Rightarrow> 'a list \<Rightarrow> sexp" where
  "list_to f [] = Atom []"
| "list_to f (x # xs) = Pair (f x) (list_to f xs)"

fun list_from :: "(sexp \<Rightarrow> 'a option) \<Rightarrow> sexp \<Rightarrow> 'a list option" where
  "list_from g (Atom s) = (if s = [] then Some [] else None)"
| "list_from g (Pair u v) =
    (case (g u, list_from g v) of (Some x, Some xs) \<Rightarrow> Some (x # xs) | _ \<Rightarrow> None)"

definition list_c :: "'a codec \<Rightarrow> 'a list codec" where
  "list_c c = (list_to (fst c), list_from (snd c))"

definition map_c :: "('a \<Rightarrow> 'b) \<Rightarrow> ('b \<Rightarrow> 'a option) \<Rightarrow> 'b codec \<Rightarrow> 'a codec" where
  "map_c f g c = (\<lambda>x. fst c (f x), \<lambda>t. Option.bind (snd c t) g)"

definition option_c :: "'a codec \<Rightarrow> 'a option codec" where
  "option_c c =
    map_c (\<lambda>x. case x of None \<Rightarrow> [] | Some y \<Rightarrow> [y])
      (\<lambda>xs. case xs of [] \<Rightarrow> Some None | y # ys \<Rightarrow> Some (Some y)) (list_c c)"

definition word_c :: "u64 codec" where
  "word_c = map_c (\<lambda>w. of_bytes (to_be_bytes w)) (\<lambda>s. Some (from_be_bytes (as_bytes s))) string_c"

named_theorems codec_intros \<open>codecs that read back what they write\<close>

lemma codec_string [codec_intros]: "codec_ok string_c"
  by (simp add: codec_ok_def string_c_def)

lemma codec_pair [codec_intros]: "codec_ok a \<Longrightarrow> codec_ok b \<Longrightarrow> codec_ok (pair_c a b)"
  by (simp add: codec_ok_def pair_c_def)

lemma codec_list [codec_intros]: "codec_ok c \<Longrightarrow> codec_ok (list_c c)"
proof -
  assume "codec_ok c"
  then have "list_from (snd c) (list_to (fst c) xs) = Some xs" for xs
    by (induction xs) (simp_all add: codec_ok_def)
  then show ?thesis by (simp add: codec_ok_def list_c_def)
qed

lemma codec_map [codec_intros]: "codec_ok c \<Longrightarrow> (\<And>x. g (f x) = Some x) \<Longrightarrow> codec_ok (map_c f g c)"
  by (simp add: codec_ok_def map_c_def)

lemma codec_option [codec_intros]: "codec_ok c \<Longrightarrow> codec_ok (option_c c)"
  unfolding option_c_def by (intro codec_intros) (auto split: option.splits)

lemma codec_word [codec_intros]: "codec_ok word_c"
  unfolding word_c_def by (intro codec_intros) simp

lemma get_put: "codec_ok c \<Longrightarrow> get c (put c x) = Some x"
  by (simp add: get_def put_def codec_ok_def)

lemma put_inj: "codec_ok c \<Longrightarrow> put c x = put c y \<longleftrightarrow> x = y"
  by (metis get_put option.inject)

lemma put_record: "record_ok (put c x)"
  by (simp add: put_def enc_record)

lemma put_utf8: "utf8_valid (put c x)"
  by (simp add: put_def enc_utf8)

lemma put_not_blank: "\<not> blank (put c x)"
  by (simp add: put_def enc_not_blank)

lemma put_not_whitespace: "\<not> list_all ascii_whitespace (put c x)"
  by (simp add: put_def enc_not_whitespace)

end
