(* ===== verification/Tables.thy ===== *)
theory Tables
  imports Prelude
begin

text \<open>
  Ordered key-value tables. The program keeps data in four containers with the same contract: a
  redb table (iterated in key order, one value per key), a \<open>BTreeMap\<close>, a \<open>HashMap\<close> (never iterated
  in an order that matters) and the directory of a file system. All four are association lists
  kept sorted by key.

  The locale \<open>kv_table\<close> is the contract the clients rely on (what a lookup returns after an
  insert or a removal); it is interpreted on the operations below.
\<close>

type_synonym ('k, 'v) table = "('k \<times> 'v) list"

definition tget :: "('k, 'v) table \<Rightarrow> 'k \<Rightarrow> 'v option" where
  "tget t k = map_of t k"

fun tput :: "'k::linorder \<Rightarrow> 'v \<Rightarrow> ('k, 'v) table \<Rightarrow> ('k, 'v) table" where
  "tput k v [] = [(k, v)]"
| "tput k v ((k', v') # t) =
     (if k = k' then (k, v) # t
      else if k < k' then (k, v) # (k', v') # t
      else (k', v') # tput k v t)"

definition tdel :: "'k \<Rightarrow> ('k, 'v) table \<Rightarrow> ('k, 'v) table" where
  "tdel k t = filter (\<lambda>(k', v). k' \<noteq> k) t"

definition tkeys :: "('k, 'v) table \<Rightarrow> 'k list" where
  "tkeys t = map fst t"

definition tsorted :: "('k::linorder, 'v) table \<Rightarrow> bool" where
  "tsorted t = sorted_wrt (<) (map fst t)"

section \<open>The contract of a table\<close>

locale kv_table =
  fixes look :: "'t \<Rightarrow> 'k \<Rightarrow> 'v option"
    and put :: "'k \<Rightarrow> 'v \<Rightarrow> 't \<Rightarrow> 't"
    and del :: "'k \<Rightarrow> 't \<Rightarrow> 't"
    and empty :: "'t"
  assumes look_empty: "look empty k = None"
    and look_put: "look (put k v t) k' = (if k' = k then Some v else look t k')"
    and look_del: "look (del k t) k' = (if k' = k then None else look t k')"
begin

lemma look_put_same: "look (put k v t) k = Some v"
  by (simp add: look_put)

lemma look_put_other: "k' \<noteq> k \<Longrightarrow> look (put k v t) k' = look t k'"
  by (simp add: look_put)

lemma look_del_same: "look (del k t) k = None"
  by (simp add: look_del)

lemma look_put_put: "look (put k v (put k w t)) = look (put k v t)"
  by (rule ext) (simp add: look_put)

lemma look_del_put: "look (del k (put k v t)) = look (del k t)"
  by (rule ext) (simp add: look_del look_put)

text \<open>Storing a whole list of bindings: the last binding of a key wins, other keys keep theirs.\<close>

lemma look_foldl_put:
  "look (foldl (\<lambda>t (k, v). put k v t) t kvs) k =
    (case map_of (rev kvs) k of Some v \<Rightarrow> Some v | None \<Rightarrow> look t k)"
proof (induction kvs rule: rev_induct)
  case Nil
  then show ?case by simp
next
  case (snoc kv kvs)
  then show ?case by (cases kv) (simp add: look_put)
qed

end

lemma tget_tput: "tget (tput k v t) k' = (if k' = k then Some v else tget t k')"
  by (induction k v t rule: tput.induct) (auto simp: tget_def)

lemma tget_tdel: "tget (tdel k t) k' = (if k' = k then None else tget t k')"
  by (induction t) (auto simp: tget_def tdel_def)

interpretation tbl: kv_table tget tput tdel "[]"
  by unfold_locales (simp add: tget_def, simp add: tget_tput, simp add: tget_tdel)

declare tget_tput [simp] tget_tdel [simp]

lemma tget_Nil [simp]: "tget [] k = None"
  by (simp add: tget_def)

section \<open>Order\<close>

lemma tsorted_Nil [simp]: "tsorted []"
  by (simp add: tsorted_def)

lemma set_tput: "fst ` set (tput k v t) = insert k (fst ` set t)"
  by (induction k v t rule: tput.induct) auto

lemma tsorted_tput [simp]: "tsorted t \<Longrightarrow> tsorted (tput k v t)"
proof (induction k v t rule: tput.induct)
  case (1 k v)
  then show ?case by (simp add: tsorted_def)
next
  case (2 k v k' v' t)
  then show ?case
    using set_tput [of k v t] by (fastforce simp: tsorted_def)
qed

lemma tsorted_tdel [simp]: "tsorted t \<Longrightarrow> tsorted (tdel k t)"
  by (induction t) (auto simp: tsorted_def tdel_def)

lemma tsorted_distinct: "tsorted t \<Longrightarrow> distinct (map fst t)"
  by (simp add: tsorted_def strict_sorted_iff)

lemma tget_mem: "tsorted t \<Longrightarrow> tget t k = Some v \<longleftrightarrow> (k, v) \<in> set t"
  unfolding tget_def by (rule map_of_eq_Some_iff [OF tsorted_distinct])

text \<open>Two sorted tables with the same lookups are the same table, so iterating them gives the
  same sequence.\<close>

lemma table_eqI:
  assumes "tsorted s" and "tsorted t" and eq: "\<And>k. tget s k = tget t k"
  shows "s = t"
proof -
  have "set s = set t"
    using assms by (auto simp flip: tget_mem)
  moreover have "sorted_wrt (\<lambda>x y. fst x < fst y) s" "sorted_wrt (\<lambda>x y. fst x < fst y) t"
    using assms by (simp_all add: tsorted_def sorted_wrt_map)
  moreover have "irreflp (\<lambda>x y :: 'a \<times> 'b. fst x < fst y)"
    by (simp add: irreflp_def)
  ultimately show ?thesis
  proof (induction s arbitrary: t)
    case Nil
    then show ?case by simp
  next
    case (Cons x s)
    then obtain y t' where t: "t = y # t'" by (cases t) auto
    have xy: "x = y"
    proof (rule ccontr)
      assume "x \<noteq> y"
      with Cons.prems(1) t have "x \<in> set t'" "y \<in> set s" by auto
      with Cons.prems(2,3) t have "fst y < fst x" "fst x < fst y" by auto
      then show False by simp
    qed
    have "x \<notin> set s" "x \<notin> set t'"
      using Cons.prems(2,3) t xy by auto
    with Cons.prems(1) t xy have "set s = set t'" by auto
    with Cons.IH [of t'] Cons.prems t xy show ?case by simp
  qed
qed

lemma tget_keys: "k \<in> set (tkeys t) \<longleftrightarrow> tget t k \<noteq> None"
  unfolding tkeys_def tget_def by (simp add: map_of_eq_None_iff)

lemma tkeys_sorted: "tsorted t \<Longrightarrow> sorted (tkeys t)"
  by (simp add: tkeys_def tsorted_def strict_sorted_iff)

lemma tput_tput_commute:
  "tsorted t \<Longrightarrow> k \<noteq> k' \<Longrightarrow> tput k v (tput k' v' t) = tput k' v' (tput k v t)"
  by (rule table_eqI) auto

section \<open>Tables filled from a list\<close>

definition tfill :: "('k::linorder \<times> 'v) list \<Rightarrow> ('k, 'v) table" where
  "tfill kvs = foldl (\<lambda>t (k, v). tput k v t) [] kvs"

lemma tfill_snoc [simp]: "tfill (kvs @ [(k, v)]) = tput k v (tfill kvs)"
  by (simp add: tfill_def)

lemma tfill_sorted [simp]: "tsorted (tfill kvs)"
  by (induction kvs rule: rev_induct) (auto simp: tfill_def split: prod.splits)

lemma map_of_rev_distinct: "distinct (map fst kvs) \<Longrightarrow> map_of (rev kvs) = map_of kvs"
proof (rule ext)
  fix k
  assume d: "distinct (map fst kvs)"
  then have "distinct (map fst (rev kvs))" by (simp flip: rev_map)
  then have "map_of (rev kvs) k = Some v \<longleftrightarrow> map_of kvs k = Some v" for v
    using d by (simp add: map_of_eq_Some_iff)
  then show "map_of (rev kvs) k = map_of kvs k"
    by (metis not_Some_eq)
qed

lemma tget_tfill: "distinct (map fst kvs) \<Longrightarrow> tget (tfill kvs) k = map_of kvs k"
  by (simp add: tfill_def tbl.look_foldl_put map_of_rev_distinct split: option.split)

lemma tget_tfill_None: "tget (tfill kvs) k = None \<longleftrightarrow> k \<notin> fst ` set kvs"
proof -
  have "tget (tfill kvs) k = map_of (rev kvs) k"
    by (simp add: tfill_def tbl.look_foldl_put split: option.split)
  then show ?thesis by (simp add: map_of_eq_None_iff)
qed

lemma tfill_mem: "distinct (map fst kvs) \<Longrightarrow> set (tfill kvs) = set kvs"
proof -
  assume d: "distinct (map fst kvs)"
  have "(k, v) \<in> set (tfill kvs) \<longleftrightarrow> (k, v) \<in> set kvs" for k v
    using d by (simp flip: tget_mem add: tget_tfill map_of_eq_Some_iff)
  then show ?thesis by (simp add: set_eq_iff split_paired_all)
qed

text \<open>A list already in key order is the table it fills.\<close>

lemma tfill_id: "tsorted kvs \<Longrightarrow> tfill kvs = kvs"
  by (rule table_eqI) (simp_all add: tget_tfill tsorted_distinct, simp add: tget_def)

end
