(* ===== verification/Channel_Names.thy ===== *)
theory Channel_Names
  imports Rust_Std
begin

text \<open>
  Channel names and paths: \<open>src/util.rs\<close> (\<open>valid_channel\<close>, \<open>channel_to_path\<close>) and
  \<open>ChannelRef::parse\<close> of \<open>src/store.rs\<close>. A path is its text with \<open>/\<close> between the components, as
  \<open>Path::join\<close> builds it. Shown here: what the character tests of \<open>valid_channel\<close> accept, segment by
  segment; that no accepted name can leave the \<open>channels\<close> directory; and that distinct channels never
  share a file.
\<close>

section \<open>Names\<close>

definition name_char :: "char \<Rightarrow> bool" where
  "name_char c \<longleftrightarrow>
    (CHR ''a'' \<le> c \<and> c \<le> CHR ''z'') \<or> (CHR ''0'' \<le> c \<and> c \<le> CHR ''9'') \<or> c = CHR ''-''"

fun double_slash :: "string \<Rightarrow> bool" where
  "double_slash (c # d # cs) \<longleftrightarrow> (c = CHR ''/'' \<and> d = CHR ''/'') \<or> double_slash (d # cs)"
| "double_slash _ \<longleftrightarrow> False"

definition valid_channel :: "string \<Rightarrow> bool" where
  "valid_channel name \<longleftrightarrow>
    list_all (\<lambda>c. name_char c \<or> c = CHR ''/'') name
    \<and> name \<noteq> []
    \<and> hd name \<noteq> CHR ''/''
    \<and> last name \<noteq> CHR ''/''
    \<and> \<not> double_slash name"

record channel_ref =
  full_name :: string

definition parse_channel :: "string \<Rightarrow> channel_ref result" where
  "parse_channel name =
    (if \<not> valid_channel name then Inl BadChannelName else Inr \<lparr>full_name = name\<rparr>)"

section \<open>Paths\<close>

definition path_join :: "string \<Rightarrow> string \<Rightarrow> string" where
  "path_join p q =
    (if q \<noteq> [] \<and> hd q = CHR ''/'' then q
     else if p = [] then q
     else if last p = CHR ''/'' then p @ q
     else p @ CHR ''/'' # q)"

definition channel_to_path :: "string \<Rightarrow> string \<Rightarrow> string" where
  "channel_to_path base name = path_join (path_join base ''channels'') name"

definition channel_file :: "string \<Rightarrow> string \<Rightarrow> string \<Rightarrow> string" where
  "channel_file base name file = path_join (channel_to_path base name) file"

section \<open>What the name test accepts\<close>

text \<open>The specification: split at the slashes; there is at least one segment, and each is a
  non-empty word over \<open>a-z\<close>, \<open>0-9\<close> and \<open>-\<close>.\<close>

fun segments :: "string \<Rightarrow> string list" where
  "segments [] = [[]]"
| "segments (c # cs) =
    (if c = CHR ''/'' then [] # segments cs
     else (case segments cs of [] \<Rightarrow> [[c]] | s # ss \<Rightarrow> (c # s) # ss))"

definition segment_ok :: "string \<Rightarrow> bool" where
  "segment_ok s \<longleftrightarrow> s \<noteq> [] \<and> list_all name_char s"

lemma segments_Cons_ex: "\<exists>s ss. segments cs = s # ss"
  by (cases cs) (auto split: list.splits)

lemma not_name_char_slash [simp]: "\<not> name_char (CHR ''/'')"
  by (simp add: name_char_def less_eq_char_def)

lemma not_name_char_dot [simp]: "\<not> name_char (CHR ''.'')"
  by (simp add: name_char_def less_eq_char_def)

lemma valid_channel_Cons:
  "valid_channel (c # cs) \<longleftrightarrow>
    name_char c \<and> (case cs of [] \<Rightarrow> True
      | d # ds \<Rightarrow> if d = CHR ''/'' then valid_channel ds else valid_channel cs)"
proof (cases cs)
  case Nil
  then show ?thesis by (auto simp: valid_channel_def)
next
  case (Cons d ds)
  show ?thesis
  proof (cases "d = CHR ''/''")
    case True
    with Cons show ?thesis
      by (cases ds) (auto simp: valid_channel_def)
  next
    case False
    with Cons show ?thesis by (auto simp: valid_channel_def)
  qed
qed

lemma segments_ok_Cons:
  "list_all segment_ok (segments (c # cs)) \<longleftrightarrow>
    name_char c \<and> (case cs of [] \<Rightarrow> True
      | d # ds \<Rightarrow> if d = CHR ''/'' then list_all segment_ok (segments ds)
                  else list_all segment_ok (segments cs))"
proof (cases "c = CHR ''/''")
  case True
  then show ?thesis by (simp add: segment_ok_def)
next
  case False
  show ?thesis
  proof (cases cs)
    case Nil
    with False show ?thesis by (simp add: segment_ok_def)
  next
    case (Cons d ds)
    obtain s ss where "segments ds = s # ss" using segments_Cons_ex by blast
    with Cons False show ?thesis by (auto simp: segment_ok_def)
  qed
qed

lemma valid_channel_iff_segments: "valid_channel name = list_all segment_ok (segments name)"
proof (induction name rule: length_induct)
  case (1 name)
  show ?case
  proof (cases name)
    case Nil
    then show ?thesis by (simp add: valid_channel_def segment_ok_def)
  next
    case (Cons c cs)
    with 1 show ?thesis
      unfolding Cons valid_channel_Cons segments_ok_Cons by (auto split: list.splits)
  qed
qed

text \<open>\<open>valid_channel\<close> accepts exactly the names whose slash-separated segments are all non-empty
  words over lower-case letters, digits and hyphens.\<close>

theorem valid_channel_segments: "valid_channel name = list_all segment_ok (segments name)"
  by (rule valid_channel_iff_segments)

lemma valid_channel_chars: "valid_channel name \<Longrightarrow> c \<in> set name \<Longrightarrow> name_char c \<or> c = CHR ''/''"
  by (auto simp: valid_channel_def list_all_iff)

lemma valid_channel_no_newline: "valid_channel name \<Longrightarrow> CHR 10 \<notin> set name"
proof
  assume "valid_channel name" and "CHR 10 \<in> set name"
  then have "name_char (CHR 10) \<or> CHR 10 = CHR ''/''" by (rule valid_channel_chars)
  then show False by (simp add: name_char_def less_eq_char_def)
qed

lemma valid_channel_no_dot: "valid_channel name \<Longrightarrow> CHR ''.'' \<notin> set name"
  using valid_channel_chars by force

section \<open>Files of a channel\<close>

lemma last_slash_split:
  assumes "x @ CHR ''/'' # f = y @ CHR ''/'' # g"
    and "CHR ''/'' \<notin> set f" and "CHR ''/'' \<notin> set g"
  shows "x = y \<and> f = g"
proof -
  have split: "takeWhile (\<lambda>c. c \<noteq> CHR ''/'') (rev (z @ CHR ''/'' # h)) = rev h"
    if "CHR ''/'' \<notin> set h" for z h :: string
    using that by (auto simp: takeWhile_append2 takeWhile_tail)
  have "rev f = rev g"
    using split [OF assms(2), of x] split [OF assms(3), of y] assms(1) by simp
  with assms(1) show ?thesis by simp
qed

lemma channel_to_path_valid:
  assumes "valid_channel name"
  shows "channel_to_path base name = path_join base ''channels'' @ CHR ''/'' # name"
proof -
  have "hd name \<noteq> CHR ''/''" "name \<noteq> []"
    using assms by (auto simp: valid_channel_def)
  moreover have "path_join base ''channels'' \<noteq> []" "last (path_join base ''channels'') \<noteq> CHR ''/''"
    by (auto simp: path_join_def)
  ultimately show ?thesis unfolding channel_to_path_def
    by (subst path_join_def) simp
qed

definition plain_file :: "string \<Rightarrow> bool" where
  "plain_file f \<longleftrightarrow> f \<noteq> [] \<and> CHR ''/'' \<notin> set f"

lemma channel_file_valid:
  assumes "valid_channel name" and "plain_file f"
  shows "channel_file base name f = path_join base ''channels'' @ CHR ''/'' # name @ CHR ''/'' # f"
proof -
  have "hd f \<noteq> CHR ''/''"
    using assms(2) hd_in_set [of f] by (force simp: plain_file_def)
  moreover have "last (channel_to_path base name) \<noteq> CHR ''/''" "channel_to_path base name \<noteq> []"
    using assms(1) by (auto simp: channel_to_path_valid valid_channel_def)
  ultimately show ?thesis
    unfolding channel_file_def using assms
    by (subst path_join_def) (simp add: channel_to_path_valid)
qed

lemma channel_file_eq_iff:
  assumes "valid_channel c" and "valid_channel d" and "plain_file f" and "plain_file g"
  shows "channel_file base c f = channel_file base d g \<longleftrightarrow> c = d \<and> f = g"
proof
  assume "channel_file base c f = channel_file base d g"
  then have "c @ CHR ''/'' # f = d @ CHR ''/'' # g"
    using assms by (simp add: channel_file_valid)
  with last_slash_split [of c f d g] assms(3,4) show "c = d \<and> f = g"
    by (simp add: plain_file_def)
qed simp

text \<open>Two valid channels never share a file: the paths of two of their files are equal only
  for the same channel and the same file name.\<close>

theorem channel_file_inj:
  assumes "valid_channel c" and "valid_channel d" and "plain_file f" and "plain_file g"
  shows "channel_file base c f = channel_file base d g \<longleftrightarrow> c = d \<and> f = g"
  using assms by (rule channel_file_eq_iff)

text \<open>A parsed channel name cannot escape the \<open>channels\<close> directory: its path is that directory
  followed by the name, and no segment of it is empty, \<open>.\<close> or \<open>..\<close>.\<close>

theorem parse_channel_contained:
  assumes "parse_channel name = Inr chan"
  shows "full_name chan = name
    \<and> channel_to_path base name = path_join base ''channels'' @ CHR ''/'' # name
    \<and> [] \<notin> set (segments name) \<and> ''.'' \<notin> set (segments name) \<and> ''..'' \<notin> set (segments name)"
proof -
  have v: "valid_channel name" and "full_name chan = name"
    using assms by (auto simp: parse_channel_def split: if_splits)
  moreover have "segment_ok s" if "s \<in> set (segments name)" for s
    using v that unfolding valid_channel_iff_segments by (simp add: list_all_iff)
  then have "[] \<notin> set (segments name) \<and> ''.'' \<notin> set (segments name) \<and> ''..'' \<notin> set (segments name)"
    by (force simp: segment_ok_def)
  ultimately show ?thesis using channel_to_path_valid by blast
qed

lemma parse_channel_ok: "parse_channel name = Inr chan \<longleftrightarrow> valid_channel name \<and> chan = \<lparr>full_name = name\<rparr>"
  by (auto simp: parse_channel_def)

text \<open>The file names the program uses inside a channel directory.\<close>

lemma plain_files [simp]:
  "plain_file ''log.ndjson''" "plain_file ''policy.ndjson''" "plain_file ''policy.json''"
  "plain_file ''moderation.ndjson''" "plain_file ''moderation.json''" "plain_file ''index.redb''"
  "plain_file ''channel-keys.json''"
  by (simp_all add: plain_file_def)

end
