(* ===== verification/Node_Files.thy ===== *)
theory Node_Files
  imports Tables Channel_Names
begin

text \<open>
  The state every operation works on: the files, directories and redb databases below a node's data
  directory. A file is its bytes, found under its path; a redb database is the record of its four
  tables (\<open>messages\<close>, \<open>metadata\<close>, \<open>chunk_members\<close>, \<open>chunk_hashes\<close> of \<open>src/store.rs\<close>). An operation is a
  function from this state to a result and the next state.

  Not represented: advisory lock files, which hold no data (an operation that takes a lock is one
  step of this model, and fails like the code when the channel directory is missing); temporary files
  that are renamed over their target in the same operation (the pair is \<open>replace_file\<close>); write errors of
  the disk itself.
\<close>

record index_db =
  t_messages :: "(string, bytes) table"
  t_meta :: "(string, u64) table"
  t_chunks :: "(u64, bytes) table"
  t_hashes :: "(u64, bytes) table"

definition empty_db :: index_db where
  "empty_db = \<lparr>t_messages = [], t_meta = [], t_chunks = [], t_hashes = []\<rparr>"

record node_fs =
  files :: "(string, bytes) table"
  dirs :: "string list"
  dbs :: "(string, index_db) table"

type_synonym 'a io = "node_fs \<Rightarrow> 'a result \<times> node_fs"

definition dir_exists :: "string \<Rightarrow> node_fs \<Rightarrow> bool" where
  "dir_exists d s \<longleftrightarrow> d \<in> set (dirs s)"

definition file_exists :: "string \<Rightarrow> node_fs \<Rightarrow> bool" where
  "file_exists p s \<longleftrightarrow> tget (files s) p \<noteq> None"

definition read_file :: "string \<Rightarrow> node_fs \<Rightarrow> bytes result" where
  "read_file p s = from_option (Io (Missing p)) (tget (files s) p)"

text \<open>\<open>std::fs::create_dir_all\<close>: the directory and all its ancestors.\<close>

definition path_ancestors :: "string \<Rightarrow> string list" where
  "path_ancestors p =
    map (\<lambda>i. take i p)
      (filter (\<lambda>i. 0 < i \<and> (i = length p \<or> p ! i = CHR ''/'')) [0..<Suc (length p)])"

definition ensure_dir :: "string \<Rightarrow> unit io" where
  "ensure_dir d s =
    (Inr (), s\<lparr>dirs := dirs s @ filter (\<lambda>a. a \<notin> set (dirs s)) (path_ancestors d)\<rparr>)"

text \<open>\<open>OpenOptions::new().create(true).append(true)\<close>: an absent file is created empty; the
  directory must exist.\<close>

definition open_append :: "string \<Rightarrow> string \<Rightarrow> unit io" where
  "open_append dir p s =
    (if file_exists p s then (Inr (), s)
     else if dir_exists dir s then (Inr (), s\<lparr>files := tput p [] (files s)\<rparr>)
     else (Inl (Io (NoDirectory dir)), s))"

definition append_file :: "string \<Rightarrow> bytes \<Rightarrow> unit io" where
  "append_file p bs s =
    (case tget (files s) p of
       None \<Rightarrow> (Inl (Io (Missing p)), s)
     | Some old \<Rightarrow> (Inr (), s\<lparr>files := tput p (old @ bs) (files s)\<rparr>))"

text \<open>\<open>std::fs::write\<close> of a temporary file and \<open>std::fs::rename\<close> over the target.\<close>

definition replace_file :: "string \<Rightarrow> string \<Rightarrow> bytes \<Rightarrow> unit io" where
  "replace_file dir p bs s =
    (if dir_exists dir s then (Inr (), s\<lparr>files := tput p bs (files s)\<rparr>)
     else (Inl (Io (NoDirectory dir)), s))"

definition get_db :: "string \<Rightarrow> node_fs \<Rightarrow> index_db" where
  "get_db p s = (case tget (dbs s) p of None \<Rightarrow> empty_db | Some db \<Rightarrow> db)"

definition put_db :: "string \<Rightarrow> index_db \<Rightarrow> node_fs \<Rightarrow> node_fs" where
  "put_db p db s = s\<lparr>dbs := tput p db (dbs s)\<rparr>"

text \<open>The regular files directly inside a directory (\<open>read_dir\<close>), by name.\<close>

definition strip_prefix :: "string \<Rightarrow> string \<Rightarrow> string option" where
  "strip_prefix p x =
    (if take (length p) x = p then Some (drop (length p) x) else None)"

definition dir_files :: "string \<Rightarrow> node_fs \<Rightarrow> string list" where
  "dir_files d s =
    filter (\<lambda>f. f \<noteq> [] \<and> CHR ''/'' \<notin> set f)
      (List.map_filter (strip_prefix (d @ ''/'')) (tkeys (files s)))"

section \<open>Reads after writes\<close>

lemma read_file_ok: "read_file p s = Inr bs \<longleftrightarrow> tget (files s) p = Some bs"
  by (simp add: read_file_def from_option_ok)

lemma file_exists_read: "file_exists p s \<longleftrightarrow> is_ok (read_file p s)"
  by (auto simp: file_exists_def read_file_def from_option_def split: option.splits)

lemma read_file_put [simp]:
  "read_file p (s\<lparr>files := tput q bs (files s)\<rparr>) = (if p = q then Inr bs else read_file p s)"
  by (simp add: read_file_def)

lemma file_exists_put [simp]:
  "file_exists p (s\<lparr>files := tput q bs (files s)\<rparr>) \<longleftrightarrow> p = q \<or> file_exists p s"
  by (simp add: file_exists_def)

lemma dir_exists_put [simp]: "dir_exists d (s\<lparr>files := F\<rparr>) \<longleftrightarrow> dir_exists d s"
  by (simp add: dir_exists_def)

lemma read_file_dbs [simp]: "read_file p (put_db q db s) = read_file p s"
  by (simp add: read_file_def put_db_def)

lemma file_exists_dbs [simp]: "file_exists p (put_db q db s) = file_exists p s"
  by (simp add: file_exists_def put_db_def)

lemma dir_exists_dbs [simp]: "dir_exists d (put_db q db s) = dir_exists d s"
  by (simp add: dir_exists_def put_db_def)

lemma files_put_db [simp]: "files (put_db q db s) = files s"
  by (simp add: put_db_def)

lemma dirs_put_db [simp]: "dirs (put_db q db s) = dirs s"
  by (simp add: put_db_def)

lemma get_db_put [simp]: "get_db p (put_db q db s) = (if p = q then db else get_db p s)"
  by (simp add: get_db_def put_db_def)

lemma get_db_files [simp]: "get_db p (s\<lparr>files := F\<rparr>) = get_db p s"
  by (simp add: get_db_def)

section \<open>What an operation may write\<close>

text \<open>\<open>writes_only P m\<close>: whatever its result, \<open>m\<close> changes no file and no database outside the paths
  \<open>P\<close>, and no directory. The rules follow the sequencing operators.\<close>

definition same_outside :: "string set \<Rightarrow> node_fs \<Rightarrow> node_fs \<Rightarrow> bool" where
  "same_outside P s t \<longleftrightarrow>
    (\<forall>q. q \<notin> P \<longrightarrow> tget (files t) q = tget (files s) q \<and> tget (dbs t) q = tget (dbs s) q)
    \<and> dirs t = dirs s"

definition writes_only :: "string set \<Rightarrow> 'a io \<Rightarrow> bool" where
  "writes_only P m \<longleftrightarrow> (\<forall>s. same_outside P s (snd (m s)))"

named_theorems frame_intros \<open>which paths an operation writes\<close>

lemma same_outside_refl [simp]: "same_outside P s s"
  by (simp add: same_outside_def)

lemma same_outside_trans: "same_outside P s t \<Longrightarrow> same_outside P t u \<Longrightarrow> same_outside P s u"
  by (simp add: same_outside_def)

lemma same_outside_mono: "same_outside P s t \<Longrightarrow> P \<subseteq> Q \<Longrightarrow> same_outside Q s t"
  by (auto simp: same_outside_def)

lemma writes_onlyD: "writes_only P m \<Longrightarrow> m s = (r, t) \<Longrightarrow> same_outside P s t"
  unfolding writes_only_def by (metis snd_conv)

lemma writes_only_mono: "writes_only P m \<Longrightarrow> P \<subseteq> Q \<Longrightarrow> writes_only Q m"
  unfolding writes_only_def by (blast intro: same_outside_mono)

lemma writes_only_okS [frame_intros]: "writes_only P (okS x)"
  by (simp add: writes_only_def okS_def)

lemma writes_only_liftS [frame_intros]: "writes_only P (liftS r)"
  by (simp add: writes_only_def liftS_def)

lemma writes_only_readS [frame_intros]: "writes_only P (readS f)"
  by (simp add: writes_only_def readS_def)

lemma writes_only_bindS [frame_intros]:
  assumes "writes_only P m" and "\<And>x. writes_only P (f x)"
  shows "writes_only P (bindS m f)"
  unfolding writes_only_def
proof
  fix s
  obtain r t where m: "m s = (r, t)" by (cases "m s")
  then have st: "same_outside P s t"
    using assms(1) by (blast dest: writes_onlyD)
  show "same_outside P s (snd (bindS m f s))"
  proof (cases r)
    case (Inl e)
    then show ?thesis using m st by (simp add: bindS_def)
  next
    case (Inr x)
    have "same_outside P t (snd (f x t))"
      using assms(2) by (simp add: writes_only_def)
    then show ?thesis
      using m st Inr by (auto simp: bindS_def intro: same_outside_trans)
  qed
qed

lemma writes_only_if [frame_intros]:
  "writes_only P m \<Longrightarrow> writes_only P n \<Longrightarrow> writes_only P (if b then m else n)"
  by simp

lemma writes_only_case_prod [frame_intros]:
  "(\<And>x y. writes_only P (f x y)) \<Longrightarrow> writes_only P (case z of (x, y) \<Rightarrow> f x y)"
  by (cases z) simp

lemma writes_only_append [frame_intros]: "p \<in> P \<Longrightarrow> writes_only P (append_file p bs)"
  by (auto simp: writes_only_def same_outside_def append_file_def split: option.splits)

lemma writes_only_open [frame_intros]: "p \<in> P \<Longrightarrow> writes_only P (open_append d p)"
  by (auto simp: writes_only_def same_outside_def open_append_def)

lemma writes_only_replace [frame_intros]: "p \<in> P \<Longrightarrow> writes_only P (replace_file d p bs)"
  by (auto simp: writes_only_def same_outside_def replace_file_def)

lemma same_outside_read: "same_outside P s t \<Longrightarrow> q \<notin> P \<Longrightarrow> read_file q t = read_file q s"
  by (simp add: same_outside_def read_file_def)

lemma same_outside_exists: "same_outside P s t \<Longrightarrow> q \<notin> P \<Longrightarrow> file_exists q t = file_exists q s"
  by (simp add: same_outside_def file_exists_def)

lemma same_outside_dir: "same_outside P s t \<Longrightarrow> dir_exists d t = dir_exists d s"
  by (simp add: same_outside_def dir_exists_def)

lemma same_outside_db: "same_outside P s t \<Longrightarrow> q \<notin> P \<Longrightarrow> get_db q t = get_db q s"
  by (simp add: same_outside_def get_db_def)

end
