(* ===== verification/Event_Chain.thy ===== *)
theory Event_Chain
  imports Node_Files
begin

text \<open>
  What the two signed administrative histories of a channel (policy and moderation) share: an event
  chain, replayed from its start, where every event names the id of the one before it, and a file
  of one JSON record per line. The locales state what a history's step and encoding promise, and
  carry the lemmas proved once for both: replay of a concatenation, validity of every prefix, links
  between neighbours, and reading back a written file.
\<close>

definition last_id :: "('e \<Rightarrow> string) \<Rightarrow> string option \<Rightarrow> 'e list \<Rightarrow> string option" where
  "last_id eid p es = (if es = [] then p else Some (eid (last es)))"

fun linked :: "('e \<Rightarrow> string) \<Rightarrow> ('e \<Rightarrow> string option) \<Rightarrow> string option \<Rightarrow> 'e list \<Rightarrow> bool" where
  "linked eid prev p [] \<longleftrightarrow> True"
| "linked eid prev p (e # es) \<longleftrightarrow> prev e = p \<and> linked eid prev (Some (eid e)) es"

text \<open>The comparison of two histories, by ids: \<open>is_policy_prefix\<close> and \<open>is_moderation_prefix\<close> of
  \<open>src/sync.rs\<close>, and the same test in the two \<open>append_remote\<close> functions of \<open>src/store.rs\<close>.\<close>

definition id_prefix :: "('e \<Rightarrow> string) \<Rightarrow> 'e list \<Rightarrow> 'e list \<Rightarrow> bool" where
  "id_prefix eid prefix history \<longleftrightarrow>
    length prefix \<le> length history \<and> list_all (\<lambda>(l, r). eid l = eid r) (zip prefix history)"

locale event_chain =
  fixes eid :: "'e \<Rightarrow> string"
    and prev :: "'e \<Rightarrow> string option"
    and step :: "'st \<Rightarrow> string option \<Rightarrow> 'e \<Rightarrow> 'st result"
    and replay :: "'st \<Rightarrow> string option \<Rightarrow> 'e list \<Rightarrow> 'st result"
  assumes replay_Nil: "replay st p [] = Inr st"
    and replay_Cons: "replay st p (e # es) = bindR (step st p e) (\<lambda>st'. replay st' (Some (eid e)) es)"
    and step_linked: "step st p e = Inr st' \<Longrightarrow> prev e = p"
begin

lemma replay_append:
  "replay st p (xs @ ys) = bindR (replay st p xs) (\<lambda>st'. replay st' (last_id eid p xs) ys)"
proof (induction xs arbitrary: st p)
  case Nil
  then show ?case by (simp add: replay_Nil last_id_def)
next
  case (Cons x xs)
  have "last_id eid (Some (eid x)) xs = last_id eid p (x # xs)"
    by (simp add: last_id_def)
  then show ?case by (simp add: replay_Cons bindR_assoc Cons)
qed

lemma replay_snoc:
  "replay st p (xs @ [e]) = bindR (replay st p xs) (\<lambda>st'. step st' (last_id eid p xs) e)"
proof -
  have "bindR (step s q e) (\<lambda>st'. replay st' (Some (eid e)) []) = step s q e" for s q
    by (cases "step s q e") (simp_all add: replay_Nil)
  then show ?thesis by (simp add: replay_append replay_Cons)
qed

lemma replay_prefix_ok: "replay st p (xs @ ys) = Inr st' \<Longrightarrow> \<exists>mid. replay st p xs = Inr mid"
  by (auto simp: replay_append bindR_ok)

lemma replay_take_ok: "replay st p es = Inr st' \<Longrightarrow> \<exists>mid. replay st p (take n es) = Inr mid"
  using replay_prefix_ok [of st p "take n es" "drop n es"] by simp

lemma replay_linked: "replay st p es = Inr st' \<Longrightarrow> linked eid prev p es"
proof (induction es arbitrary: st p)
  case Nil
  then show ?case by simp
next
  case (Cons e es)
  then show ?case by (auto simp: replay_Cons bindR_ok dest: step_linked)
qed

text \<open>An invariant of the step holds of every replayed state.\<close>

lemma replay_invariant:
  assumes "replay st p es = Inr st'" and "I st"
    and "\<And>s q e s'. I s \<Longrightarrow> step s q e = Inr s' \<Longrightarrow> I s'"
  shows "I st'"
  using assms(1,2)
proof (induction es arbitrary: st p)
  case Nil
  then show ?case by (simp add: replay_Nil)
next
  case (Cons e es)
  then show ?case using assms(3) by (auto simp: replay_Cons bindR_ok)
qed

end

lemma id_prefix_refl [simp]: "id_prefix eid es es"
proof -
  have "list_all (\<lambda>(l, r). eid l = eid r) (zip es es)"
    by (auto simp: list_all_iff zip_same_conv_map)
  then show ?thesis by (simp add: id_prefix_def)
qed

lemma id_prefix_map: "id_prefix eid xs ys \<longleftrightarrow> map eid xs = take (length xs) (map eid ys)"
proof (induction xs arbitrary: ys)
  case Nil
  then show ?case by (simp add: id_prefix_def)
next
  case (Cons x xs)
  then show ?case by (cases ys) (auto simp: id_prefix_def)
qed

lemma id_prefix_antisym:
  assumes "id_prefix eid xs ys" and "id_prefix eid ys xs"
  shows "map eid xs = map eid ys"
proof -
  have "length xs = length ys"
    using assms by (simp add: id_prefix_def)
  moreover have "map eid xs = take (length xs) (map eid ys)"
    using assms(1) by (simp only: id_prefix_map)
  ultimately show ?thesis by simp
qed

lemma id_prefix_trans:
  assumes "id_prefix eid xs ys" and "id_prefix eid ys zs"
  shows "id_prefix eid xs zs"
proof -
  have "length xs \<le> length ys"
    using assms(1) by (simp add: id_prefix_def)
  moreover have "map eid xs = take (length xs) (map eid ys)" "map eid ys = take (length ys) (map eid zs)"
    using assms by (simp_all only: id_prefix_map)
  ultimately have "map eid xs = take (length xs) (map eid zs)"
    by (simp add: min_absorb1)
  then show ?thesis by (simp only: id_prefix_map)
qed

section \<open>History files\<close>

text \<open>Reading a history: decode each line, skip blank lines, parse the others, stop at the first
  error.\<close>

fun parse_lines :: "(bytes \<Rightarrow> 'e option) \<Rightarrow> bytes list \<Rightarrow> 'e list result" where
  "parse_lines de [] = Inr []"
| "parse_lines de (l # ls) =
    bindR (from_utf8 l) (\<lambda>line.
      if blank_string line then parse_lines de ls
      else bindR (from_option (Decode NotJson) (de l)) (\<lambda>e.
           bindR (parse_lines de ls) (\<lambda>es. Inr (e # es))))"

definition write_lines :: "('e \<Rightarrow> bytes) \<Rightarrow> 'e list \<Rightarrow> bytes" where
  "write_lines ser es = ndjson (map ser es)"

locale event_file =
  fixes ok :: "'l \<Rightarrow> bool"
    and ser :: "'l \<Rightarrow> 'e \<Rightarrow> bytes"
    and de :: "'l \<Rightarrow> bytes \<Rightarrow> 'e option"
  assumes de_ser: "ok L \<Longrightarrow> de L (ser L e) = Some e"
    and ser_record: "ok L \<Longrightarrow> record_ok (ser L e)"
    and ser_utf8: "ok L \<Longrightarrow> utf8_valid (ser L e)"
    and ser_not_blank: "ok L \<Longrightarrow> \<not> blank (ser L e)"
begin

lemma parse_map_ser: "ok L \<Longrightarrow> parse_lines (de L) (map (ser L) es) = Inr es"
  by (induction es) (simp_all add: from_utf8_ok ser_utf8 blank_string_def ser_not_blank de_ser)

lemma lines_written: "ok L \<Longrightarrow> byte_lines (write_lines (ser L) es) = map (ser L) es"
  unfolding write_lines_def by (rule byte_lines_ndjson) (auto simp: ser_record)

lemma parse_written: "ok L \<Longrightarrow> parse_lines (de L) (byte_lines (write_lines (ser L) es)) = Inr es"
  by (simp add: lines_written parse_map_ser)

lemma ser_inj: "ok L \<Longrightarrow> ser L a = ser L b \<longleftrightarrow> a = b"
  by (metis de_ser option.inject)

end

lemma write_lines_append: "write_lines ser (xs @ ys) = write_lines ser xs @ write_lines ser ys"
  by (simp add: write_lines_def)

text \<open>Appending records to a file that already ends with a newline (or is empty) adds exactly those
  records to what is read.\<close>

definition complete_file :: "bytes \<Rightarrow> bool" where
  "complete_file bs \<longleftrightarrow> bs = [] \<or> last bs = 10"

lemma complete_ndjson: "complete_file (ndjson rs)"
  by (cases rs rule: rev_cases) (simp_all add: complete_file_def)

lemma read_line_complete:
  assumes "complete_file bs" and "bs \<noteq> []" and "read_line bs = (l, r)"
  shows "l \<noteq> [] \<and> last l = 10 \<and> complete_file r"
  using assms
proof (induction bs arbitrary: l r)
  case Nil
  then show ?case by simp
next
  case (Cons b bs)
  show ?case
  proof (cases "b = 10")
    case True
    with Cons.prems show ?thesis by (auto simp: complete_file_def split: if_splits)
  next
    case False
    with Cons.prems(1) have bs: "bs \<noteq> []" "complete_file bs"
      by (auto simp: complete_file_def split: if_splits)
    obtain l' r' where lr: "read_line bs = (l', r')" by (cases "read_line bs")
    with Cons.prems False have "l = b # l'" "r = r'" by auto
    with Cons.IH [OF bs(2,1) lr] show ?thesis by simp
  qed
qed

lemma byte_lines_append:
  "complete_file bs \<Longrightarrow> byte_lines (bs @ cs) = byte_lines bs @ byte_lines cs"
proof (induction "length bs" arbitrary: bs rule: less_induct)
  case less
  show ?case
  proof (cases "bs = []")
    case True
    then show ?thesis by simp
  next
    case False
    obtain l r where lr: "read_line bs = (l, r)" by (cases "read_line bs")
    have l: "l \<noteq> []" "last l = 10" "complete_file r"
      using read_line_complete [OF less.prems False lr] by auto
    have "length r < length bs"
      using read_line_shorter [OF False] lr by simp
    then have "byte_lines (r @ cs) = byte_lines r @ byte_lines cs"
      using less.hyps l(3) by blast
    moreover have "read_line (bs @ cs) = (l, r @ cs)"
      using read_line_append [OF lr l(1,2)] .
    ultimately show ?thesis
      using False lr by (simp add: byte_lines.simps [of "bs @ cs"] byte_lines.simps [of bs])
  qed
qed

lemma parse_lines_append:
  "parse_lines de (xs @ ys) =
    bindR (parse_lines de xs) (\<lambda>es. bindR (parse_lines de ys) (\<lambda>fs. Inr (es @ fs)))"
proof (induction xs)
  case Nil
  show ?case by (cases "parse_lines de ys") simp_all
next
  case (Cons x xs)
  show ?case
    by (cases "from_utf8 x"; cases "de x"; cases "parse_lines de xs"; cases "parse_lines de ys")
       (auto simp: Cons)
qed

end
