(* ===== verification/Proto.thy ===== *)
theory Proto
  imports Channel_Names
begin

text \<open>
  Identities, messages and signed envelopes: \<open>src/proto.rs\<close>. Third-party code is a record of
  functions, \<open>crypto_lib\<close> (the crates \<open>hex\<close>, \<open>base64\<close>, \<open>blake3\<close>, \<open>ed25519-dalek\<close>) extended by
  \<open>proto_lib\<close> (the serde_json encodings of \<open>Message\<close>, \<open>Envelope\<close> and \<open>KeypairFile\<close>); what the program relies on is
  stated as the predicates \<open>hex_ok\<close>, \<open>b64_ok\<close>, \<open>hash_ok\<close> and \<open>ed25519_ok\<close>. Shown: signing and
  verification round-trip, verification accepts exactly the envelopes whose time stamp, signature
  and content id agree with the message, and the signed bytes determine channel and message.
\<close>

section \<open>Third-party functions\<close>

record crypto_lib =
  hex_encode :: "bytes \<Rightarrow> string"
  hex_decode :: "string \<Rightarrow> bytes option"
  b64_encode :: "bytes \<Rightarrow> string"
  b64_decode :: "string \<Rightarrow> bytes option"
  blake3 :: "bytes \<Rightarrow> bytes"
  ed_keypair_bytes :: "bytes \<Rightarrow> bytes" \<comment> \<open>\<open>to_keypair_bytes\<close> of a signing key\<close>
  ed_from_keypair :: "bytes \<Rightarrow> bytes option" \<comment> \<open>\<open>from_keypair_bytes\<close>; the signing key's seed\<close>
  ed_public :: "bytes \<Rightarrow> bytes" \<comment> \<open>\<open>verifying_key\<close> of a signing key\<close>
  ed_sign :: "bytes \<Rightarrow> bytes \<Rightarrow> bytes"
  ed_key_ok :: "bytes \<Rightarrow> bool" \<comment> \<open>\<open>VerifyingKey::from_bytes\<close> succeeds\<close>
  ed_verify :: "bytes \<Rightarrow> bytes \<Rightarrow> bytes \<Rightarrow> bool" \<comment> \<open>key, message, signature\<close>

definition hex_ok :: "'x crypto_lib_scheme \<Rightarrow> bool" where
  "hex_ok L \<longleftrightarrow> (\<forall>bs. hex_decode L (hex_encode L bs) = Some bs)"

definition b64_ok :: "'x crypto_lib_scheme \<Rightarrow> bool" where
  "b64_ok L \<longleftrightarrow> (\<forall>bs. b64_decode L (b64_encode L bs) = Some bs)"

definition hash_ok :: "'x crypto_lib_scheme \<Rightarrow> bool" where
  "hash_ok L \<longleftrightarrow> (\<forall>bs. length (blake3 L bs) = 32)"

definition ed25519_ok :: "'x crypto_lib_scheme \<Rightarrow> bool" where
  "ed25519_ok L \<longleftrightarrow>
    (\<forall>sk. length sk = 32 \<longrightarrow>
       length (ed_public L sk) = 32 \<and> ed_key_ok L (ed_public L sk)
       \<and> length (ed_keypair_bytes L sk) = 64
       \<and> ed_from_keypair L (ed_keypair_bytes L sk) = Some sk
       \<and> (\<forall>m. length (ed_sign L sk m) = 64 \<and> ed_verify L (ed_public L sk) m (ed_sign L sk m)))"

definition crypto_ok :: "'x crypto_lib_scheme \<Rightarrow> bool" where
  "crypto_ok L \<longleftrightarrow> hex_ok L \<and> b64_ok L \<and> hash_ok L \<and> ed25519_ok L"

section \<open>Data\<close>

record keypair =
  key_alias :: "string option"
  public_key :: string
  secret_key :: string

datatype msg_type = Post | Reply | Vote | Mod

datatype body =
    Text string
  | Encrypted string string string \<comment> \<open>key id, nonce, ciphertext\<close>

record message =
  msg_ts :: i64
  msg_kind :: msg_type
  msg_title :: "string option"
  msg_tags :: "string list"
  msg_refs :: "string list"
  msg_body :: body

record envelope =
  env_id :: string
  env_channel :: string
  env_from :: string
  env_from_alias :: "string option"
  env_ts :: i64
  env_sig :: string
  env_msg :: message

record proto_lib = crypto_lib +
  message_json :: "message \<Rightarrow> bytes"
  envelope_json :: "envelope \<Rightarrow> bytes"
  envelope_of_json :: "bytes \<Rightarrow> envelope option"
  keypair_json :: "keypair \<Rightarrow> bytes"
  keypair_of_json :: "bytes \<Rightarrow> keypair option"

section \<open>Keys\<close>

text \<open>\<open>hex::decode(s)?.try_into()\<close> into an array of \<open>n\<close> bytes.\<close>

definition hex_array :: "'x crypto_lib_scheme \<Rightarrow> nat \<Rightarrow> string \<Rightarrow> bytes result" where
  "hex_array L n s =
    bindR (from_option (Decode NotHex) (hex_decode L s)) (\<lambda>bs.
      if length bs = n then Inr bs else Inl (Decode WrongLength))"

definition generate :: "'x crypto_lib_scheme \<Rightarrow> bytes \<Rightarrow> string option \<Rightarrow> keypair" where
  "generate L sk a =
    \<lparr>key_alias = a,
     public_key = hex_encode L (ed_public L sk),
     secret_key = b64_encode L (ed_keypair_bytes L sk)\<rparr>"

definition signing_key :: "'x crypto_lib_scheme \<Rightarrow> keypair \<Rightarrow> bytes result" where
  "signing_key L kf =
    bindR (from_option (Decode NotBase64) (b64_decode L (secret_key kf))) (\<lambda>bs.
      if length bs = 64 then from_option (Crypt BadSecretKey) (ed_from_keypair L bs)
      else Inl (Decode WrongLength))"

definition sign_bytes :: "'x crypto_lib_scheme \<Rightarrow> keypair \<Rightarrow> bytes \<Rightarrow> string result" where
  "sign_bytes L kf payload =
    bindR (signing_key L kf) (\<lambda>sk. Inr (hex_encode L (ed_sign L sk payload)))"

definition verifying_key :: "'x crypto_lib_scheme \<Rightarrow> keypair \<Rightarrow> bytes result" where
  "verifying_key L kf =
    bindR (hex_array L 32 (public_key kf)) (\<lambda>pk.
      if ed_key_ok L pk then Inr pk else Inl (Crypt BadPublicKey))"

definition verify_bytes :: "'x crypto_lib_scheme \<Rightarrow> string \<Rightarrow> string \<Rightarrow> bytes \<Rightarrow> unit result" where
  "verify_bytes L pk sig payload =
    bindR (hex_array L 32 pk) (\<lambda>pk_bytes.
    bindR (hex_array L 64 sig) (\<lambda>sig_bytes.
      if \<not> ed_key_ok L pk_bytes then Inl (Crypt BadPublicKey)
      else guardR (ed_verify L pk_bytes payload sig_bytes) (Crypt SignatureFailed)))"

section \<open>Envelopes\<close>

definition new_text :: "i64 \<Rightarrow> string option \<Rightarrow> string list \<Rightarrow> string \<Rightarrow> string list \<Rightarrow> message" where
  "new_text now title tags text refs =
    \<lparr>msg_ts = now, msg_kind = Post, msg_title = title, msg_tags = tags, msg_refs = refs,
     msg_body = Text text\<rparr>"

definition signed_payload :: "string \<Rightarrow> bytes \<Rightarrow> bytes" where
  "signed_payload channel msg_bytes = as_bytes channel @ [10] @ msg_bytes"

definition content_id :: "'x crypto_lib_scheme \<Rightarrow> bytes \<Rightarrow> string" where
  "content_id L bs = hex_encode L (blake3 L bs)"

definition sign :: "'x proto_lib_scheme \<Rightarrow> keypair \<Rightarrow> string \<Rightarrow> message \<Rightarrow> envelope result" where
  "sign L kf channel msg =
    (let msg_bytes = message_json L msg in
     bindR (signing_key L kf) (\<lambda>sk.
       Inr \<lparr>env_id = content_id L msg_bytes,
            env_channel = channel,
            env_from = public_key kf,
            env_from_alias = key_alias kf,
            env_ts = msg_ts msg,
            env_sig = hex_encode L (ed_sign L sk (signed_payload channel msg_bytes)),
            env_msg = msg\<rparr>))"

definition verify :: "'x proto_lib_scheme \<Rightarrow> envelope \<Rightarrow> unit result" where
  "verify L e =
    (if env_ts e \<noteq> msg_ts (env_msg e) then Inl (Crypt TimestampMismatch)
     else let msg_bytes = message_json L (env_msg e) in
     bindR (hex_array L 32 (env_from e)) (\<lambda>pk.
       if \<not> ed_key_ok L pk then Inl (Crypt BadPublicKey)
       else bindR (hex_array L 64 (env_sig e)) (\<lambda>sig.
         if \<not> ed_verify L pk (signed_payload (env_channel e) msg_bytes) sig
         then Inl (Crypt SignatureFailed)
         else if env_id e \<noteq> content_id L msg_bytes then Inl (Crypt IdMismatch)
         else Inr ())))"

definition body_text :: "envelope \<Rightarrow> string option" where
  "body_text e = (case msg_body (env_msg e) of Text t \<Rightarrow> Some t | Encrypted k n c \<Rightarrow> None)"

section \<open>Lemmas\<close>

lemma hex_array_ok [ok_elims]:
  "hex_array L n s = Inr bs \<longleftrightarrow> hex_decode L s = Some bs \<and> length bs = n"
  by (auto simp: hex_array_def bindR_ok from_option_ok split: if_splits)

lemma hex_array_encode: "hex_ok L \<Longrightarrow> length bs = n \<Longrightarrow> hex_array L n (hex_encode L bs) = Inr bs"
  by (simp add: hex_array_ok hex_ok_def)

lemma hex_encode_inj: "hex_ok L \<Longrightarrow> hex_encode L a = hex_encode L b \<longleftrightarrow> a = b"
  by (metis hex_ok_def option.inject)

lemma content_id_array: "hex_ok L \<Longrightarrow> hash_ok L \<Longrightarrow> hex_array L 32 (content_id L m) = Inr (blake3 L m)"
  by (simp add: content_id_def hex_array_encode hash_ok_def)

lemma generate_signing_key:
  "b64_ok L \<Longrightarrow> ed25519_ok L \<Longrightarrow> length sk = 32 \<Longrightarrow> signing_key L (generate L sk a) = Inr sk"
  by (simp add: signing_key_def generate_def b64_ok_def ed25519_ok_def)

lemma verify_bytes_ok:
  "verify_bytes L pk sig payload = Inr () \<longleftrightarrow>
    (\<exists>p s. hex_decode L pk = Some p \<and> length p = 32 \<and> hex_decode L sig = Some s \<and> length s = 64
      \<and> ed_key_ok L p \<and> ed_verify L p payload s)"
  by (auto simp: verify_bytes_def bindR_ok hex_array_ok guardR_ok split: if_splits)

lemma verify_ok:
  "verify L e = Inr () \<longleftrightarrow>
    env_ts e = msg_ts (env_msg e)
    \<and> verify_bytes L (env_from e) (env_sig e)
        (signed_payload (env_channel e) (message_json L (env_msg e))) = Inr ()
    \<and> env_id e = content_id L (message_json L (env_msg e))"
  unfolding verify_bytes_ok
  by (auto simp: verify_def Let_def bindR_ok hex_array_ok split: if_splits)

section \<open>Properties\<close>

lemma sign_verifies:
  assumes "crypto_ok L" and "length sk = 32"
  shows "\<exists>e. sign L (generate L sk a) channel msg = Inr e \<and> verify L e = Inr ()
    \<and> env_msg e = msg \<and> env_channel e = channel \<and> env_from e = hex_encode L (ed_public L sk)"
proof -
  have ok: "hex_ok L" "b64_ok L" "hash_ok L" "ed25519_ok L"
    using assms(1) by (simp_all add: crypto_ok_def)
  have key: "signing_key L (generate L sk a) = Inr sk"
    using ok assms(2) by (simp add: generate_signing_key)
  have "verify_bytes L (hex_encode L (ed_public L sk)) (hex_encode L (ed_sign L sk p)) p = Inr ()" for p
    using ok assms(2) by (auto simp: verify_bytes_ok hex_ok_def ed25519_ok_def)
  then show ?thesis
    using key by (auto simp: sign_def Let_def verify_ok generate_def)
qed

lemma sign_bytes_verifies:
  assumes "crypto_ok L" and "length sk = 32"
  shows "\<exists>sig. sign_bytes L (generate L sk a) m = Inr sig
    \<and> verify_bytes L (public_key (generate L sk a)) sig m = Inr ()
    \<and> (\<exists>bs. sig = hex_encode L bs)"
proof -
  have "sign_bytes L (generate L sk a) m = Inr (hex_encode L (ed_sign L sk m))"
    using assms by (simp add: sign_bytes_def generate_signing_key crypto_ok_def)
  moreover have "verify_bytes L (public_key (generate L sk a)) (hex_encode L (ed_sign L sk m)) m = Inr ()"
    using assms by (auto simp: verify_bytes_ok generate_def crypto_ok_def hex_ok_def ed25519_ok_def)
  ultimately show ?thesis by blast
qed

text \<open>C34. Every envelope signed with a generated identity verifies, for any channel and message, and
  carries the message unchanged under the identity's public key.\<close>

theorem sign_verify_roundtrip:
  assumes "crypto_ok L" and "length sk = 32"
  shows "\<exists>e. sign L (generate L sk a) channel msg = Inr e \<and> verify L e = Inr ()
    \<and> env_msg e = msg \<and> env_channel e = channel \<and> env_from e = hex_encode L (ed_public L sk)"
  by (rule sign_verifies [OF assms])

text \<open>\<open>verify\<close> accepts an envelope exactly when the outer time stamp equals the signed one, the
  signature over channel and message checks under the claimed author's key, and the id is the content
  hash of the message.\<close>

theorem verify_exact:
  "is_ok (verify L e) \<longleftrightarrow>
    env_ts e = msg_ts (env_msg e)
    \<and> is_ok (verify_bytes L (env_from e) (env_sig e)
        (signed_payload (env_channel e) (message_json L (env_msg e))))
    \<and> env_id e = content_id L (message_json L (env_msg e))"
  using verify_ok [of L e] by (auto simp: is_ok_iff)

lemma signed_payload_split:
  assumes "10 \<notin> set xs" and "10 \<notin> set ys" and "xs @ (10 :: byte) # m = ys @ 10 # n"
  shows "xs = ys \<and> m = n"
proof -
  have "fst (read_line (xs @ 10 # m)) = fst (read_line (ys @ 10 # n))"
    using assms(3) by simp
  then have "xs = ys"
    using assms(1,2) by (simp add: read_line_record)
  with assms(3) show ?thesis by simp
qed

text \<open>A signature cannot be carried from one channel or message to another: for valid channel
  names the signed bytes determine both.\<close>

theorem signed_payload_binds:
  assumes "valid_channel c" and "valid_channel d" and "signed_payload c m = signed_payload d n"
  shows "c = d \<and> m = n"
  using signed_payload_split [of "as_bytes c" "as_bytes d" m n] assms
  by (simp add: signed_payload_def newline_in_as_bytes valid_channel_no_newline)

end
