(* ===== verification/Keyring.thy ===== *)
theory Keyring
  imports Proto Node_Files
begin

text \<open>
  Channel keys and private messages: \<open>src/crypto.rs\<close>. A channel's keyring is the file
  \<open>channel-keys.json\<close>; its last key encrypts, all its keys decrypt. Key offers wrap every key for one
  other identity. The crates \<open>chacha20poly1305\<close>, \<open>sha2\<close>, \<open>curve25519-dalek\<close> and \<open>x25519-dalek\<close> and the
  JSON encodings are fields of \<open>key_lib\<close>, random bytes are arguments. Shown: what is encrypted
  decrypts to the same text; key generation and key acceptance keep the keyring well formed (one
  key per id, every id the hash of its key) and never lose a key; an offer made by one member
  is accepted by the other.
\<close>

unbundle bit_operations_syntax

section \<open>Data\<close>

record channel_key =
  ck_id :: string
  ck_key :: string

record key_offer =
  ko_channel :: string
  ko_key_id :: string
  ko_sender :: string
  ko_recipient :: string
  ko_nonce :: string
  ko_ciphertext :: string
  ko_sig :: string

record key_offer_payload =
  kp_channel :: string
  kp_key_id :: string
  kp_sender :: string
  kp_recipient :: string
  kp_nonce :: string
  kp_ciphertext :: string

record key_lib = proto_lib +
  keyring_json :: "channel_key list \<Rightarrow> bytes"
  keyring_of_json :: "bytes \<Rightarrow> channel_key list option"
  offer_payload_json :: "key_offer_payload \<Rightarrow> bytes"
  aead_seal :: "bytes \<Rightarrow> bytes \<Rightarrow> bytes \<Rightarrow> bytes \<Rightarrow> bytes option" \<comment> \<open>key, nonce, associated data, text\<close>
  aead_open :: "bytes \<Rightarrow> bytes \<Rightarrow> bytes \<Rightarrow> bytes \<Rightarrow> bytes option"
  sha512 :: "bytes \<Rightarrow> bytes"
  x25519 :: "bytes \<Rightarrow> bytes \<Rightarrow> bytes" \<comment> \<open>secret scalar, public point\<close>
  contributory :: "bytes \<Rightarrow> bool"
  ed_to_montgomery :: "bytes \<Rightarrow> bytes option"

section \<open>The keyring file\<close>

definition keyring_path :: "string \<Rightarrow> string \<Rightarrow> string" where
  "keyring_path base channel = channel_file base channel ''channel-keys.json''"

definition lock_keyring :: "string \<Rightarrow> string \<Rightarrow> node_fs \<Rightarrow> unit result" where
  "lock_keyring base channel s =
    guardR (dir_exists (channel_to_path base channel) s)
      (Io (NoDirectory (channel_to_path base channel)))"

definition load_keys :: "'x key_lib_scheme \<Rightarrow> string \<Rightarrow> string \<Rightarrow> node_fs \<Rightarrow> channel_key list result" where
  "load_keys L base channel s =
    (let path = keyring_path base channel in
     if \<not> file_exists path s then Inr []
     else bindR (read_file path s) (\<lambda>bs. from_option (Decode NotJson) (keyring_of_json L bs)))"

definition save_keys :: "'x key_lib_scheme \<Rightarrow> string \<Rightarrow> string \<Rightarrow> channel_key list \<Rightarrow> unit io" where
  "save_keys L base channel keys =
    replace_file (channel_to_path base channel) (keyring_path base channel) (keyring_json L keys)"

definition generate_channel_key ::
  "'x key_lib_scheme \<Rightarrow> bytes \<Rightarrow> string \<Rightarrow> string \<Rightarrow> channel_key io" where
  "generate_channel_key L raw base channel =
    bindS (readS (lock_keyring base channel)) (\<lambda>_.
    let key = \<lparr>ck_id = content_id L raw, ck_key = b64_encode L raw\<rparr> in
    bindS (readS (load_keys L base channel)) (\<lambda>keys.
    bindS (save_keys L base channel (filter (\<lambda>k. ck_id k \<noteq> ck_id key) keys @ [key])) (\<lambda>_.
    okS key)))"

definition current_channel_key ::
  "'x key_lib_scheme \<Rightarrow> string \<Rightarrow> string \<Rightarrow> node_fs \<Rightarrow> channel_key result" where
  "current_channel_key L base channel s =
    bindR (load_keys L base channel s) (\<lambda>keys.
      if keys = [] then Inl (Key NoChannelKey) else Inr (last keys))"

definition decode_key :: "'x key_lib_scheme \<Rightarrow> channel_key \<Rightarrow> bytes result" where
  "decode_key L key =
    bindR (from_option (Decode NotBase64) (b64_decode L (ck_key key))) (\<lambda>raw.
      if length raw = 32 then Inr raw else Inl (Decode WrongLength))"

section \<open>Messages\<close>

definition message_aad :: "string \<Rightarrow> string \<Rightarrow> bytes" where
  "message_aad channel key_id =
    as_bytes (''embernet-message-v1'' @ [CHR 10] @ channel @ [CHR 10] @ key_id)"

definition encrypt_message ::
  "'x key_lib_scheme \<Rightarrow> bytes \<Rightarrow> string \<Rightarrow> string \<Rightarrow> message \<Rightarrow> node_fs \<Rightarrow> message result" where
  "encrypt_message L nonce base channel message s =
    bindR (current_channel_key L base channel s) (\<lambda>key.
    bindR (decode_key L key) (\<lambda>raw_key.
    bindR (case msg_body message of
             Text text \<Rightarrow> Inr (as_bytes text)
           | Encrypted _ _ _ \<Rightarrow> Inl (Key AlreadyEncrypted)) (\<lambda>plaintext.
    bindR (from_option (Key AeadFailed)
             (aead_seal L raw_key nonce (message_aad channel (ck_id key)) plaintext)) (\<lambda>ciphertext.
    Inr (message\<lparr>msg_body :=
      Encrypted (ck_id key) (b64_encode L nonce) (b64_encode L ciphertext)\<rparr>)))))"

definition decrypt_envelope ::
  "'x key_lib_scheme \<Rightarrow> string \<Rightarrow> envelope \<Rightarrow> node_fs \<Rightarrow> envelope result" where
  "decrypt_envelope L base e s =
    (case msg_body (env_msg e) of
       Text _ \<Rightarrow> Inr e
     | Encrypted key_id nonce ciphertext \<Rightarrow>
       bindR (load_keys L base (env_channel e) s) (\<lambda>keys.
       bindR (from_option (Key MissingChannelKey) (List.find (\<lambda>k. ck_id k = key_id) keys)) (\<lambda>key.
       bindR (decode_key L key) (\<lambda>raw_key.
       bindR (from_option (Decode NotBase64) (b64_decode L nonce)) (\<lambda>nonce_bytes.
       bindR (guardR (length nonce_bytes = 24) (Decode WrongLength)) (\<lambda>_.
       bindR (from_option (Decode NotBase64) (b64_decode L ciphertext)) (\<lambda>ct.
       bindR (from_option (Key AeadFailed)
                (aead_open L raw_key nonce_bytes (message_aad (env_channel e) key_id) ct)) (\<lambda>plaintext.
       bindR (from_utf8 plaintext) (\<lambda>text.
       Inr (e\<lparr>env_msg := (env_msg e)\<lparr>msg_body := Text text\<rparr>\<rparr>))))))))))"

section \<open>Key offers\<close>

definition clamp_scalar :: "bytes \<Rightarrow> bytes" where
  "clamp_scalar digest =
    (let scalar = take 32 digest;
         scalar = scalar[0 := (scalar ! 0) AND 248];
         scalar = scalar[31 := (scalar ! 31) AND 127];
         scalar = scalar[31 := (scalar ! 31) OR 64]
     in scalar)"

definition x25519_secret :: "'x key_lib_scheme \<Rightarrow> keypair \<Rightarrow> bytes result" where
  "x25519_secret L identity =
    bindR (signing_key L identity) (\<lambda>seed. Inr (clamp_scalar (sha512 L seed)))"

definition x25519_public :: "'x key_lib_scheme \<Rightarrow> string \<Rightarrow> bytes result" where
  "x25519_public L ed25519_public =
    bindR (hex_array L 32 ed25519_public) (\<lambda>bs.
      from_option (Crypt BadPublicKey) (ed_to_montgomery L bs))"

definition offer_wrap_key ::
  "'x key_lib_scheme \<Rightarrow> keypair \<Rightarrow> string \<Rightarrow> string \<Rightarrow> string \<Rightarrow> bytes result" where
  "offer_wrap_key L identity other channel key_id =
    bindR (x25519_secret L identity) (\<lambda>secret.
    bindR (x25519_public L other) (\<lambda>public.
    let shared = x25519 L secret public in
    if \<not> contributory L shared then Inl (Key NonContributory)
    else Inr (blake3 L (as_bytes (''embernet-key-wrap-v1'' @ [CHR 10]) @ shared
                @ as_bytes channel @ [10] @ as_bytes key_id))))"

definition offer_aad :: "string \<Rightarrow> string \<Rightarrow> string \<Rightarrow> string \<Rightarrow> bytes" where
  "offer_aad channel key_id sender recipient =
    as_bytes (''embernet-key-offer-v1'' @ [CHR 10] @ channel @ [CHR 10] @ key_id
      @ [CHR 10] @ sender @ [CHR 10] @ recipient)"

definition offer_domain :: bytes where
  "offer_domain = as_bytes (''embernet-key-offer-signature-v1'' @ [CHR 10])"

definition make_key_offer ::
  "'x key_lib_scheme \<Rightarrow> bytes \<Rightarrow> string \<Rightarrow> keypair \<Rightarrow> string \<Rightarrow> channel_key \<Rightarrow> key_offer result" where
  "make_key_offer L nonce channel sender recipient key =
    bindR (decode_key L key) (\<lambda>raw.
    bindR (offer_wrap_key L sender recipient channel (ck_id key)) (\<lambda>wrap_key.
    bindR (from_option (Key AeadFailed)
             (aead_seal L wrap_key nonce
                (offer_aad channel (ck_id key) (public_key sender) recipient) raw)) (\<lambda>ciphertext.
    let nonce' = b64_encode L nonce; ciphertext' = b64_encode L ciphertext;
        payload = \<lparr>kp_channel = channel, kp_key_id = ck_id key, kp_sender = public_key sender,
                   kp_recipient = recipient, kp_nonce = nonce', kp_ciphertext = ciphertext'\<rparr> in
    bindR (sign_bytes L sender (offer_domain @ offer_payload_json L payload)) (\<lambda>sig.
    Inr \<lparr>ko_channel = channel, ko_key_id = ck_id key, ko_sender = public_key sender,
         ko_recipient = recipient, ko_nonce = nonce', ko_ciphertext = ciphertext',
         ko_sig = sig\<rparr>))))"

text \<open>The i-th key is wrapped with the i-th nonce drawn.\<close>

fun make_key_offers_from ::
  "'x key_lib_scheme \<Rightarrow> (nat \<Rightarrow> bytes) \<Rightarrow> nat \<Rightarrow> string \<Rightarrow> keypair \<Rightarrow> string \<Rightarrow> channel_key list
    \<Rightarrow> key_offer list result" where
  "make_key_offers_from L nonces i channel sender recipient [] = Inr []"
| "make_key_offers_from L nonces i channel sender recipient (key # keys) =
    bindR (make_key_offer L (nonces i) channel sender recipient key) (\<lambda>offer.
    bindR (make_key_offers_from L nonces (Suc i) channel sender recipient keys) (\<lambda>offers.
    Inr (offer # offers)))"

definition make_key_offers ::
  "'x key_lib_scheme \<Rightarrow> (nat \<Rightarrow> bytes) \<Rightarrow> string \<Rightarrow> string \<Rightarrow> keypair \<Rightarrow> string \<Rightarrow> node_fs
    \<Rightarrow> key_offer list result" where
  "make_key_offers L nonces base channel sender recipient s =
    bindR (load_keys L base channel s) (make_key_offers_from L nonces 0 channel sender recipient)"

text \<open>The checks on one offer, and the raw key it carries.\<close>

definition open_key_offer ::
  "'x key_lib_scheme \<Rightarrow> string \<Rightarrow> keypair \<Rightarrow> key_offer \<Rightarrow> bytes result" where
  "open_key_offer L channel recipient offer =
    (if ko_channel offer \<noteq> channel \<or> ko_recipient offer \<noteq> public_key recipient
     then Inl (Key WrongOffer)
     else
       let payload = \<lparr>kp_channel = ko_channel offer, kp_key_id = ko_key_id offer,
                      kp_sender = ko_sender offer, kp_recipient = ko_recipient offer,
                      kp_nonce = ko_nonce offer, kp_ciphertext = ko_ciphertext offer\<rparr> in
       bindR (verify_bytes L (ko_sender offer) (ko_sig offer)
                (offer_domain @ offer_payload_json L payload)) (\<lambda>_.
       bindR (offer_wrap_key L recipient (ko_sender offer) channel (ko_key_id offer)) (\<lambda>wrap_key.
       bindR (from_option (Decode NotBase64) (b64_decode L (ko_nonce offer))) (\<lambda>nonce.
       bindR (guardR (length nonce = 24) (Decode WrongLength)) (\<lambda>_.
       bindR (from_option (Decode NotBase64) (b64_decode L (ko_ciphertext offer))) (\<lambda>ciphertext.
       bindR (from_option (Key AeadFailed)
                (aead_open L wrap_key nonce
                   (offer_aad channel (ko_key_id offer) (ko_sender offer) (ko_recipient offer))
                   ciphertext)) (\<lambda>raw.
       if length raw \<noteq> 32 then Inl (Decode WrongLength)
       else if content_id L raw \<noteq> ko_key_id offer then Inl (Key KeyIdMismatch)
       else Inr raw)))))))"

fun accept_offers ::
  "'x key_lib_scheme \<Rightarrow> string \<Rightarrow> keypair \<Rightarrow> key_offer list \<Rightarrow> channel_key list \<times> nat
    \<Rightarrow> (channel_key list \<times> nat) result" where
  "accept_offers L channel recipient [] (keys, accepted) = Inr (keys, accepted)"
| "accept_offers L channel recipient (offer # offers) (keys, accepted) =
    bindR (open_key_offer L channel recipient offer) (\<lambda>raw.
      accept_offers L channel recipient offers
        (if \<not> list_ex (\<lambda>k. ck_id k = ko_key_id offer) keys
         then (keys @ [\<lparr>ck_id = ko_key_id offer, ck_key = b64_encode L raw\<rparr>], Suc accepted)
         else (keys, accepted)))"

definition accept_key_offers ::
  "'x key_lib_scheme \<Rightarrow> string \<Rightarrow> string \<Rightarrow> keypair \<Rightarrow> key_offer list \<Rightarrow> nat io" where
  "accept_key_offers L base channel recipient offers =
    bindS (readS (lock_keyring base channel)) (\<lambda>_.
    bindS (readS (load_keys L base channel)) (\<lambda>keys.
    bindS (liftS (accept_offers L channel recipient offers (keys, 0))) (\<lambda>(keys', accepted).
    if accepted > 0 then bindS (save_keys L base channel keys') (\<lambda>_. okS accepted)
    else okS accepted)))"

section \<open>What the program relies on\<close>

definition keyring_json_ok :: "'x key_lib_scheme \<Rightarrow> bool" where
  "keyring_json_ok L \<longleftrightarrow> (\<forall>ks. keyring_of_json L (keyring_json L ks) = Some ks)"

definition aead_ok :: "'x key_lib_scheme \<Rightarrow> bool" where
  "aead_ok L \<longleftrightarrow>
    (\<forall>k n a m. length k = 32 \<and> length n = 24 \<longrightarrow>
      (\<exists>c. aead_seal L k n a m = Some c \<and> aead_open L k n a c = Some m))"

text \<open>Diffie-Hellman on the converted keys agrees for any two generated identities.\<close>

definition dh_ok :: "'x key_lib_scheme \<Rightarrow> bool" where
  "dh_ok L \<longleftrightarrow>
    (\<forall>a b. length a = 32 \<and> length b = 32 \<longrightarrow>
      (\<exists>ua ub. ed_to_montgomery L (ed_public L a) = Some ua
        \<and> ed_to_montgomery L (ed_public L b) = Some ub
        \<and> x25519 L (clamp_scalar (sha512 L a)) ub = x25519 L (clamp_scalar (sha512 L b)) ua
        \<and> contributory L (x25519 L (clamp_scalar (sha512 L a)) ub)))"

text \<open>A well-formed keyring: one key per id, every id the hash of the key it names.\<close>

definition key_ok :: "'x key_lib_scheme \<Rightarrow> channel_key \<Rightarrow> bool" where
  "key_ok L k \<longleftrightarrow> (case decode_key L k of Inl e \<Rightarrow> False | Inr raw \<Rightarrow> ck_id k = content_id L raw)"

definition keyring_wf :: "'x key_lib_scheme \<Rightarrow> channel_key list \<Rightarrow> bool" where
  "keyring_wf L ks \<longleftrightarrow> distinct (map ck_id ks) \<and> list_all (key_ok L) ks"

section \<open>Keyring lemmas\<close>

lemma decode_key_encode:
  "b64_ok L \<Longrightarrow> length raw = 32 \<Longrightarrow> decode_key L \<lparr>ck_id = i, ck_key = b64_encode L raw\<rparr> = Inr raw"
  by (simp add: decode_key_def b64_ok_def)

lemma decode_key_length: "decode_key L k = Inr raw \<Longrightarrow> length raw = 32"
  by (auto simp: decode_key_def bindR_ok split: if_splits)

lemma key_ok_new:
  "b64_ok L \<Longrightarrow> length raw = 32 \<Longrightarrow> key_ok L \<lparr>ck_id = content_id L raw, ck_key = b64_encode L raw\<rparr>"
  by (simp add: key_ok_def decode_key_encode)

lemma keyring_wf_decode:
  assumes "keyring_wf L ks" and "k \<in> set ks"
  obtains raw where "decode_key L k = Inr raw" "length raw = 32" "ck_id k = content_id L raw"
proof -
  have "key_ok L k"
    using assms by (auto simp: keyring_wf_def list_all_iff)
  then show ?thesis
    using decode_key_length [of L k] that by (cases "decode_key L k") (auto simp: key_ok_def)
qed

lemma keyring_find:
  assumes "keyring_wf L ks" and "k \<in> set ks"
  shows "List.find (\<lambda>x. ck_id x = ck_id k) ks = Some k"
  using assms unfolding keyring_wf_def
  by (induction ks) (auto simp: image_iff)

lemma load_after_save:
  assumes "keyring_json_ok L" and "save_keys L base c ks s = (Inr u, s')"
  shows "load_keys L base c s' = Inr ks"
  using assms
  by (auto simp: save_keys_def replace_file_def load_keys_def Let_def keyring_json_ok_def
      split: if_splits)

lemma save_keys_frame [frame_intros]:
  "keyring_path base c \<in> P \<Longrightarrow> writes_only P (save_keys L base c ks)"
  unfolding save_keys_def by (rule frame_intros)

lemma generate_channel_key_ok:
  assumes "generate_channel_key L raw base c s = (Inr key, s')"
  obtains keys where "load_keys L base c s = Inr keys"
    and "key = \<lparr>ck_id = content_id L raw, ck_key = b64_encode L raw\<rparr>"
    and "save_keys L base c (filter (\<lambda>k. ck_id k \<noteq> ck_id key) keys @ [key]) s = (Inr (), s')"
  using assms by (auto simp: generate_channel_key_def Let_def runS_ok)

lemma generate_channel_key_frame [frame_intros]:
  "keyring_path base c \<in> P \<Longrightarrow> writes_only P (generate_channel_key L raw base c)"
  unfolding generate_channel_key_def Let_def by (intro frame_intros)

lemma accept_key_offers_frame [frame_intros]:
  "keyring_path base c \<in> P \<Longrightarrow> writes_only P (accept_key_offers L base c recipient offers)"
  unfolding accept_key_offers_def by (intro frame_intros)

section \<open>Properties of keys and messages\<close>

text \<open>Generating a channel key keeps the keyring well formed, makes the new key the current one and
  keeps a key for every id the keyring had.\<close>

theorem generate_channel_key_rotates:
  assumes "crypto_ok L" and "keyring_json_ok L" and "length raw = 32"
    and "load_keys L base c s = Inr keys" and "keyring_wf L keys"
    and "generate_channel_key L raw base c s = (Inr key, s')"
  shows "current_channel_key L base c s' = Inr key
    \<and> (\<exists>keys'. load_keys L base c s' = Inr keys' \<and> keyring_wf L keys'
         \<and> set (map ck_id keys) \<subseteq> set (map ck_id keys'))"
proof -
  let ?keys' = "filter (\<lambda>k. ck_id k \<noteq> ck_id key) keys @ [key]"
  obtain keys0 where "load_keys L base c s = Inr keys0"
    and key: "key = \<lparr>ck_id = content_id L raw, ck_key = b64_encode L raw\<rparr>"
    and "save_keys L base c (filter (\<lambda>k. ck_id k \<noteq> ck_id key) keys0 @ [key]) s = (Inr (), s')"
    by (rule generate_channel_key_ok [OF assms(6)])
  then have save: "save_keys L base c ?keys' s = (Inr (), s')"
    using assms(4) by simp
  have load: "load_keys L base c s' = Inr ?keys'"
    using load_after_save [OF assms(2) save] .
  have "key_ok L key"
    using assms(1,3) key key_ok_new by (auto simp: crypto_ok_def)
  moreover have "distinct (map ck_id (filter P keys))" for P
    using assms(5) by (simp add: keyring_wf_def distinct_map_filter)
  ultimately have "keyring_wf L ?keys'"
    using assms(5) by (auto simp: keyring_wf_def list_all_iff)
  then show ?thesis
    using load by (auto simp: current_channel_key_def)
qed

text \<open>A message encrypted for a channel decrypts to the message it was, in every later state
  whose keyring still holds the key that was current: rotation does not lose history.\<close>

theorem encrypt_decrypt_roundtrip:
  assumes "crypto_ok L" and "aead_ok L"
    and "load_keys L base c s = Inr keys" and "keyring_wf L keys" and "keys \<noteq> []"
    and "length nonce = 24" and "msg_body m = Text t" and "utf8_valid (as_bytes t)"
    and "load_keys L base c s2 = Inr keys2" and "keyring_wf L keys2" and "last keys \<in> set keys2"
    and "env_channel e = c"
  shows "\<exists>m'. encrypt_message L nonce base c m s = Inr m'
    \<and> msg_body m' \<noteq> msg_body m
    \<and> decrypt_envelope L base (e\<lparr>env_msg := m'\<rparr>) s2 = Inr (e\<lparr>env_msg := m\<rparr>)"
proof -
  let ?k = "last keys"
  obtain raw where raw: "decode_key L ?k = Inr raw" "length raw = 32"
    using keyring_wf_decode [OF assms(4)] assms(5) last_in_set by blast
  obtain ct where ct: "aead_seal L raw nonce (message_aad c (ck_id ?k)) (as_bytes t) = Some ct"
    "aead_open L raw nonce (message_aad c (ck_id ?k)) ct = Some (as_bytes t)"
    using assms(2,6) raw(2) unfolding aead_ok_def by blast
  let ?m' = "m\<lparr>msg_body := Encrypted (ck_id ?k) (b64_encode L nonce) (b64_encode L ct)\<rparr>"
  have "encrypt_message L nonce base c m s = Inr ?m'"
    using assms(3,5,7) raw(1) ct(1) by (simp add: encrypt_message_def current_channel_key_def)
  moreover have "decrypt_envelope L base (e\<lparr>env_msg := ?m'\<rparr>) s2 = Inr (e\<lparr>env_msg := m\<rparr>)"
    using assms(1,6,7,8,9,12) raw(1) ct(2) keyring_find [OF assms(10,11)]
    by (cases m) (simp add: decrypt_envelope_def crypto_ok_def b64_ok_def from_utf8_ok)
  moreover have "msg_body ?m' \<noteq> msg_body m"
    using assms(7) by simp
  ultimately show ?thesis by blast
qed

text \<open>The message \<open>m'\<close> is \<open>m\<close> with its body sealed under the key \<open>raw\<close>, named \<open>kid\<close>.\<close>

definition sealed :: "'x key_lib_scheme \<Rightarrow> string \<Rightarrow> bytes \<Rightarrow> bytes \<Rightarrow> string \<Rightarrow> message \<Rightarrow> message \<Rightarrow> bool" where
  "sealed L kid raw nonce c m m' \<longleftrightarrow>
    (\<exists>t ct. msg_body m = Text t \<and> aead_seal L raw nonce (message_aad c kid) (as_bytes t) = Some ct
      \<and> m' = m\<lparr>msg_body := Encrypted kid (b64_encode L nonce) (b64_encode L ct)\<rparr>)"

lemma encrypt_message_sealed:
  "encrypt_message L nonce base c m s = Inr m' \<longleftrightarrow>
    (\<exists>key raw. current_channel_key L base c s = Inr key \<and> decode_key L key = Inr raw \<and> sealed L (ck_id key) raw nonce c m m')"
  by (cases "msg_body m") (auto simp: encrypt_message_def sealed_def bindR_ok from_option_ok)

lemma sealed_needs_key:
  assumes "sealed L kid raw nonce c m m'" and "load_keys L base (env_channel e) s = Inr keys"
    and "kid \<notin> ck_id ` set keys" and "env_msg e = m'"
  shows "decrypt_envelope L base e s = Inl (Key MissingChannelKey)"
proof -
  have "List.find (\<lambda>k. ck_id k = kid) keys = None" using assms(3) by (auto simp: find_None_iff)
  then show ?thesis using assms(1,2,4) by (auto simp: sealed_def decrypt_envelope_def bindR_def)
qed

lemma open_key_offer_ok:
  assumes "open_key_offer L c recipient offer = Inr raw"
  shows "ko_channel offer = c \<and> ko_recipient offer = public_key recipient
    \<and> length raw = 32 \<and> content_id L raw = ko_key_id offer"
  using assms by (auto simp: open_key_offer_def Let_def bindR_ok split: if_splits)

lemma accept_offers_extends:
  assumes "b64_ok L" and "keyring_wf L keys"
    and "accept_offers L c recipient offers (keys, n) = Inr (keys', n')"
  shows "\<exists>new. keys' = keys @ new \<and> n' = n + length new \<and> keyring_wf L keys'
    \<and> set (map ck_id keys') = set (map ck_id keys) \<union> set (map ko_key_id offers)"
  using assms(2,3)
proof (induction offers arbitrary: keys n)
  case Nil
  then show ?case by auto
next
  case (Cons offer offers)
  let ?new = "\<lambda>raw. \<lparr>ck_id = ko_key_id offer, ck_key = b64_encode L raw\<rparr>"
  from Cons.prems(2) obtain raw where opened: "open_key_offer L c recipient offer = Inr raw"
    and rest: "accept_offers L c recipient offers
      (if \<not> list_ex (\<lambda>k. ck_id k = ko_key_id offer) keys
       then (keys @ [?new raw], Suc n) else (keys, n)) = Inr (keys', n')"
    by (auto simp: bindR_ok)
  show ?case
  proof (cases "list_ex (\<lambda>k. ck_id k = ko_key_id offer) keys")
    case True
    then have "ko_key_id offer \<in> set (map ck_id keys)"
      unfolding list_ex_iff by force
    then have ids: "set (map ck_id keys) \<union> set (map ko_key_id (offer # offers))
        = set (map ck_id keys) \<union> set (map ko_key_id offers)"
      by auto
    have "accept_offers L c recipient offers (keys, n) = Inr (keys', n')"
      using rest True by simp
    then show ?thesis
      using Cons.IH [OF Cons.prems(1)] unfolding ids by blast
  next
    case False
    have "key_ok L (?new raw)"
      using open_key_offer_ok [OF opened] key_ok_new [OF assms(1)] by metis
    then have "keyring_wf L (keys @ [?new raw])"
      using Cons.prems(1) False by (auto simp: keyring_wf_def list_ex_iff)
    from Cons.IH [OF this, of "Suc n"] rest False show ?thesis by auto
  qed
qed

lemma accept_key_offers_result:
  assumes "crypto_ok L" and "keyring_json_ok L"
    and "load_keys L base c s = Inr keys" and "keyring_wf L keys"
    and "accept_key_offers L base c recipient offers s = (r, s')"
  shows "case r of
      Inl err \<Rightarrow> s' = s
    | Inr n \<Rightarrow> \<exists>new. load_keys L base c s' = Inr (keys @ new) \<and> length new = n
        \<and> keyring_wf L (keys @ new)
        \<and> set (map ck_id (keys @ new)) = set (map ck_id keys) \<union> set (map ko_key_id offers)"
proof (cases "lock_keyring base c s")
  case (Inl e)
  then show ?thesis using assms(5) by (auto simp: accept_key_offers_def bindS_readS)
next
  case (Inr u)
  then have dir: "dir_exists (channel_to_path base c) s"
    by (simp add: lock_keyring_def guardR_ok)
  show ?thesis
  proof (cases "accept_offers L c recipient offers (keys, 0)")
    case (Inl e)
    then show ?thesis
      using assms(3,5) Inr by (auto simp: accept_key_offers_def bindS_readS bindS_liftS)
  next
    case acc: (Inr res)
    obtain keys' n where res: "res = (keys', n)" by (cases res)
    have "b64_ok L" using assms(1) by (simp add: crypto_ok_def)
    then obtain new where new: "keys' = keys @ new" "n = 0 + length new" "keyring_wf L keys'"
      "set (map ck_id keys') = set (map ck_id keys) \<union> set (map ko_key_id offers)"
      using accept_offers_extends [OF _ assms(4) acc [unfolded res]] by blast
    obtain s1 where save: "save_keys L base c keys' s = (Inr (), s1)"
      using dir by (simp add: save_keys_def replace_file_def)
    have "r = Inr n \<and> load_keys L base c s' = Inr keys'"
      using assms(3,5) Inr acc res new save load_after_save [OF assms(2) save]
      by (auto simp: accept_key_offers_def bindS_readS bindS_liftS bindS_step okS_def split: if_splits)
    then show ?thesis using new by auto
  qed
qed

text \<open>Accepting key offers never removes or changes a key the node has; what it adds are keys whose
  id is the hash of the key, one per id, and the count it reports is the number added. If any offer is
  refused the keyring file is untouched.\<close>

theorem accept_key_offers_safe:
  assumes "crypto_ok L" and "keyring_json_ok L"
    and "load_keys L base c s = Inr keys" and "keyring_wf L keys"
    and "accept_key_offers L base c recipient offers s = (r, s')"
  shows "case r of
      Inl err \<Rightarrow> s' = s
    | Inr n \<Rightarrow> \<exists>new. load_keys L base c s' = Inr (keys @ new) \<and> length new = n
        \<and> keyring_wf L (keys @ new)
        \<and> set (map ck_id (keys @ new)) = set (map ck_id keys) \<union> set (map ko_key_id offers)"
  by (rule accept_key_offers_result [OF assms])

section \<open>Two members exchange keys\<close>

lemma x25519_secret_generate:
  "crypto_ok L \<Longrightarrow> length sk = 32 \<Longrightarrow>
    x25519_secret L (generate L sk a) = Inr (clamp_scalar (sha512 L sk))"
  by (simp add: x25519_secret_def generate_signing_key crypto_ok_def)

lemma x25519_public_generate:
  "crypto_ok L \<Longrightarrow> length sk = 32 \<Longrightarrow> ed_to_montgomery L (ed_public L sk) = Some u \<Longrightarrow>
    x25519_public L (public_key (generate L sk a)) = Inr u"
  by (simp add: x25519_public_def generate_def hex_array_encode crypto_ok_def ed25519_ok_def)

text \<open>Both sides derive the same wrapping key.\<close>

lemma offer_wrap_key_agrees:
  assumes "crypto_ok L" and "dh_ok L" and "length ska = 32" and "length skb = 32"
  shows "\<exists>w. offer_wrap_key L (generate L ska a) (public_key (generate L skb b)) c i = Inr w
    \<and> offer_wrap_key L (generate L skb b) (public_key (generate L ska a)) c i = Inr w
    \<and> length w = 32"
proof -
  obtain ua ub where u: "ed_to_montgomery L (ed_public L ska) = Some ua"
      "ed_to_montgomery L (ed_public L skb) = Some ub"
    and shared: "x25519 L (clamp_scalar (sha512 L ska)) ub = x25519 L (clamp_scalar (sha512 L skb)) ua"
      "contributory L (x25519 L (clamp_scalar (sha512 L ska)) ub)"
    using assms(2-4) unfolding dh_ok_def by metis
  show ?thesis
    unfolding offer_wrap_key_def
      x25519_secret_generate [OF assms(1,3)] x25519_secret_generate [OF assms(1,4)]
      x25519_public_generate [OF assms(1,3) u(1)] x25519_public_generate [OF assms(1,4) u(2)]
    using shared assms(1) by (simp add: Let_def crypto_ok_def hash_ok_def)
qed

lemma make_then_open_offer:
  assumes "crypto_ok L" and "aead_ok L" and "dh_ok L"
    and "length ska = 32" and "length skb = 32" and "length nonce = 24" and "key_ok L key"
  shows "\<exists>offer raw. make_key_offer L nonce c (generate L ska a) (public_key (generate L skb b)) key = Inr offer
    \<and> open_key_offer L c (generate L skb b) offer = Inr raw
    \<and> ko_key_id offer = ck_id key \<and> ko_sender offer = public_key (generate L ska a)"
proof -
  let ?A = "generate L ska a" and ?B = "generate L skb b"
  obtain raw where raw: "decode_key L key = Inr raw" "ck_id key = content_id L raw"
    using assms(7) by (auto simp: key_ok_def split: sum.splits)
  have len: "length raw = 32" using decode_key_length [OF raw(1)] .
  obtain w where w: "offer_wrap_key L ?A (public_key ?B) c (ck_id key) = Inr w"
      "offer_wrap_key L ?B (public_key ?A) c (ck_id key) = Inr w" "length w = 32"
    using offer_wrap_key_agrees [OF assms(1,3,4,5)] by blast
  let ?aad = "offer_aad c (ck_id key) (public_key ?A) (public_key ?B)"
  obtain ct where ct: "aead_seal L w nonce ?aad raw = Some ct" "aead_open L w nonce ?aad ct = Some raw"
    using assms(2,6) w(3) unfolding aead_ok_def by blast
  have sk: "signing_key L ?A = Inr ska"
    using assms(1,4) by (simp add: generate_signing_key crypto_ok_def)
  have ver: "verify_bytes L (public_key ?A) (hex_encode L (ed_sign L ska m)) m = Inr ()" for m
    using assms(1,4) by (auto simp: verify_bytes_ok generate_def crypto_ok_def hex_ok_def ed25519_ok_def)
  have b64: "b64_decode L (b64_encode L x) = Some x" for x
    using assms(1) by (simp add: crypto_ok_def b64_ok_def)
  let ?n = "b64_encode L nonce" and ?c = "b64_encode L ct"
  let ?payload = "\<lparr>kp_channel = c, kp_key_id = ck_id key, kp_sender = public_key ?A,
    kp_recipient = public_key ?B, kp_nonce = ?n, kp_ciphertext = ?c\<rparr>"
  let ?offer = "\<lparr>ko_channel = c, ko_key_id = ck_id key, ko_sender = public_key ?A,
    ko_recipient = public_key ?B, ko_nonce = ?n, ko_ciphertext = ?c,
    ko_sig = hex_encode L (ed_sign L ska (offer_domain @ offer_payload_json L ?payload))\<rparr>"
  have "make_key_offer L nonce c ?A (public_key ?B) key = Inr ?offer"
    by (simp add: make_key_offer_def raw(1) w(1) ct(1) sk sign_bytes_def Let_def)
  moreover have "open_key_offer L c ?B ?offer = Inr raw"
    by (simp add: open_key_offer_def ver w(2) b64 ct(2) assms(6) len raw(2) [symmetric] Let_def)
  ultimately show ?thesis by fastforce
qed

lemma make_then_accept_offers:
  assumes "crypto_ok L" and "aead_ok L" and "dh_ok L"
    and "length ska = 32" and "length skb = 32" and "\<And>i. length (nonces i) = 24"
  shows "list_all (key_ok L) keys \<Longrightarrow>
    \<exists>offers. make_key_offers_from L nonces i c (generate L ska a) (public_key (generate L skb b)) keys = Inr offers
      \<and> map ko_key_id offers = map ck_id keys
      \<and> list_all (\<lambda>o'. ko_sender o' = public_key (generate L ska a)) offers
      \<and> (\<forall>acc. is_ok (accept_offers L c (generate L skb b) offers acc))"
proof (induction keys arbitrary: i)
  case Nil
  then show ?case by auto
next
  case (Cons key keys)
  have key: "key_ok L key" using Cons.prems by simp
  obtain offer raw where o1: "make_key_offer L (nonces i) c (generate L ska a) (public_key (generate L skb b)) key = Inr offer"
      "open_key_offer L c (generate L skb b) offer = Inr raw"
      "ko_key_id offer = ck_id key" "ko_sender offer = public_key (generate L ska a)"
    using make_then_open_offer [OF assms(1-5) assms(6) key] by blast
  obtain offers where os: "make_key_offers_from L nonces (Suc i) c (generate L ska a) (public_key (generate L skb b)) keys = Inr offers"
      "map ko_key_id offers = map ck_id keys"
      "list_all (\<lambda>o'. ko_sender o' = public_key (generate L ska a)) offers"
      "\<And>acc. is_ok (accept_offers L c (generate L skb b) offers acc)"
    using Cons.IH [of "Suc i"] Cons.prems by auto
  have "is_ok (accept_offers L c (generate L skb b) (offer # offers) acc)" for acc
    using o1(2) os(4) by (cases acc) simp
  then show ?case using o1 os(1-3) by (intro exI [of _ "offer # offers"]) simp
qed

text \<open>C30. Key exchange works: every key of a well-formed keyring that one member offers another is
  accepted, and afterwards the recipient holds a key for exactly its own ids and the sender's.\<close>

theorem key_exchange_complete:
  assumes "crypto_ok L" and "aead_ok L" and "dh_ok L" and "keyring_json_ok L"
    and "length ska = 32" and "length skb = 32" and "\<And>i. length (nonces i) = 24"
    and "load_keys L base_a c sa = Inr keys_a" and "keyring_wf L keys_a"
    and "load_keys L base_b c sb = Inr keys_b" and "keyring_wf L keys_b"
    and "lock_keyring base_b c sb = Inr ()"
  shows "\<exists>offers n sb' keys.
      make_key_offers L nonces base_a c (generate L ska a) (public_key (generate L skb b)) sa = Inr offers
    \<and> accept_key_offers L base_b c (generate L skb b) offers sb = (Inr n, sb')
    \<and> load_keys L base_b c sb' = Inr keys \<and> keyring_wf L keys
    \<and> set (map ck_id keys) = set (map ck_id keys_b) \<union> set (map ck_id keys_a)"
proof -
  have "list_all (key_ok L) keys_a" using assms(9) by (simp add: keyring_wf_def)
  then obtain offers where made:
      "make_key_offers_from L nonces 0 c (generate L ska a) (public_key (generate L skb b)) keys_a = Inr offers"
    and ids: "map ko_key_id offers = map ck_id keys_a"
    and acc: "\<And>acc. is_ok (accept_offers L c (generate L skb b) offers acc)"
    using make_then_accept_offers [where nonces = nonces, OF assms(1-3,5-7)] by blast
  obtain keys n where kn: "accept_offers L c (generate L skb b) offers (keys_b, 0) = Inr (keys, n)"
    using acc [of "(keys_b, 0)"] by (auto simp: is_ok_iff)
  obtain r sb' where run: "accept_key_offers L base_b c (generate L skb b) offers sb = (r, sb')"
    by (cases "accept_key_offers L base_b c (generate L skb b) offers sb")
  have "dir_exists (channel_to_path base_b c) sb"
    using assms(12) by (simp add: lock_keyring_def guardR_ok)
  then obtain s1 where save: "save_keys L base_b c keys sb = (Inr (), s1)"
    by (simp add: save_keys_def replace_file_def)
  have r: "r = Inr n"
    using run assms(10,12) kn save
    by (auto simp: accept_key_offers_def bindS_readS bindS_liftS bindS_step okS_def split: if_splits)
  have "\<exists>new. load_keys L base_b c sb' = Inr (keys_b @ new) \<and> keyring_wf L (keys_b @ new)
      \<and> set (map ck_id (keys_b @ new)) = set (map ck_id keys_b) \<union> set (map ck_id keys_a)"
    using accept_key_offers_result [OF assms(1,4,10,11) run] unfolding ids r by auto
  moreover have "make_key_offers L nonces base_a c (generate L ska a) (public_key (generate L skb b)) sa
      = Inr offers"
    using made assms(8) by (simp add: make_key_offers_def)
  ultimately show ?thesis
    using run unfolding r by blast
qed

end
