(* ===== verification/Policy.thy ===== *)
theory Policy
  imports Event_Chain Keyring
begin

text \<open>
  Channel policies: the data and the replay of signed policy events of \<open>src/store.rs\<close>
  (\<open>ChannelPolicy\<close>, \<open>PolicyAction\<close>, \<open>authorize_policy_change\<close>, \<open>apply_policy_action\<close>,
  \<open>derive_policy\<close>, \<open>sign_policy_event\<close>, \<open>policy_allows_read\<close>). The file operations are in
  \<open>Policy_Store\<close>. Shown: what every derivable policy satisfies, who can change what, the effect of
  each action on the members, and that replay is a function of verified, linked events.
\<close>

section \<open>Data\<close>

datatype policy_mode = Open | Restricted

datatype channel_visibility = Public | Private

datatype policy_role = Moderator | Writer | Reader

record channel_policy =
  version :: u32
  mode :: policy_mode
  visibility :: channel_visibility
  owner :: "string option"
  moderators :: "string list"
  writers :: "string list"
  readers :: "string list"

definition default_policy :: channel_policy where
  "default_policy =
    \<lparr>version = 1, mode = Open, visibility = Public, owner = None,
     moderators = [], writers = [], readers = []\<rparr>"

datatype policy_action =
    Restrict string
  | Adopt channel_policy
  | Grant policy_role string
  | Revoke policy_role string
  | TransferOwner string
  | SetVisibility channel_visibility

record policy_event =
  pe_id :: string
  pe_channel :: string
  pe_actor :: string
  pe_ts :: i64
  pe_previous :: "string option"
  pe_action :: policy_action
  pe_sig :: string

record policy_payload =
  pp_channel :: string
  pp_actor :: string
  pp_ts :: i64
  pp_previous :: "string option"
  pp_action :: policy_action

record policy_lib = key_lib +
  policy_payload_json :: "policy_payload \<Rightarrow> bytes"
  policy_event_json :: "policy_event \<Rightarrow> bytes"
  policy_event_of_json :: "bytes \<Rightarrow> policy_event option"
  policy_json :: "channel_policy \<Rightarrow> bytes"
  policy_of_json :: "bytes \<Rightarrow> channel_policy option"

section \<open>Authorization\<close>

definition validate_public_key :: "'x crypto_lib_scheme \<Rightarrow> string \<Rightarrow> unit result" where
  "validate_public_key L key =
    bindR (from_option (Decode NotHex) (hex_decode L key)) (\<lambda>bs.
      if length bs \<noteq> 32 then Inl (Decode WrongLength) else Inr ())"

definition policy_allows_read :: "channel_policy \<Rightarrow> string \<Rightarrow> bool" where
  "policy_allows_read p k \<longleftrightarrow>
    visibility p = Public \<or> owner p = Some k
    \<or> list_ex (\<lambda>x. x = k) (moderators p)
    \<or> list_ex (\<lambda>x. x = k) (writers p)
    \<or> list_ex (\<lambda>x. x = k) (readers p)"

definition policy_allows_append :: "channel_policy \<Rightarrow> string \<Rightarrow> bool" where
  "policy_allows_append p author \<longleftrightarrow>
    mode p = Open \<or> owner p = Some author
    \<or> list_ex (\<lambda>x. x = author) (moderators p)
    \<or> list_ex (\<lambda>x. x = author) (writers p)"

definition authorize_policy_change :: "channel_policy \<Rightarrow> string \<Rightarrow> policy_role \<Rightarrow> unit result" where
  "authorize_policy_change p actor role =
    (if mode p \<noteq> Restricted then Inl (Policy NotRestricted)
     else
       let is_owner = (owner p = Some actor);
           is_moderator = list_ex (\<lambda>x. x = actor) (moderators p) in
       (case role of
          Moderator \<Rightarrow> if \<not> is_owner then Inl (Policy NotAuthorized) else Inr ()
        | Writer \<Rightarrow> if \<not> is_owner \<and> \<not> is_moderator then Inl (Policy NotAuthorized) else Inr ()
        | Reader \<Rightarrow> if \<not> is_owner \<and> \<not> is_moderator then Inl (Policy NotAuthorized) else Inr ()))"

section \<open>Applying an action\<close>

definition members :: "policy_role \<Rightarrow> channel_policy \<Rightarrow> string list" where
  "members role p =
    (case role of Moderator \<Rightarrow> moderators p | Writer \<Rightarrow> writers p | Reader \<Rightarrow> readers p)"

definition set_members :: "policy_role \<Rightarrow> string list \<Rightarrow> channel_policy \<Rightarrow> channel_policy" where
  "set_members role ks p =
    (case role of
       Moderator \<Rightarrow> p\<lparr>moderators := ks\<rparr>
     | Writer \<Rightarrow> p\<lparr>writers := ks\<rparr>
     | Reader \<Rightarrow> p\<lparr>readers := ks\<rparr>)"

fun apply_policy_action ::
  "'x crypto_lib_scheme \<Rightarrow> channel_policy \<Rightarrow> string \<Rightarrow> policy_action \<Rightarrow> channel_policy result" where
  "apply_policy_action L p actor (Restrict own) =
    (if mode p \<noteq> Open \<or> own \<noteq> actor then Inl (Policy InvalidRestrict)
     else bindR (validate_public_key L own) (\<lambda>_.
       Inr (p\<lparr>mode := Restricted, owner := Some own\<rparr>)))"
| "apply_policy_action L p actor (Adopt adopted) =
    (if mode p \<noteq> Open \<or> mode adopted \<noteq> Restricted \<or> owner adopted \<noteq> Some actor
     then Inl (Policy InvalidAdoption)
     else Inr adopted)"
| "apply_policy_action L p actor (Grant role key) =
    bindR (validate_public_key L key) (\<lambda>_.
    bindR (authorize_policy_change p actor role) (\<lambda>_.
      if \<not> List.member (members role p) key
      then Inr (set_members role (sort (members role p @ [key])) p)
      else Inr p))"
| "apply_policy_action L p actor (Revoke role key) =
    bindR (authorize_policy_change p actor role) (\<lambda>_.
      Inr (set_members role (filter (\<lambda>k. k \<noteq> key) (members role p)) p))"
| "apply_policy_action L p actor (TransferOwner new_owner) =
    bindR (validate_public_key L new_owner) (\<lambda>_.
      if owner p \<noteq> Some actor then Inl (Policy OnlyOwner)
      else Inr (p\<lparr>owner := Some new_owner,
                  moderators := filter (\<lambda>k. k \<noteq> new_owner) (moderators p),
                  writers := filter (\<lambda>k. k \<noteq> new_owner) (writers p),
                  readers := filter (\<lambda>k. k \<noteq> new_owner) (readers p)\<rparr>))"
| "apply_policy_action L p actor (SetVisibility v) =
    (if mode p \<noteq> Restricted then Inl (Policy NotRestricted)
     else if owner p \<noteq> Some actor then Inl (Policy OnlyOwner)
     else Inr (p\<lparr>visibility := v\<rparr>))"

section \<open>Replaying a history\<close>

definition policy_domain :: bytes where
  "policy_domain = as_bytes (''embernet-policy-v1'' @ [CHR 10])"

definition event_payload :: "policy_event \<Rightarrow> policy_payload" where
  "event_payload e =
    \<lparr>pp_channel = pe_channel e, pp_actor = pe_actor e, pp_ts = pe_ts e,
     pp_previous = pe_previous e, pp_action = pe_action e\<rparr>"

definition policy_step ::
  "'x policy_lib_scheme \<Rightarrow> channel_ref \<Rightarrow> channel_policy \<Rightarrow> string option \<Rightarrow> policy_event
    \<Rightarrow> channel_policy result" where
  "policy_step L chan p previous e =
    (if pe_channel e \<noteq> full_name chan \<or> pe_previous e \<noteq> previous then Inl (History BrokenChain)
     else
       let payload = policy_payload_json L (event_payload e) in
       if pe_id e \<noteq> content_id L payload then Inl (History BadEventId)
       else bindR (verify_bytes L (pe_actor e) (pe_sig e) (policy_domain @ payload)) (\<lambda>_.
            apply_policy_action L p (pe_actor e) (pe_action e)))"

fun replay_policy ::
  "'x policy_lib_scheme \<Rightarrow> channel_ref \<Rightarrow> channel_policy \<Rightarrow> string option \<Rightarrow> policy_event list
    \<Rightarrow> channel_policy result" where
  "replay_policy L chan p previous [] = Inr p"
| "replay_policy L chan p previous (e # es) =
    bindR (policy_step L chan p previous e) (\<lambda>p'. replay_policy L chan p' (Some (pe_id e)) es)"

definition derive_policy ::
  "'x policy_lib_scheme \<Rightarrow> channel_ref \<Rightarrow> policy_event list \<Rightarrow> channel_policy result" where
  "derive_policy L chan events = replay_policy L chan default_policy None events"

definition validate_policy_history ::
  "'x policy_lib_scheme \<Rightarrow> channel_ref \<Rightarrow> policy_event list \<Rightarrow> channel_policy result" where
  "validate_policy_history L chan events = derive_policy L chan events"

definition sign_policy_event ::
  "'x policy_lib_scheme \<Rightarrow> i64 \<Rightarrow> channel_ref \<Rightarrow> keypair \<Rightarrow> string option \<Rightarrow> policy_action
    \<Rightarrow> policy_event result" where
  "sign_policy_event L now chan signer previous action =
    (let payload = policy_payload_json L
           \<lparr>pp_channel = full_name chan, pp_actor = public_key signer, pp_ts = now,
            pp_previous = previous, pp_action = action\<rparr> in
     bindR (sign_bytes L signer (policy_domain @ payload)) (\<lambda>sig.
     Inr \<lparr>pe_id = content_id L payload, pe_channel = full_name chan,
          pe_actor = public_key signer, pe_ts = now, pe_previous = previous,
          pe_action = action, pe_sig = sig\<rparr>))"

lemma policy_step_linked: "policy_step L chan p q e = Inr p' \<Longrightarrow> pe_previous e = q"
  by (auto simp: policy_step_def split: if_splits)

interpretation policy_chain: event_chain pe_id pe_previous "policy_step L chan" "replay_policy L chan"
  for L :: "'x policy_lib_scheme" and chan
  by unfold_locales (auto dest: policy_step_linked)

section \<open>Lemmas\<close>

lemma validate_public_key_ok:
  "validate_public_key L key = Inr u \<longleftrightarrow> (\<exists>bs. hex_decode L key = Some bs \<and> length bs = 32)"
  by (auto simp: validate_public_key_def bindR_ok from_option_ok split: if_splits)

lemma authorize_ok:
  "authorize_policy_change p actor role = Inr u \<longleftrightarrow>
    mode p = Restricted
    \<and> (owner p = Some actor \<or> (role \<noteq> Moderator \<and> actor \<in> set (moderators p)))"
  by (cases role) (auto simp: authorize_policy_change_def Let_def list_ex_iff)

lemma policy_allows_read_iff:
  "policy_allows_read p k \<longleftrightarrow>
    visibility p = Public \<or> owner p = Some k
    \<or> k \<in> set (moderators p) \<or> k \<in> set (writers p) \<or> k \<in> set (readers p)"
  by (auto simp: policy_allows_read_def list_ex_iff)

lemma policy_allows_append_iff:
  "policy_allows_append p k \<longleftrightarrow>
    mode p = Open \<or> owner p = Some k \<or> k \<in> set (moderators p) \<or> k \<in> set (writers p)"
  by (auto simp: policy_allows_append_def list_ex_iff)

lemma set_members_simps [simp]:
  "mode (set_members r ks p) = mode p"
  "owner (set_members r ks p) = owner p"
  "visibility (set_members r ks p) = visibility p"
  "version (set_members r ks p) = version p"
  "members r (set_members r ks p) = ks"
  "r' \<noteq> r \<Longrightarrow> members r' (set_members r ks p) = members r' p"
  by (cases r; cases r'; simp add: set_members_def members_def)+

lemma members_simps:
  "moderators p = members Moderator p" "writers p = members Writer p" "readers p = members Reader p"
  by (simp_all add: members_def)

lemma apply_ok:
  "apply_policy_action L p actor a = Inr p' \<longleftrightarrow>
    (case a of
       Restrict own \<Rightarrow> mode p = Open \<and> own = actor \<and> validate_public_key L own = Inr ()
         \<and> p' = p\<lparr>mode := Restricted, owner := Some own\<rparr>
     | Adopt ad \<Rightarrow> mode p = Open \<and> mode ad = Restricted \<and> owner ad = Some actor \<and> p' = ad
     | Grant r k \<Rightarrow> validate_public_key L k = Inr () \<and> authorize_policy_change p actor r = Inr ()
         \<and> p' = (if k \<in> set (members r p) then p else set_members r (sort (members r p @ [k])) p)
     | Revoke r k \<Rightarrow> authorize_policy_change p actor r = Inr ()
         \<and> p' = set_members r (filter (\<lambda>x. x \<noteq> k) (members r p)) p
     | TransferOwner k \<Rightarrow> validate_public_key L k = Inr () \<and> owner p = Some actor
         \<and> p' = p\<lparr>owner := Some k, moderators := filter (\<lambda>x. x \<noteq> k) (moderators p),
               writers := filter (\<lambda>x. x \<noteq> k) (writers p), readers := filter (\<lambda>x. x \<noteq> k) (readers p)\<rparr>
     | SetVisibility v \<Rightarrow> mode p = Restricted \<and> owner p = Some actor \<and> p' = p\<lparr>visibility := v\<rparr>)"
  by (cases a) (auto simp: bindR_ok split: if_splits)

text \<open>The shape of a policy that replay can produce.\<close>

definition policy_wf :: "channel_policy \<Rightarrow> bool" where
  "policy_wf p \<longleftrightarrow>
    (mode p = Open \<longrightarrow> p = default_policy) \<and> (mode p = Restricted \<longrightarrow> owner p \<noteq> None)"

lemma policy_wf_default: "policy_wf default_policy"
  by (simp add: policy_wf_def default_policy_def)

lemma policy_wf_apply: "policy_wf p \<Longrightarrow> apply_policy_action L p actor a = Inr p' \<Longrightarrow> policy_wf p'"
  by (cases a)
     (auto simp: policy_wf_def default_policy_def authorize_ok bindR_ok split: if_splits)

lemma policy_step_apply:
  "policy_step L chan p q e = Inr p' \<Longrightarrow> apply_policy_action L p (pe_actor e) (pe_action e) = Inr p'"
  by (auto simp: policy_step_def Let_def bindR_ok split: if_splits)

lemma policy_step_ok:
  "policy_step L chan p q e = Inr p' \<longleftrightarrow>
    pe_channel e = full_name chan \<and> pe_previous e = q
    \<and> pe_id e = content_id L (policy_payload_json L (event_payload e))
    \<and> verify_bytes L (pe_actor e) (pe_sig e)
        (policy_domain @ policy_payload_json L (event_payload e)) = Inr ()
    \<and> apply_policy_action L p (pe_actor e) (pe_action e) = Inr p'"
  by (auto simp: policy_step_def Let_def bindR_ok split: if_splits)

lemma replay_policy_wf: "replay_policy L chan p q es = Inr p' \<Longrightarrow> policy_wf p \<Longrightarrow> policy_wf p'"
  by (rule policy_chain.replay_invariant [where I = policy_wf])
     (auto intro: policy_wf_apply dest: policy_step_apply)

lemma derive_policy_snoc:
  "derive_policy L chan (es @ [e]) =
    bindR (derive_policy L chan es) (\<lambda>p. policy_step L chan p (last_id pe_id None es) e)"
  by (simp add: derive_policy_def policy_chain.replay_snoc)

lemma derive_policy_append:
  "derive_policy L chan (es @ fs) =
    bindR (derive_policy L chan es) (\<lambda>p. replay_policy L chan p (last_id pe_id None es) fs)"
  by (simp add: derive_policy_def policy_chain.replay_append)

lemma apply_restricted: "apply_policy_action L p actor a = Inr p' \<Longrightarrow> mode p = Restricted \<Longrightarrow> mode p' = Restricted"
  by (cases a) (auto simp: bindR_ok split: if_splits)

text \<open>Who may do what: an owner anything, a moderator only the writers and readers.\<close>

lemma apply_authority:
  assumes "apply_policy_action L p actor a = Inr p'" and "mode p = Restricted"
  shows "owner p = Some actor
    \<or> (actor \<in> set (moderators p) \<and> p' = p\<lparr>writers := writers p', readers := readers p'\<rparr>)"
proof (cases a)
  case (Grant r k)
  with assms show ?thesis
    by (cases r) (auto simp: bindR_ok authorize_ok set_members_def split: if_splits)
next
  case (Revoke r k)
  with assms show ?thesis
    by (cases r) (auto simp: bindR_ok authorize_ok set_members_def split: if_splits)
qed (use assms in \<open>auto simp: bindR_ok split: if_splits\<close>)

section \<open>Properties of replay\<close>

text \<open>A policy derived from a signed history is either the untouched open default or restricted
  with an owner; a private policy is restricted.\<close>

theorem derive_policy_wf:
  assumes "derive_policy L chan es = Inr p"
  shows "policy_wf p \<and> (visibility p = Private \<longrightarrow> mode p = Restricted)"
proof -
  have wf: "policy_wf p"
    using replay_policy_wf [OF assms [unfolded derive_policy_def] policy_wf_default] .
  then show ?thesis by (cases "mode p") (auto simp: policy_wf_def default_policy_def)
qed

text \<open>C28. Once a history has restricted a channel, every further change is signed by its owner or by a
  moderator, and an event signed by a moderator who is not the owner changes the writer and reader lists
  only: owner, moderators, visibility and mode stay.\<close>

theorem policy_change_authority:
  assumes "derive_policy L chan es = Inr p" and "mode p = Restricted"
    and "derive_policy L chan (es @ [e]) = Inr p'"
  shows "verify_bytes L (pe_actor e) (pe_sig e)
      (policy_domain @ policy_payload_json L (event_payload e)) = Inr ()
    \<and> (owner p = Some (pe_actor e)
       \<or> (pe_actor e \<in> set (moderators p) \<and> p' = p\<lparr>writers := writers p', readers := readers p'\<rparr>))"
proof -
  have step: "policy_step L chan p (last_id pe_id None es) e = Inr p'"
    using assms(1,3) by (simp add: derive_policy_snoc)
  then show ?thesis
    using apply_authority [OF policy_step_apply [OF step] assms(2)]
    by (simp add: policy_step_ok)
qed

text \<open>Restriction is permanent: no extension of a history that restricts the channel opens it
  again.\<close>

theorem restriction_is_permanent:
  assumes "derive_policy L chan es = Inr p" and "mode p = Restricted"
    and "derive_policy L chan (es @ fs) = Inr p'"
  shows "mode p' = Restricted"
proof -
  have "replay_policy L chan p (last_id pe_id None es) fs = Inr p'"
    using assms(1,3) by (simp add: derive_policy_append)
  then show ?thesis
    by (rule policy_chain.replay_invariant [where I = "\<lambda>p. mode p = Restricted"])
       (use assms(2) in \<open>auto dest: policy_step_apply apply_restricted\<close>)
qed

text \<open>A valid history is a hash-linked chain bound to its channel: every event names the id of the
  one before it, carries the hash of its own payload and this channel's name, and every prefix of the
  history is valid.\<close>

theorem derive_policy_chain:
  assumes "derive_policy L chan es = Inr p"
  shows "linked pe_id pe_previous None es
    \<and> list_all (\<lambda>e. pe_channel e = full_name chan
        \<and> pe_id e = content_id L (policy_payload_json L (event_payload e))) es
    \<and> is_ok (derive_policy L chan (take n es))"
proof -
  have r: "replay_policy L chan default_policy None es = Inr p"
    using assms by (simp add: derive_policy_def)
  have "list_all (\<lambda>e. pe_channel e = full_name chan
      \<and> pe_id e = content_id L (policy_payload_json L (event_payload e))) es"
    if "replay_policy L chan q i es = Inr p" for q i
    using that by (induction es arbitrary: q i) (auto simp: bindR_ok policy_step_ok)
  moreover have "is_ok (derive_policy L chan (take n es))"
    using policy_chain.replay_take_ok [OF r, of n] by (auto simp: derive_policy_def is_ok_iff)
  ultimately show ?thesis
    using r policy_chain.replay_linked [OF r] by blast
qed

lemma sign_policy_event_ok:
  assumes "crypto_ok L" and "length sk = 32"
  shows "\<exists>e. sign_policy_event L now chan (generate L sk a) q act = Inr e
    \<and> pe_action e = act \<and> pe_actor e = public_key (generate L sk a)
    \<and> (\<forall>p. policy_step L chan p q e = apply_policy_action L p (public_key (generate L sk a)) act)"
proof -
  let ?kp = "generate L sk a"
  let ?payload = "policy_payload_json L \<lparr>pp_channel = full_name chan, pp_actor = public_key ?kp,
    pp_ts = now, pp_previous = q, pp_action = act\<rparr>"
  have sk: "signing_key L ?kp = Inr sk"
    using assms by (simp add: generate_signing_key crypto_ok_def)
  have ver: "verify_bytes L (public_key ?kp) (hex_encode L (ed_sign L sk m)) m = Inr ()" for m
    using assms by (auto simp: verify_bytes_ok generate_def crypto_ok_def hex_ok_def ed25519_ok_def)
  let ?e = "\<lparr>pe_id = content_id L ?payload, pe_channel = full_name chan,
    pe_actor = public_key ?kp, pe_ts = now, pe_previous = q, pe_action = act,
    pe_sig = hex_encode L (ed_sign L sk (policy_domain @ ?payload))\<rparr>"
  have "sign_policy_event L now chan ?kp q act = Inr ?e"
    by (simp add: sign_policy_event_def sign_bytes_def sk Let_def)
  moreover have "policy_step L chan p q ?e = apply_policy_action L p (public_key ?kp) act" for p
    by (simp add: policy_step_def event_payload_def ver Let_def)
  ultimately show ?thesis by fastforce
qed

text \<open>Signing an event on top of a valid history yields an event whose replay is exactly the
  requested action by the signer: accepted with the action's result, or refused with its error.\<close>

theorem signed_event_replays:
  assumes "crypto_ok L" and "length sk = 32" and "derive_policy L chan es = Inr p"
  shows "\<exists>e. sign_policy_event L now chan (generate L sk a) (last_id pe_id None es) act = Inr e
    \<and> derive_policy L chan (es @ [e]) = apply_policy_action L p (public_key (generate L sk a)) act"
  using sign_policy_event_ok [OF assms(1,2), of now chan a "last_id pe_id None es" act] assms(3)
  by (auto simp: derive_policy_snoc)

section \<open>Properties of single actions\<close>

text \<open>A grant adds the key to that role and nothing else; a revocation removes it from that role and
  nothing else; the other roles, the owner, the visibility and the order of the list are kept.\<close>

theorem grant_revoke_effect:
  assumes "apply_policy_action L p actor a = Inr p'" and "a = Grant r k \<or> a = Revoke r k"
  shows "set (members r p') = (if a = Grant r k then insert k (set (members r p)) else set (members r p) - {k})
    \<and> (\<forall>r'. r' \<noteq> r \<longrightarrow> members r' p' = members r' p)
    \<and> owner p' = owner p \<and> visibility p' = visibility p \<and> mode p' = mode p
    \<and> (sorted (members r p) \<and> distinct (members r p)
       \<longrightarrow> sorted (members r p') \<and> distinct (members r p'))"
proof -
  have "sorted xs \<Longrightarrow> sorted (filter P xs)" for xs :: "string list" and P
    using sorted_filter [of "\<lambda>x. x" xs P] by simp
  then show ?thesis
    using assms by (auto simp: bindR_ok split: if_splits)
qed

text \<open>After an ownership transfer the new owner is the only owner and holds no other role, and the
  previous owner has no rights left on a private channel unless a role list names it.\<close>

theorem transfer_ownership_effect:
  assumes "apply_policy_action L p actor (TransferOwner k) = Inr p'" and "actor \<noteq> k"
  shows "owner p = Some actor \<and> owner p' = Some k
    \<and> k \<notin> set (moderators p') \<union> set (writers p') \<union> set (readers p')
    \<and> (policy_allows_append p' actor \<longleftrightarrow>
         mode p = Open \<or> actor \<in> set (moderators p) \<or> actor \<in> set (writers p))
    \<and> (visibility p = Private \<longrightarrow> (policy_allows_read p' actor \<longleftrightarrow>
         actor \<in> set (moderators p) \<union> set (writers p) \<union> set (readers p)))"
  using assms by (auto simp: bindR_ok policy_allows_append_iff policy_allows_read_iff split: if_splits)

text \<open>Whoever may append may read: read access contains write access in every policy that
  replay can produce.\<close>

theorem append_implies_read:
  assumes "derive_policy L chan es = Inr p" and "policy_allows_append p k"
  shows "policy_allows_read p k"
proof -
  have "policy_wf p"
    using replay_policy_wf [OF assms(1) [unfolded derive_policy_def] policy_wf_default] .
  then show ?thesis
    using assms(2)
    by (auto simp: policy_allows_append_iff policy_allows_read_iff policy_wf_def default_policy_def)
qed

end
