(* ===== verification/Policy_Store.thy ===== *)
theory Policy_Store
  imports Policy
begin

text \<open>
  The policy files of a channel, from \<open>src/store.rs\<close>: the signed history \<open>policy.ndjson\<close>, the
  rebuildable cache \<open>policy.json\<close> and the directory \<open>policy-conflicts\<close> of saved forks. Every
  operation of the code that reads or writes them is here, with its locks' failure mode (the channel
  directory must exist) and its order of checks and writes; the current time is an argument for
  each call of the clock.
\<close>

definition log_path :: "string \<Rightarrow> channel_ref \<Rightarrow> string" where
  "log_path base chan = channel_file base (full_name chan) ''log.ndjson''"

definition channel_dir :: "string \<Rightarrow> channel_ref \<Rightarrow> string" where
  "channel_dir base chan = channel_to_path base (full_name chan)"

definition policy_path :: "string \<Rightarrow> channel_ref \<Rightarrow> string" where
  "policy_path base chan = channel_file base (full_name chan) ''policy.json''"

definition policy_log_path :: "string \<Rightarrow> channel_ref \<Rightarrow> string" where
  "policy_log_path base chan = channel_file base (full_name chan) ''policy.ndjson''"

definition policy_conflict_dir :: "string \<Rightarrow> channel_ref \<Rightarrow> string" where
  "policy_conflict_dir base chan = channel_file base (full_name chan) ''policy-conflicts''"

definition conflict_file :: "string \<Rightarrow> string \<Rightarrow> string" where
  "conflict_file dir head = path_join dir (head @ ''.ndjson'')"

definition open_history_lock :: "string \<Rightarrow> channel_ref \<Rightarrow> node_fs \<Rightarrow> unit result" where
  "open_history_lock base chan s =
    guardR (dir_exists (channel_dir base chan) s) (Io (NoDirectory (channel_dir base chan)))"

definition open_log :: "string \<Rightarrow> channel_ref \<Rightarrow> node_fs \<Rightarrow> bytes result" where
  "open_log base chan s = read_file (log_path base chan) s"

section \<open>Reading\<close>

definition parse_policy_events ::
  "'x policy_lib_scheme \<Rightarrow> bytes \<Rightarrow> policy_event list result" where
  "parse_policy_events L bs = parse_lines (policy_event_of_json L) (byte_lines bs)"

definition read_policy_history_unlocked ::
  "'x policy_lib_scheme \<Rightarrow> string \<Rightarrow> channel_ref \<Rightarrow> node_fs \<Rightarrow> policy_event list result" where
  "read_policy_history_unlocked L base chan s =
    (let path = policy_log_path base chan in
     if \<not> file_exists path s then Inr []
     else bindR (read_file path s) (\<lambda>bs.
          bindR (parse_policy_events L bs) (\<lambda>events.
          bindR (derive_policy L chan events) (\<lambda>_. Inr events))))"

definition read_policy_history ::
  "'x policy_lib_scheme \<Rightarrow> string \<Rightarrow> channel_ref \<Rightarrow> node_fs \<Rightarrow> policy_event list result" where
  "read_policy_history L base chan s =
    bindR (open_history_lock base chan s) (\<lambda>_. read_policy_history_unlocked L base chan s)"

definition validate_keys :: "'x crypto_lib_scheme \<Rightarrow> string list \<Rightarrow> unit result" where
  "validate_keys L ks = bindR (mapR (validate_public_key L) ks) (\<lambda>_. Inr ())"

definition read_policy_cache ::
  "'x policy_lib_scheme \<Rightarrow> string \<Rightarrow> channel_ref \<Rightarrow> node_fs \<Rightarrow> channel_policy result" where
  "read_policy_cache L base chan s =
    (let path = policy_path base chan in
     if \<not> file_exists path s then Inr default_policy
     else bindR (read_file path s) (\<lambda>bs.
          bindR (from_option (Decode NotJson) (policy_of_json L bs)) (\<lambda>p.
          if version p \<noteq> 1 then Inl (Policy BadPolicyVersion)
          else if mode p = Restricted \<and> owner p = None then Inl (Policy RestrictedWithoutOwner)
          else bindR (case owner p of None \<Rightarrow> Inr () | Some k \<Rightarrow> validate_public_key L k) (\<lambda>_.
               bindR (validate_keys L (moderators p @ writers p @ readers p)) (\<lambda>_.
               if visibility p = Private \<and> mode p \<noteq> Restricted
               then Inl (Policy PrivateNotRestricted)
               else Inr p)))))"

definition read_channel_policy ::
  "'x policy_lib_scheme \<Rightarrow> string \<Rightarrow> channel_ref \<Rightarrow> node_fs \<Rightarrow> channel_policy result" where
  "read_channel_policy L base chan s =
    (if file_exists (policy_log_path base chan) s
     then bindR (read_policy_history L base chan s) (derive_policy L chan)
     else read_policy_cache L base chan s)"

definition authorize_read ::
  "'x policy_lib_scheme \<Rightarrow> string \<Rightarrow> channel_ref \<Rightarrow> string \<Rightarrow> node_fs \<Rightarrow> unit result" where
  "authorize_read L base chan k s =
    bindR (read_channel_policy L base chan s) (\<lambda>p.
      guardR (policy_allows_read p k) (Policy NotAReader))"

definition authorize_append ::
  "'x policy_lib_scheme \<Rightarrow> string \<Rightarrow> channel_ref \<Rightarrow> string \<Rightarrow> node_fs \<Rightarrow> unit result" where
  "authorize_append L base chan author s =
    bindR (read_channel_policy L base chan s) (\<lambda>p.
      guardR (policy_allows_append p author) (Policy NotAWriter))"

section \<open>Writing\<close>

definition write_policy_cache ::
  "'x policy_lib_scheme \<Rightarrow> string \<Rightarrow> channel_ref \<Rightarrow> channel_policy \<Rightarrow> unit io" where
  "write_policy_cache L base chan p =
    replace_file (channel_dir base chan) (policy_path base chan) (policy_json L p)"

definition append_policy_lines ::
  "'x policy_lib_scheme \<Rightarrow> string \<Rightarrow> channel_ref \<Rightarrow> policy_event list \<Rightarrow> unit io" where
  "append_policy_lines L base chan events =
    bindS (open_append (channel_dir base chan) (policy_log_path base chan)) (\<lambda>_.
    append_file (policy_log_path base chan) (write_lines (policy_event_json L) events))"

text \<open>The events an action adds: an adoption of a legacy restricted policy first, if there is no
  signed history yet; \<open>t0\<close> and \<open>t1\<close> are the clock readings of the two signatures.\<close>

definition new_policy_events ::
  "'x policy_lib_scheme \<Rightarrow> i64 \<Rightarrow> i64 \<Rightarrow> channel_ref \<Rightarrow> keypair \<Rightarrow> policy_action
    \<Rightarrow> policy_event list \<Rightarrow> channel_policy \<Rightarrow> policy_event list result" where
  "new_policy_events L t0 t1 chan signer action events cached =
    bindR (if events = [] \<and> mode cached = Restricted
           then if owner cached \<noteq> Some (public_key signer) then Inl (Policy LegacyOwnerMismatch)
                else bindR (sign_policy_event L t0 chan signer None (Adopt cached)) (\<lambda>e. Inr [e])
           else Inr []) (\<lambda>adopt.
    bindR (sign_policy_event L t1 chan signer (last_id pe_id None (events @ adopt)) action) (\<lambda>e.
    Inr (adopt @ [e])))"

definition append_policy_action ::
  "'x policy_lib_scheme \<Rightarrow> i64 \<Rightarrow> i64 \<Rightarrow> string \<Rightarrow> channel_ref \<Rightarrow> keypair \<Rightarrow> policy_action
    \<Rightarrow> channel_policy io" where
  "append_policy_action L t0 t1 base chan signer action =
    bindS (readS (open_log base chan)) (\<lambda>_.
    bindS (readS (open_history_lock base chan)) (\<lambda>_.
    bindS (readS (read_policy_history_unlocked L base chan)) (\<lambda>events.
    bindS (readS (\<lambda>s. if events = [] then read_policy_cache L base chan s
                      else derive_policy L chan events)) (\<lambda>cached.
    bindS (liftS (new_policy_events L t0 t1 chan signer action events cached)) (\<lambda>new.
    bindS (liftS (derive_policy L chan (events @ new))) (\<lambda>policy.
    bindS (append_policy_lines L base chan new) (\<lambda>_.
    bindS (write_policy_cache L base chan policy) (\<lambda>_.
    okS policy))))))))"

definition restrict_channel ::
  "'x policy_lib_scheme \<Rightarrow> i64 \<Rightarrow> i64 \<Rightarrow> string \<Rightarrow> channel_ref \<Rightarrow> keypair \<Rightarrow> channel_policy io" where
  "restrict_channel L t0 t1 base chan signer =
    append_policy_action L t0 t1 base chan signer (Restrict (public_key signer))"

definition grant_role ::
  "'x policy_lib_scheme \<Rightarrow> i64 \<Rightarrow> i64 \<Rightarrow> string \<Rightarrow> channel_ref \<Rightarrow> keypair \<Rightarrow> policy_role \<Rightarrow> string
    \<Rightarrow> channel_policy io" where
  "grant_role L t0 t1 base chan signer role key =
    append_policy_action L t0 t1 base chan signer (Grant role key)"

text \<open>\<open>raw\<close> is what the random source yields if a channel key is generated.\<close>

definition rotate_if ::
  "'x policy_lib_scheme \<Rightarrow> bytes \<Rightarrow> string \<Rightarrow> channel_ref \<Rightarrow> bool \<Rightarrow> unit io" where
  "rotate_if L raw base chan b =
    (if b then bindS (generate_channel_key L raw base (full_name chan)) (\<lambda>_. okS ()) else okS ())"

definition revoke_role ::
  "'x policy_lib_scheme \<Rightarrow> i64 \<Rightarrow> i64 \<Rightarrow> bytes \<Rightarrow> string \<Rightarrow> channel_ref \<Rightarrow> keypair \<Rightarrow> policy_role
    \<Rightarrow> string \<Rightarrow> channel_policy io" where
  "revoke_role L t0 t1 raw base chan signer role key =
    bindS (liftS (validate_public_key L key)) (\<lambda>_.
    bindS (readS (read_channel_policy L base chan)) (\<lambda>current.
    bindS (liftS (authorize_policy_change current (public_key signer) role)) (\<lambda>_.
    bindS (rotate_if L raw base chan (visibility current = Private)) (\<lambda>_.
    append_policy_action L t0 t1 base chan signer (Revoke role key)))))"

definition transfer_ownership ::
  "'x policy_lib_scheme \<Rightarrow> i64 \<Rightarrow> i64 \<Rightarrow> bytes \<Rightarrow> string \<Rightarrow> channel_ref \<Rightarrow> keypair \<Rightarrow> string
    \<Rightarrow> channel_policy io" where
  "transfer_ownership L t0 t1 raw base chan signer new_owner =
    bindS (liftS (validate_public_key L new_owner)) (\<lambda>_.
    bindS (readS (read_channel_policy L base chan)) (\<lambda>current.
    bindS (liftS (guardR (owner current = Some (public_key signer)) (Policy OnlyOwner))) (\<lambda>_.
    bindS (rotate_if L raw base chan (visibility current = Private)) (\<lambda>_.
    append_policy_action L t0 t1 base chan signer (TransferOwner new_owner)))))"

definition set_channel_visibility ::
  "'x policy_lib_scheme \<Rightarrow> i64 \<Rightarrow> i64 \<Rightarrow> bytes \<Rightarrow> string \<Rightarrow> channel_ref \<Rightarrow> keypair
    \<Rightarrow> channel_visibility \<Rightarrow> channel_policy io" where
  "set_channel_visibility L t0 t1 raw base chan signer v =
    bindS (readS (read_channel_policy L base chan)) (\<lambda>current.
    bindS (liftS (guardR (mode current = Restricted) (Policy NotRestricted))) (\<lambda>_.
    bindS (liftS (guardR (owner current = Some (public_key signer)) (Policy OnlyOwner))) (\<lambda>_.
    bindS (rotate_if L raw base chan (v = Private)) (\<lambda>_.
    append_policy_action L t0 t1 base chan signer (SetVisibility v)))))"

definition rebuild_policy_cache ::
  "'x policy_lib_scheme \<Rightarrow> string \<Rightarrow> channel_ref \<Rightarrow> channel_policy io" where
  "rebuild_policy_cache L base chan =
    bindS (readS (open_history_lock base chan)) (\<lambda>_.
    bindS (readS (read_policy_history_unlocked L base chan)) (\<lambda>events.
    bindS (liftS (derive_policy L chan events)) (\<lambda>policy.
    bindS (write_policy_cache L base chan policy) (\<lambda>_.
    okS policy))))"

section \<open>Histories received from peers\<close>

definition append_remote_policy_history ::
  "'x policy_lib_scheme \<Rightarrow> string \<Rightarrow> channel_ref \<Rightarrow> policy_event list \<Rightarrow> channel_policy io" where
  "append_remote_policy_history L base chan remote =
    bindS (readS (open_log base chan)) (\<lambda>_.
    bindS (readS (open_history_lock base chan)) (\<lambda>_.
    bindS (readS (read_policy_history_unlocked L base chan)) (\<lambda>local.
    bindS (liftS (validate_policy_history L chan remote)) (\<lambda>_.
    bindS (liftS (guardR (id_prefix pe_id local remote) (History NotAnExtension))) (\<lambda>_.
    bindS (if length remote > length local
           then append_policy_lines L base chan (drop (length local) remote)
           else okS ()) (\<lambda>_.
    bindS (liftS (derive_policy L chan remote)) (\<lambda>policy.
    bindS (write_policy_cache L base chan policy) (\<lambda>_.
    okS policy))))))))"

definition save_policy_conflict ::
  "'x policy_lib_scheme \<Rightarrow> string \<Rightarrow> channel_ref \<Rightarrow> policy_event list \<Rightarrow> string io" where
  "save_policy_conflict L base chan events =
    bindS (liftS (validate_policy_history L chan events)) (\<lambda>_.
    bindS (liftS (if events = [] then Inl (History EmptyConflict) else Inr (pe_id (last events)))) (\<lambda>head.
    let dir = policy_conflict_dir base chan in
    bindS (ensure_dir dir) (\<lambda>_.
    bindS (replace_file dir (conflict_file dir head) (write_lines (policy_event_json L) events)) (\<lambda>_.
    okS head))))"

definition file_stem :: "string \<Rightarrow> string" where
  "file_stem f =
    (let r = dropWhile (\<lambda>c. c \<noteq> CHR ''.'') (rev f) in
     if r = [] \<or> tl r = [] then f else rev (tl r))"

definition list_policy_conflicts :: "string \<Rightarrow> channel_ref \<Rightarrow> node_fs \<Rightarrow> string list" where
  "list_policy_conflicts base chan s =
    (let dir = policy_conflict_dir base chan in
     if \<not> dir_exists dir s then [] else sort (map file_stem (dir_files dir s)))"

definition read_policy_conflict ::
  "'x policy_lib_scheme \<Rightarrow> string \<Rightarrow> channel_ref \<Rightarrow> string \<Rightarrow> node_fs \<Rightarrow> policy_event list result" where
  "read_policy_conflict L base chan head s =
    bindR (read_file (conflict_file (policy_conflict_dir base chan) head) s) (\<lambda>bs.
    bindR (from_utf8 bs) (\<lambda>_.
    bindR (parse_policy_events L bs) (\<lambda>events.
    if last_id pe_id None events \<noteq> Some head then Inl (History ConflictHeadMismatch)
    else Inr events)))"

definition replace_policy_history ::
  "'x policy_lib_scheme \<Rightarrow> string \<Rightarrow> channel_ref \<Rightarrow> policy_event list \<Rightarrow> unit io" where
  "replace_policy_history L base chan events =
    replace_file (channel_dir base chan) (policy_log_path base chan)
      (write_lines (policy_event_json L) events)"

definition resolve_policy_conflict ::
  "'x policy_lib_scheme \<Rightarrow> string \<Rightarrow> channel_ref \<Rightarrow> string \<Rightarrow> channel_policy io" where
  "resolve_policy_conflict L base chan head =
    bindS (liftS (validate_public_key L head)) (\<lambda>_.
    bindS (readS (read_policy_conflict L base chan head)) (\<lambda>events.
    bindS (liftS (validate_policy_history L chan events)) (\<lambda>policy.
    bindS (readS (open_log base chan)) (\<lambda>_.
    bindS (readS (open_history_lock base chan)) (\<lambda>_.
    bindS (readS (read_policy_history_unlocked L base chan)) (\<lambda>current.
    bindS (if current \<noteq> [] \<and> last_id pe_id None current \<noteq> last_id pe_id None events
           then bindS (save_policy_conflict L base chan current) (\<lambda>_. okS ())
           else okS ()) (\<lambda>_.
    bindS (replace_policy_history L base chan events) (\<lambda>_.
    bindS (write_policy_cache L base chan policy) (\<lambda>_.
    okS policy)))))))))"

section \<open>Paths\<close>

lemma path_join_eq:
  assumes "f \<noteq> []" and "hd f \<noteq> CHR ''/''" and "g \<noteq> []" and "hd g \<noteq> CHR ''/''"
  shows "path_join x f = path_join x g \<longleftrightarrow> f = g"
  using assms by (auto simp: path_join_def)

lemma path_join_same:
  assumes "plain_file f" and "plain_file g"
  shows "path_join x f = path_join x g \<longleftrightarrow> f = g"
  using assms hd_in_set [of f] hd_in_set [of g] by (intro path_join_eq) (force simp: plain_file_def)+

lemma channel_paths [simp]:
  "policy_log_path base chan \<noteq> policy_path base chan"
  "policy_path base chan \<noteq> policy_log_path base chan"
  "keyring_path base (full_name chan) \<noteq> policy_log_path base chan"
  "keyring_path base (full_name chan) \<noteq> policy_path base chan"
  "policy_log_path base chan \<noteq> keyring_path base (full_name chan)"
  "policy_path base chan \<noteq> keyring_path base (full_name chan)"
  "log_path base chan \<noteq> policy_log_path base chan"
  "log_path base chan \<noteq> policy_path base chan"
  "log_path base chan \<noteq> keyring_path base (full_name chan)"
  "policy_log_path base chan \<noteq> log_path base chan"
  "policy_path base chan \<noteq> log_path base chan"
  by (simp_all add: policy_log_path_def policy_path_def log_path_def keyring_path_def
      channel_file_def path_join_same)

section \<open>What the policy files promise\<close>

definition policy_event_json_ok :: "'x policy_lib_scheme \<Rightarrow> bool" where
  "policy_event_json_ok L \<longleftrightarrow>
    (\<forall>e. policy_event_of_json L (policy_event_json L e) = Some e
      \<and> record_ok (policy_event_json L e) \<and> utf8_valid (policy_event_json L e)
      \<and> \<not> blank (policy_event_json L e))"

definition policy_json_ok :: "'x policy_lib_scheme \<Rightarrow> bool" where
  "policy_json_ok L \<longleftrightarrow>
    policy_event_json_ok L \<and> (\<forall>p. policy_of_json L (policy_json L p) = Some p)"

interpretation policy_file: event_file policy_event_json_ok policy_event_json policy_event_of_json
  by unfold_locales (auto simp: policy_event_json_ok_def)

text \<open>The history file ends with a newline, as every write of the program leaves it.\<close>

definition policy_log_complete :: "string \<Rightarrow> channel_ref \<Rightarrow> node_fs \<Rightarrow> bool" where
  "policy_log_complete base chan s \<longleftrightarrow>
    (case tget (files s) (policy_log_path base chan) of None \<Rightarrow> True | Some bs \<Rightarrow> complete_file bs)"

lemma complete_append: "complete_file a \<Longrightarrow> complete_file b \<Longrightarrow> complete_file (a @ b)"
  by (cases "b = []") (auto simp: complete_file_def)

lemma complete_written: "complete_file (write_lines ser es)"
  by (simp add: write_lines_def complete_ndjson)

lemma parse_policy_append:
  assumes "policy_event_json_ok L" and "complete_file bs" and "parse_policy_events L bs = Inr es"
  shows "parse_policy_events L (bs @ write_lines (policy_event_json L) new) = Inr (es @ new)"
  using assms(3) policy_file.parse_written [OF assms(1), of new]
  by (simp add: parse_policy_events_def byte_lines_append [OF assms(2)] parse_lines_append)

lemma parse_policy_written:
  "policy_event_json_ok L \<Longrightarrow> parse_policy_events L (write_lines (policy_event_json L) es) = Inr es"
  by (simp add: parse_policy_events_def policy_file.parse_written)

text \<open>What a successful read says: the parsed events of the file, and their derivation.\<close>

lemma read_unlocked_file:
  "tget (files s) (policy_log_path base chan) = Some bs \<Longrightarrow>
    read_policy_history_unlocked L base chan s = Inr es \<longleftrightarrow>
      parse_policy_events L bs = Inr es \<and> is_ok (derive_policy L chan es)"
  by (auto simp: read_policy_history_unlocked_def Let_def file_exists_def read_file_def bindR_ok is_ok_iff)

lemma read_unlocked_none:
  "tget (files s) (policy_log_path base chan) = None \<Longrightarrow> read_policy_history_unlocked L base chan s = Inr []"
  by (simp add: read_policy_history_unlocked_def file_exists_def)

lemma derive_policy_Nil [simp]: "derive_policy L chan [] = Inr default_policy"
  by (simp add: derive_policy_def)

lemma read_unlocked_derives:
  assumes "read_policy_history_unlocked L base chan s = Inr es"
  shows "is_ok (derive_policy L chan es)"
proof (cases "tget (files s) (policy_log_path base chan)")
  case None
  then show ?thesis using assms by (simp add: read_unlocked_none)
next
  case (Some bs)
  then show ?thesis using assms by (simp add: read_unlocked_file)
qed

lemma read_channel_policy_log:
  assumes "tget (files s) (policy_log_path base chan) = Some bs"
    and "dir_exists (channel_dir base chan) s"
    and "read_policy_history_unlocked L base chan s = Inr es"
  shows "read_channel_policy L base chan s = derive_policy L chan es"
  using assms by (simp add: read_channel_policy_def file_exists_def read_policy_history_def open_history_lock_def)

text \<open>Appending events to the history file.\<close>

lemma append_policy_lines_ok:
  assumes "policy_event_json_ok L" and "policy_log_complete base chan s"
    and "dir_exists (channel_dir base chan) s"
    and "read_policy_history_unlocked L base chan s = Inr es"
    and "derive_policy L chan (es @ new) = Inr p"
  shows "\<exists>s' bs. append_policy_lines L base chan new s = (Inr (), s')
    \<and> tget (files s') (policy_log_path base chan) = Some bs
    \<and> read_policy_history_unlocked L base chan s' = Inr (es @ new)
    \<and> policy_log_complete base chan s'
    \<and> same_outside {policy_log_path base chan} s s'"
proof -
  let ?p = "policy_log_path base chan" and ?w = "write_lines (policy_event_json L) new"
  have *: "\<exists>old. tget (files s) ?p = old \<and> complete_file (case old of None \<Rightarrow> [] | Some b \<Rightarrow> b)
      \<and> parse_policy_events L (case old of None \<Rightarrow> [] | Some b \<Rightarrow> b) = Inr es"
    using assms(2,4)
    by (cases "tget (files s) ?p")
       (auto simp: policy_log_complete_def read_unlocked_none read_unlocked_file
          parse_policy_events_def complete_file_def)
  then obtain old where old: "tget (files s) ?p = old"
      "complete_file (case old of None \<Rightarrow> [] | Some b \<Rightarrow> b)"
      "parse_policy_events L (case old of None \<Rightarrow> [] | Some b \<Rightarrow> b) = Inr es"
    by blast
  let ?bs = "(case old of None \<Rightarrow> [] | Some b \<Rightarrow> b) @ ?w"
  define s' where "s' = snd (append_policy_lines L base chan new s)"
  have run: "append_policy_lines L base chan new s = (Inr (), s')"
    and written: "tget (files s') ?p = Some ?bs"
    using old(1) assms(3)
    by (auto simp: s'_def append_policy_lines_def bindS_def open_append_def file_exists_def
        append_file_def split: option.splits)
  have "parse_policy_events L ?bs = Inr (es @ new)"
    using parse_policy_append [OF assms(1) old(2,3)] .
  then have "read_policy_history_unlocked L base chan s' = Inr (es @ new)"
    using written assms(5) by (simp add: read_unlocked_file)
  moreover have "policy_log_complete base chan s'"
    using written complete_append [OF old(2) complete_written] by (simp add: policy_log_complete_def)
  moreover have "writes_only {?p} (append_policy_lines L base chan new)"
    unfolding append_policy_lines_def by (intro frame_intros) simp_all
  ultimately show ?thesis
    using run written writes_onlyD by blast
qed

lemma write_policy_cache_ok:
  assumes "dir_exists (channel_dir base chan) s"
  shows "\<exists>s'. write_policy_cache L base chan p s = (Inr (), s')
    \<and> tget (files s') (policy_path base chan) = Some (policy_json L p)
    \<and> same_outside {policy_path base chan} s s'"
proof -
  have "writes_only {policy_path base chan} (write_policy_cache L base chan p)"
    unfolding write_policy_cache_def by (intro frame_intros) simp
  moreover obtain s' where run: "write_policy_cache L base chan p s = (Inr (), s')"
    and "tget (files s') (policy_path base chan) = Some (policy_json L p)"
    using assms by (simp add: write_policy_cache_def replace_file_def)
  ultimately show ?thesis using writes_onlyD by blast
qed

lemma same_outside_unlocked:
  assumes "same_outside P s t" and "policy_log_path base chan \<notin> P"
  shows "read_policy_history_unlocked L base chan t = read_policy_history_unlocked L base chan s"
    and "policy_log_complete base chan t = policy_log_complete base chan s"
  using assms
  by (simp_all add: read_policy_history_unlocked_def Let_def file_exists_def read_file_def
      policy_log_complete_def same_outside_def)

lemma same_outside_policy:
  assumes "same_outside P s t" and "policy_log_path base chan \<notin> P" and "policy_path base chan \<notin> P"
  shows "read_channel_policy L base chan t = read_channel_policy L base chan s"
proof -
  have "read_policy_cache L base chan t = read_policy_cache L base chan s"
    "file_exists (policy_log_path base chan) t = file_exists (policy_log_path base chan) s"
    "open_history_lock base chan t = open_history_lock base chan s"
    using assms by (simp_all add: read_policy_cache_def Let_def open_history_lock_def file_exists_def
        read_file_def dir_exists_def same_outside_def)
  then show ?thesis
    by (simp add: read_channel_policy_def read_policy_history_def same_outside_unlocked [OF assms(1,2)])
qed

text \<open>The common end of an append: extend the history, then replace the cache.\<close>

definition policy_written ::
  "'x policy_lib_scheme \<Rightarrow> string \<Rightarrow> channel_ref \<Rightarrow> policy_event list \<Rightarrow> channel_policy \<Rightarrow> node_fs \<Rightarrow> bool"
where
  "policy_written L base chan es p s \<longleftrightarrow>
    read_policy_history L base chan s = Inr es
    \<and> read_channel_policy L base chan s = Inr p
    \<and> tget (files s) (policy_path base chan) = Some (policy_json L p)
    \<and> policy_log_complete base chan s"

lemma extend_history_ok:
  assumes "policy_event_json_ok L" and "policy_log_complete base chan s"
    and "dir_exists (channel_dir base chan) s"
    and "read_policy_history_unlocked L base chan s = Inr es"
    and "derive_policy L chan (es @ new) = Inr p"
  shows "\<exists>s1 s2. append_policy_lines L base chan new s = (Inr (), s1)
    \<and> write_policy_cache L base chan p s1 = (Inr (), s2)
    \<and> policy_written L base chan (es @ new) p s2
    \<and> same_outside {policy_log_path base chan, policy_path base chan} s s2"
proof -
  let ?l = "policy_log_path base chan" and ?c = "policy_path base chan"
  obtain s1 bs where s1: "append_policy_lines L base chan new s = (Inr (), s1)"
      "tget (files s1) ?l = Some bs" "read_policy_history_unlocked L base chan s1 = Inr (es @ new)"
      "policy_log_complete base chan s1" "same_outside {?l} s s1"
    using append_policy_lines_ok [OF assms] by blast
  have d1: "dir_exists (channel_dir base chan) s1"
    using s1(5) assms(3) by (simp add: same_outside_dir)
  obtain s2 where s2: "write_policy_cache L base chan p s1 = (Inr (), s2)"
      "tget (files s2) ?c = Some (policy_json L p)" "same_outside {?c} s1 s2"
    using write_policy_cache_ok [OF d1] by blast
  have u: "read_policy_history_unlocked L base chan s2 = Inr (es @ new)" "policy_log_complete base chan s2"
    using same_outside_unlocked(1) [OF s2(3), of base chan L] same_outside_unlocked(2) [OF s2(3), of base chan]
      s1(3,4) by simp_all
  have d2: "dir_exists (channel_dir base chan) s2"
    using s2(3) d1 by (simp add: same_outside_dir)
  have "tget (files s2) ?l = Some bs"
    using s2(3) s1(2) by (simp add: same_outside_def)
  then have "read_channel_policy L base chan s2 = Inr p"
    using read_channel_policy_log [OF _ d2 u(1)] assms(5) by simp
  moreover have "read_policy_history L base chan s2 = Inr (es @ new)"
    using u(1) d2 by (simp add: read_policy_history_def open_history_lock_def)
  moreover have "same_outside {?l, ?c} s s2"
    using same_outside_trans [OF same_outside_mono [OF s1(5)] same_outside_mono [OF s2(3)], of "{?l, ?c}"]
    by simp
  ultimately show ?thesis
    using s1(1) s2(1,2) u(2) unfolding policy_written_def by blast
qed

section \<open>Appending an action\<close>

lemma bindS_eq:
  "(\<And>x t. f x t = g x t) \<Longrightarrow> bindS m f s = bindS m g s"
  by (simp add: bindS_def split: prod.splits sum.splits)

lemma new_policy_events_ok:
  assumes "new_policy_events L t0 t1 chan signer action es cached = Inr new"
  shows "new \<noteq> [] \<and> pe_action (last new) = action \<and> pe_actor (last new) = public_key signer"
  using assms
  by (auto simp: new_policy_events_def sign_policy_event_def Let_def bindR_ok split: if_splits)

lemma append_policy_action_result:
  assumes "policy_json_ok L" and "policy_log_complete base chan s"
    and "append_policy_action L t0 t1 base chan signer action s = (r, s')"
  shows "case r of
      Inl err \<Rightarrow> s' = s
    | Inr p \<Rightarrow> \<exists>es new. read_policy_history L base chan s = Inr es
        \<and> new \<noteq> [] \<and> pe_action (last new) = action \<and> pe_actor (last new) = public_key signer
        \<and> derive_policy L chan (es @ new) = Inr p
        \<and> policy_written L base chan (es @ new) p s'
        \<and> same_outside {policy_log_path base chan, policy_path base chan} s s'"
proof -
  define cached where "cached es = (if es = [] then read_policy_cache L base chan s
      else derive_policy L chan es)" for es
  define pre where "pre = bindR (open_log base chan s) (\<lambda>_.
      bindR (open_history_lock base chan s) (\<lambda>_.
      bindR (read_policy_history_unlocked L base chan s) (\<lambda>es.
      bindR (cached es) (\<lambda>c.
      bindR (new_policy_events L t0 t1 chan signer action es c) (\<lambda>new.
      bindR (derive_policy L chan (es @ new)) (\<lambda>p. Inr (es, new, p)))))))"
  have split: "append_policy_action L t0 t1 base chan signer action s =
      (case pre of Inl e \<Rightarrow> (Inl e, s)
       | Inr (es, new, p) \<Rightarrow> bindS (append_policy_lines L base chan new) (\<lambda>_.
           bindS (write_policy_cache L base chan p) (\<lambda>_. okS p)) s)"
    unfolding append_policy_action_def pre_def cached_def bindS_readS bindS_liftS
    by (auto split: sum.splits)
  show ?thesis
  proof (cases pre)
    case (Inl e)
    then show ?thesis using split assms(3) by simp
  next
    case (Inr x)
    obtain es new p where x: "x = (es, new, p)" by (cases x)
    have parts: "open_history_lock base chan s = Inr ()"
      "read_policy_history_unlocked L base chan s = Inr es"
      "\<exists>c. new_policy_events L t0 t1 chan signer action es c = Inr new"
      "derive_policy L chan (es @ new) = Inr p"
      using Inr x by (auto simp: pre_def bindR_ok)
    then have dir: "dir_exists (channel_dir base chan) s"
      by (simp add: open_history_lock_def guardR_ok)
    have "policy_event_json_ok L" using assms(1) by (simp add: policy_json_ok_def)
    from extend_history_ok [OF this assms(2) dir parts(2,4)]
    obtain s1 s2 where w: "append_policy_lines L base chan new s = (Inr (), s1)"
      "write_policy_cache L base chan p s1 = (Inr (), s2)" "policy_written L base chan (es @ new) p s2"
      "same_outside {policy_log_path base chan, policy_path base chan} s s2"
      by blast
    have "r = Inr p" "s' = s2"
      using split assms(3) Inr x w(1,2) by (simp_all add: bindS_def okS_def)
    moreover have "read_policy_history L base chan s = Inr es"
      using parts(1,2) by (simp add: read_policy_history_def)
    ultimately show ?thesis
      using w(3,4) parts(3,4) new_policy_events_ok by fastforce
  qed
qed

text \<open>C4. A policy action is one atomic extension of the signed history: if it is refused, nothing on
  disk changes; if it succeeds, the history on disk is the old one followed by the newly signed events (the
  last of which is the requested action by the signer), the policy read back is the one returned, the
  cache holds it, and no other file changed.\<close>

theorem append_policy_action_atomic:
  assumes "policy_json_ok L" and "policy_log_complete base chan s"
    and "append_policy_action L t0 t1 base chan signer action s = (r, s')"
  shows "case r of
      Inl err \<Rightarrow> s' = s
    | Inr p \<Rightarrow> \<exists>es new. read_policy_history L base chan s = Inr es
        \<and> new \<noteq> [] \<and> pe_action (last new) = action \<and> pe_actor (last new) = public_key signer
        \<and> derive_policy L chan (es @ new) = Inr p
        \<and> policy_written L base chan (es @ new) p s'
        \<and> same_outside {policy_log_path base chan, policy_path base chan} s s'"
  by (rule append_policy_action_result [OF assms])

section \<open>Key rotation before an action\<close>

lemma generate_channel_key_current:
  assumes "keyring_json_ok L" and "generate_channel_key L raw base c s = (Inr key, s1)"
  shows "key = \<lparr>ck_id = content_id L raw, ck_key = b64_encode L raw\<rparr>
    \<and> current_channel_key L base c s1 = Inr key
    \<and> (\<forall>old. load_keys L base c s = Inr old \<longrightarrow> (\<exists>new. load_keys L base c s1 = Inr new
         \<and> set (map ck_id old) \<subseteq> set (map ck_id new)))"
proof -
  obtain keys where k: "load_keys L base c s = Inr keys"
    and key: "key = \<lparr>ck_id = content_id L raw, ck_key = b64_encode L raw\<rparr>"
    and save: "save_keys L base c (filter (\<lambda>k. ck_id k \<noteq> ck_id key) keys @ [key]) s = (Inr (), s1)"
    by (rule generate_channel_key_ok [OF assms(2)])
  have "load_keys L base c s1 = Inr (filter (\<lambda>k. ck_id k \<noteq> ck_id key) keys @ [key])"
    using load_after_save [OF assms(1) save] .
  then show ?thesis
    using k key by (auto simp: current_channel_key_def)
qed

lemma same_outside_keys:
  "same_outside P s t \<Longrightarrow> keyring_path base c \<notin> P \<Longrightarrow>
    load_keys L base c t = load_keys L base c s
    \<and> current_channel_key L base c t = current_channel_key L base c s"
  by (simp add: current_channel_key_def load_keys_def Let_def file_exists_def read_file_def same_outside_def)

lemma rotate_if_frame: "writes_only {keyring_path base (full_name chan)} (rotate_if L raw base chan b)"
  unfolding rotate_if_def by (intro frame_intros) simp_all

lemma revoked_member:
  assumes "derive_policy L chan (es @ new) = Inr p" and "new \<noteq> []" and "pe_action (last new) = Revoke role k"
  shows "k \<notin> set (members role p)"
proof -
  have "derive_policy L chan ((es @ butlast new) @ [last new]) = Inr p"
    using assms(1,2) by simp
  then obtain q i where "policy_step L chan q i (last new) = Inr p"
    unfolding derive_policy_snoc by (auto simp: bindR_ok)
  from policy_step_apply [OF this] show ?thesis
    unfolding assms(3) by (auto simp: bindR_ok)
qed

text \<open>The shape the three key-rotating operations share: a guard on the current policy, a rotation, an
  append.\<close>

lemma rotate_then_append:
  assumes "policy_json_ok L" and "policy_log_complete base chan s" and "keyring_json_ok L"
    and "bindS (rotate_if L raw base chan b) (\<lambda>_.
      append_policy_action L t0 t1 base chan signer action) s = (r, s')"
  shows "case r of
      Inl err \<Rightarrow> same_outside {keyring_path base (full_name chan)} s s'
    | Inr p \<Rightarrow> read_channel_policy L base chan s' = Inr p
        \<and> (\<exists>es new. read_policy_history L base chan s = Inr es
            \<and> read_policy_history L base chan s' = Inr (es @ new) \<and> new \<noteq> []
            \<and> pe_action (last new) = action \<and> derive_policy L chan (es @ new) = Inr p)
        \<and> (b \<longrightarrow> current_channel_key L base (full_name chan) s' =
              Inr \<lparr>ck_id = content_id L raw, ck_key = b64_encode L raw\<rparr>)"
proof -
  let ?k = "keyring_path base (full_name chan)"
  let ?P = "{policy_log_path base chan, policy_path base chan}"
  obtain r1 s1 where rot: "rotate_if L raw base chan b s = (r1, s1)"
    by (cases "rotate_if L raw base chan b s")
  have so: "same_outside {?k} s s1"
    using writes_onlyD [OF rotate_if_frame rot] .
  show ?thesis
  proof (cases r1)
    case (Inl e)
    then have "r = Inl e" "s' = s1"
      using rot assms(4) by (simp_all add: bindS_def)
    then show ?thesis using so by simp
  next
    case (Inr u)
    then have app: "append_policy_action L t0 t1 base chan signer action s1 = (r, s')"
      using rot assms(4) by (simp add: bindS_def)
    have c1: "policy_log_complete base chan s1"
      using assms(2) by (simp add: same_outside_unlocked(2) [OF so])
    have h1: "read_policy_history L base chan s1 = read_policy_history L base chan s"
      using so by (simp add: read_policy_history_def open_history_lock_def same_outside_dir
        same_outside_unlocked(1) [OF so])
    have cur: "b \<longrightarrow> current_channel_key L base (full_name chan) s1 =
        Inr \<lparr>ck_id = content_id L raw, ck_key = b64_encode L raw\<rparr>"
      using rot Inr generate_channel_key_current [OF assms(3), of raw base "full_name chan" s]
      by (fastforce simp: rotate_if_def runS_ok)
    show ?thesis
    proof (cases r)
      case (Inl e)
      then have "s' = s1" using append_policy_action_result [OF assms(1) c1 app] by simp
      then show ?thesis using Inl so by simp
    next
      case r: (Inr p)
      with append_policy_action_result [OF assms(1) c1 app] obtain es new where
        "read_policy_history L base chan s1 = Inr es" "new \<noteq> []" "pe_action (last new) = action"
        "derive_policy L chan (es @ new) = Inr p" "policy_written L base chan (es @ new) p s'"
        and so2: "same_outside ?P s1 s'"
        by auto
      moreover have "current_channel_key L base (full_name chan) s' = current_channel_key L base (full_name chan) s1"
        by (simp add: same_outside_keys [OF so2])
      ultimately show ?thesis
        using r h1 cur by (auto simp: policy_written_def)
    qed
  qed
qed

lemma revoke_role_result:
  assumes "policy_json_ok L" and "policy_log_complete base chan s" and "keyring_json_ok L"
    and "read_channel_policy L base chan s = Inr p0"
    and "revoke_role L t0 t1 raw base chan signer role k s = (r, s')"
  shows "case r of
      Inl err \<Rightarrow> same_outside {keyring_path base (full_name chan)} s s'
        \<and> (\<not> is_ok (authorize_policy_change p0 (public_key signer) role) \<longrightarrow> s' = s)
    | Inr p \<Rightarrow> is_ok (authorize_policy_change p0 (public_key signer) role)
        \<and> read_channel_policy L base chan s' = Inr p \<and> k \<notin> set (members role p)
        \<and> (visibility p0 = Private \<longrightarrow> current_channel_key L base (full_name chan) s' =
              Inr \<lparr>ck_id = content_id L raw, ck_key = b64_encode L raw\<rparr>)"
proof (cases "validate_public_key L k")
  case (Inl e)
  then show ?thesis using assms(5) by (auto simp: revoke_role_def bindS_liftS)
next
  case v: (Inr u)
  show ?thesis
  proof (cases "authorize_policy_change p0 (public_key signer) role")
    case (Inl e)
    then show ?thesis using assms(4,5) v by (auto simp: revoke_role_def bindS_liftS bindS_readS)
  next
    case (Inr u')
    then have "bindS (rotate_if L raw base chan (visibility p0 = Private)) (\<lambda>_.
        append_policy_action L t0 t1 base chan signer (Revoke role k)) s = (r, s')"
      using assms(4,5) v by (simp add: revoke_role_def bindS_liftS bindS_readS)
    from rotate_then_append [OF assms(1-3) this] show ?thesis
      using Inr revoked_member by (cases r) (simp, fastforce)
  qed
qed

lemma sealed_under_current:
  assumes "crypto_ok L" and "length raw = 32"
    and "current_channel_key L base c s = Inr \<lparr>ck_id = content_id L raw, ck_key = b64_encode L raw\<rparr>"
    and "encrypt_message L nonce base c m s = Inr m'"
  shows "sealed L (content_id L raw) raw nonce c m m'"
  using assms decode_key_encode [of L raw "content_id L raw"]
  by (auto simp: encrypt_message_sealed crypto_ok_def)


section \<open>Histories received from peers\<close>

lemma read_cache_default:
  assumes "policy_json_ok L" and "tget (files s) (policy_path base chan) = Some (policy_json L default_policy)"
  shows "read_policy_cache L base chan s = Inr default_policy"
  using assms
  by (simp add: read_policy_cache_def file_exists_def read_file_def policy_json_ok_def
      default_policy_def validate_keys_def)

lemma rewrite_cache_ok:
  assumes "policy_json_ok L" and "policy_log_complete base chan s"
    and "dir_exists (channel_dir base chan) s"
    and "read_policy_history_unlocked L base chan s = Inr es" and "derive_policy L chan es = Inr p"
  shows "\<exists>s'. write_policy_cache L base chan p s = (Inr (), s') \<and> policy_written L base chan es p s'
    \<and> same_outside {policy_path base chan} s s'"
proof -
  let ?l = "policy_log_path base chan"
  obtain s' where w: "write_policy_cache L base chan p s = (Inr (), s')"
      "tget (files s') (policy_path base chan) = Some (policy_json L p)"
      "same_outside {policy_path base chan} s s'"
    using write_policy_cache_ok [OF assms(3)] by blast
  have h: "read_policy_history_unlocked L base chan s' = Inr es" "policy_log_complete base chan s'"
    using assms(2,4) by (simp_all add: same_outside_unlocked [OF w(3)])
  have d: "dir_exists (channel_dir base chan) s'"
    using w(3) assms(3) by (simp add: same_outside_dir)
  have "read_channel_policy L base chan s' = Inr p"
  proof (cases "tget (files s') ?l")
    case None
    then have "es = []" using h(1) by (simp add: read_unlocked_none)
    then have "p = default_policy" using assms(5) by simp
    then show ?thesis
      using read_cache_default [OF assms(1)] w(2) None by (simp add: read_channel_policy_def file_exists_def)
  next
    case (Some bs)
    then show ?thesis using read_channel_policy_log [OF Some d h(1)] assms(5) by simp
  qed
  moreover have "read_policy_history L base chan s' = Inr es"
    using h(1) d by (simp add: read_policy_history_def open_history_lock_def)
  ultimately show ?thesis
    using w h(2) unfolding policy_written_def by blast
qed

text \<open>Two valid histories with the same ids derive the same policy, unless two payloads collide under
  the hash.\<close>

definition no_policy_collision ::
  "'x policy_lib_scheme \<Rightarrow> policy_event list \<Rightarrow> policy_event list \<Rightarrow> bool" where
  "no_policy_collision L es fs \<longleftrightarrow>
    (\<forall>a \<in> set es. \<forall>b \<in> set fs.
      content_id L (policy_payload_json L (event_payload a)) =
      content_id L (policy_payload_json L (event_payload b)) \<longrightarrow> event_payload a = event_payload b)"

lemma same_ids_same_policy:
  assumes "no_policy_collision L es fs" and "map pe_id es = map pe_id fs"
    and "replay_policy L chan st q es = Inr p" and "replay_policy L chan st q fs = Inr p'"
  shows "p = p'"
  using assms
proof (induction es arbitrary: st q fs)
  case Nil
  then show ?case by simp
next
  case (Cons e es)
  then obtain f fs' where fs: "fs = f # fs'" "pe_id e = pe_id f" "map pe_id es = map pe_id fs'"
    by auto
  obtain s1 s2 where s: "policy_step L chan st q e = Inr s1" "replay_policy L chan s1 (Some (pe_id e)) es = Inr p"
      "policy_step L chan st q f = Inr s2" "replay_policy L chan s2 (Some (pe_id f)) fs' = Inr p'"
    using Cons.prems(3,4) fs(1) by (auto simp: bindR_ok)
  have "event_payload e = event_payload f"
    using Cons.prems(1) s(1,3) fs(1,2) by (auto simp: no_policy_collision_def policy_step_ok)
  then have "pe_actor e = pe_actor f" "pe_action e = pe_action f"
    by (simp_all add: event_payload_def)
  then have "s1 = s2"
    using policy_step_apply [OF s(1)] policy_step_apply [OF s(3)] by simp
  moreover have "no_policy_collision L es fs'"
    using Cons.prems(1) fs(1) by (simp add: no_policy_collision_def)
  ultimately show ?case
    using Cons.IH s(2,4) fs(2,3) by metis
qed

lemma merged_history:
  assumes "no_policy_collision L loc rem" and "id_prefix pe_id loc rem"
    and "is_ok (derive_policy L chan loc)" and "derive_policy L chan rem = Inr p"
  shows "derive_policy L chan (loc @ drop (length loc) rem) = Inr p
    \<and> map pe_id (loc @ drop (length loc) rem) = map pe_id rem"
proof -
  let ?n = "length loc"
  have split: "rem = take ?n rem @ drop ?n rem" by simp
  have ids: "map pe_id loc = map pe_id (take ?n rem)"
    using assms(2) by (simp add: id_prefix_map take_map)
  obtain q where q: "derive_policy L chan loc = Inr q"
    using assms(3) by (auto simp: is_ok_iff)
  have "derive_policy L chan (take ?n rem @ drop ?n rem) = Inr p"
    using assms(4) by simp
  then obtain q' where q': "derive_policy L chan (take ?n rem) = Inr q'"
      "replay_policy L chan q' (last_id pe_id None (take ?n rem)) (drop ?n rem) = Inr p"
    unfolding derive_policy_append by (auto simp: bindR_ok)
  have "no_policy_collision L loc (take ?n rem)"
    using assms(1) in_set_takeD by (fastforce simp: no_policy_collision_def)
  then have "q = q'"
    using same_ids_same_policy [OF _ ids] q q'(1) by (simp add: derive_policy_def)
  moreover have "last_id pe_id None loc = last_id pe_id None (take ?n rem)"
    using ids unfolding last_id_def by (metis last_map map_is_Nil_conv)
  ultimately have "derive_policy L chan (loc @ drop ?n rem) = Inr p"
    using q q'(2) by (simp add: derive_policy_append)
  moreover have "map pe_id (loc @ drop ?n rem) = map pe_id rem"
    using ids split by (metis map_append)
  ultimately show ?thesis by blast
qed

lemma append_remote_result:
  assumes "policy_json_ok L" and "policy_log_complete base chan s"
    and "\<And>loc. read_policy_history L base chan s = Inr loc \<Longrightarrow> no_policy_collision L loc rem"
    and "append_remote_policy_history L base chan rem s = (r, s')"
  shows "case r of
      Inl err \<Rightarrow> s' = s
    | Inr p \<Rightarrow> \<exists>loc. read_policy_history L base chan s = Inr loc \<and> id_prefix pe_id loc rem
        \<and> derive_policy L chan rem = Inr p
        \<and> policy_written L base chan (loc @ drop (length loc) rem) p s'
        \<and> map pe_id (loc @ drop (length loc) rem) = map pe_id rem
        \<and> same_outside {policy_log_path base chan, policy_path base chan} s s'"
proof -
  define pre where "pre = bindR (open_log base chan s) (\<lambda>_.
      bindR (open_history_lock base chan s) (\<lambda>_.
      bindR (read_policy_history_unlocked L base chan s) (\<lambda>loc.
      bindR (derive_policy L chan rem) (\<lambda>p.
      bindR (guardR (id_prefix pe_id loc rem) (History NotAnExtension)) (\<lambda>_. Inr (loc, p))))))"
  have split: "append_remote_policy_history L base chan rem s =
      (case pre of Inl e \<Rightarrow> (Inl e, s)
       | Inr (loc, p) \<Rightarrow> bindS (if length rem > length loc
             then append_policy_lines L base chan (drop (length loc) rem) else okS ()) (\<lambda>_.
           bindS (write_policy_cache L base chan p) (\<lambda>_. okS p)) s)"
    unfolding append_remote_policy_history_def pre_def bindS_readS bindS_liftS validate_policy_history_def
    by (cases "derive_policy L chan rem") (auto simp: bindS_liftS split: sum.splits)
  show ?thesis
  proof (cases pre)
    case (Inl e)
    then show ?thesis using split assms(4) by simp
  next
    case (Inr x)
    obtain loc p where x: "x = (loc, p)" by (cases x)
    have parts: "open_history_lock base chan s = Inr ()"
      "read_policy_history_unlocked L base chan s = Inr loc"
      "derive_policy L chan rem = Inr p" "id_prefix pe_id loc rem"
      using Inr x by (auto simp: pre_def bindR_ok guardR_ok)
    then have dir: "dir_exists (channel_dir base chan) s"
      by (simp add: open_history_lock_def guardR_ok)
    have hist: "read_policy_history L base chan s = Inr loc"
      using parts(1,2) by (simp add: read_policy_history_def)
    have merged: "derive_policy L chan (loc @ drop (length loc) rem) = Inr p"
      "map pe_id (loc @ drop (length loc) rem) = map pe_id rem"
      using merged_history [OF assms(3) [OF hist] parts(4) read_unlocked_derives [OF parts(2)] parts(3)]
      by simp_all
    have "r = Inr p \<and> policy_written L base chan (loc @ drop (length loc) rem) p s'
        \<and> same_outside {policy_log_path base chan, policy_path base chan} s s'"
    proof (cases "length rem > length loc")
      case True
      have "policy_event_json_ok L" using assms(1) by (simp add: policy_json_ok_def)
      from extend_history_ok [OF this assms(2) dir parts(2) merged(1)] show ?thesis
        using split assms(4) Inr x True by (auto simp: bindS_def okS_def)
    next
      case False
      then have nil: "drop (length loc) rem = []" by simp
      have "derive_policy L chan loc = Inr p" using merged(1) nil by simp
      from rewrite_cache_ok [OF assms(1,2) dir parts(2) this] obtain s2 where
        "write_policy_cache L base chan p s = (Inr (), s2)" "policy_written L base chan loc p s2"
        "same_outside {policy_path base chan} s s2" by blast
      then show ?thesis
        using split assms(4) Inr x False same_outside_mono [of "{policy_path base chan}" s s2]
        by (auto simp: bindS_def okS_def)
    qed
    then show ?thesis
      using hist parts(3,4) merged(2) by auto
  qed
qed

text \<open>C23. A history received from a peer is taken over only if it is valid and continues the local one
  event for event; then the history on disk keeps every local event, has exactly the peer's ids and
  derives the returned policy. Anything else leaves the node's files untouched. (The two histories are
  assumed free of hash collisions.)\<close>

theorem append_remote_extends:
  assumes "policy_json_ok L" and "policy_log_complete base chan s"
    and "\<And>loc. read_policy_history L base chan s = Inr loc \<Longrightarrow> no_policy_collision L loc rem"
    and "append_remote_policy_history L base chan rem s = (r, s')"
  shows "case r of
      Inl err \<Rightarrow> s' = s
    | Inr p \<Rightarrow> \<exists>loc. read_policy_history L base chan s = Inr loc \<and> id_prefix pe_id loc rem
        \<and> derive_policy L chan rem = Inr p
        \<and> policy_written L base chan (loc @ drop (length loc) rem) p s'
        \<and> map pe_id (loc @ drop (length loc) rem) = map pe_id rem
        \<and> same_outside {policy_log_path base chan, policy_path base chan} s s'"
  by (rule append_remote_result [OF assms])

text \<open>C37. A channel restricted by a legacy \<open>policy.json\<close> without signed history loses its restriction
  when a peer's empty policy history is taken over: the call succeeds, and the policy read back is the
  open default, under which every key may append.\<close>

theorem empty_remote_history_opens_legacy:
  assumes "policy_json_ok L" and "is_ok (open_log base chan s)"
    and "dir_exists (channel_dir base chan) s" and "\<not> file_exists (policy_log_path base chan) s"
  shows "\<exists>s'. append_remote_policy_history L base chan [] s = (Inr default_policy, s')
    \<and> read_channel_policy L base chan s' = Inr default_policy
    \<and> policy_allows_append default_policy k"
proof -
  obtain log where log: "open_log base chan s = Inr log" using assms(2) by (auto simp: is_ok_iff)
  have none: "tget (files s) (policy_log_path base chan) = None"
    using assms(4) by (simp add: file_exists_def)
  then have "policy_log_complete base chan s" by (simp add: policy_log_complete_def)
  from rewrite_cache_ok [OF assms(1) this assms(3) read_unlocked_none [OF none] derive_policy_Nil]
  obtain s' where w: "write_policy_cache L base chan default_policy s = (Inr (), s')"
    "policy_written L base chan [] default_policy s'" by blast
  have "append_remote_policy_history L base chan [] s = (Inr default_policy, s')"
    using log assms(3)
    by (simp add: append_remote_policy_history_def bindS_readS bindS_liftS open_history_lock_def
        read_unlocked_none [OF none] validate_policy_history_def id_prefix_def
        bindS_step [where m = "write_policy_cache L base chan default_policy", OF w(1)])
       (simp add: okS_def)
  then show ?thesis
    using w(2) by (simp add: policy_written_def policy_allows_append_def default_policy_def)
qed

end
