(* ===== verification/Policy_Conflicts.thy ===== *)
theory Policy_Conflicts
  imports Policy_Store
begin

text \<open>
  Saved policy forks: what \<open>save_policy_conflict\<close>, \<open>list_policy_conflicts\<close> and
  \<open>resolve_policy_conflict\<close> of \<open>src/store.rs\<close> guarantee. A fork that is saved can be read back and
  resolved; resolving installs exactly the chosen history and keeps the displaced one as a fork, so
  no signed event is ever lost.
\<close>

section \<open>Names of conflict files\<close>

text \<open>\<open>hex::encode\<close> writes lower-case hexadecimal digits.\<close>

definition hex_chars :: string where
  "hex_chars = ''0123456789abcdef''"

definition hex_alphabet :: "'x crypto_lib_scheme \<Rightarrow> bool" where
  "hex_alphabet L \<longleftrightarrow> (\<forall>bs. list_all (\<lambda>c. c \<in> set hex_chars) (hex_encode L bs))"

lemma hex_alphabet_id: "hex_alphabet L \<Longrightarrow> list_all (\<lambda>c. c \<in> set hex_chars) (content_id L m)"
  by (simp add: hex_alphabet_def content_id_def)

lemma hex_head:
  assumes "list_all (\<lambda>c. c \<in> set hex_chars) h"
  shows "h @ ''.ndjson'' \<noteq> [] \<and> hd (h @ ''.ndjson'') \<noteq> CHR ''/''"
  using assms by (cases h) (auto simp: hex_chars_def)

lemma path_join_assoc:
  assumes "d \<noteq> []" and "hd d \<noteq> CHR ''/''" and "last d \<noteq> CHR ''/''"
    and "f \<noteq> []" and "hd f \<noteq> CHR ''/''"
  shows "path_join (path_join x d) f = path_join x (d @ CHR ''/'' # f)"
  using assms by (auto simp: path_join_def)

lemma conflict_path:
  assumes "list_all (\<lambda>c. c \<in> set hex_chars) h"
  shows "conflict_file (policy_conflict_dir base chan) h =
    path_join (channel_to_path base (full_name chan)) (''policy-conflicts/'' @ h @ ''.ndjson'')"
  using hex_head [OF assms] path_join_assoc [of "''policy-conflicts''" "h @ ''.ndjson''"]
  by (simp add: conflict_file_def policy_conflict_dir_def channel_file_def)

lemma conflict_paths:
  assumes "list_all (\<lambda>c. c \<in> set hex_chars) h"
  shows "conflict_file (policy_conflict_dir base chan) h \<noteq> policy_log_path base chan"
    and "conflict_file (policy_conflict_dir base chan) h \<noteq> policy_path base chan"
    and "conflict_file (policy_conflict_dir base chan) h \<noteq> keyring_path base (full_name chan)"
  unfolding conflict_path [OF assms] policy_log_path_def policy_path_def keyring_path_def channel_file_def
  by (subst path_join_eq; simp)+

section \<open>Saving\<close>

lemma path_ancestors_self: "d \<noteq> [] \<Longrightarrow> d \<in> set (path_ancestors d)"
  by (force simp: path_ancestors_def)

lemma conflict_dir_nonempty: "policy_conflict_dir base chan \<noteq> []"
  by (auto simp: policy_conflict_dir_def channel_file_def path_join_def)

text \<open>What survives every operation that only adds directories and files other than these.\<close>

definition extends_outside :: "string set \<Rightarrow> node_fs \<Rightarrow> node_fs \<Rightarrow> bool" where
  "extends_outside P s t \<longleftrightarrow>
    (\<forall>q. q \<notin> P \<longrightarrow> tget (files t) q = tget (files s) q \<and> tget (dbs t) q = tget (dbs s) q)
    \<and> set (dirs s) \<subseteq> set (dirs t)"

lemma save_conflict_result:
  assumes "save_policy_conflict L base chan events s = (r, s')"
  shows "case r of
      Inl err \<Rightarrow> s' = s \<and> (events = [] \<or> \<not> is_ok (derive_policy L chan events))
    | Inr head \<Rightarrow> events \<noteq> [] \<and> head = pe_id (last events) \<and> is_ok (derive_policy L chan events)
        \<and> tget (files s') (conflict_file (policy_conflict_dir base chan) head) =
            Some (write_lines (policy_event_json L) events)
        \<and> extends_outside {conflict_file (policy_conflict_dir base chan) head} s s'"
proof -
  let ?d = "policy_conflict_dir base chan" and ?h = "pe_id (last events)"
  let ?bs = "write_lines (policy_event_json L) events"
  obtain s1 where ens: "ensure_dir ?d s = (Inr (), s1)" by (simp add: ensure_dir_def)
  then have s1: "files s1 = files s" "dbs s1 = dbs s" "set (dirs s) \<subseteq> set (dirs s1)" "dir_exists ?d s1"
    using path_ancestors_self [OF conflict_dir_nonempty, of base chan]
    by (auto simp: ensure_dir_def dir_exists_def)
  let ?s2 = "s1\<lparr>files := tput (conflict_file ?d ?h) ?bs (files s1)\<rparr>"
  have rep: "replace_file ?d (conflict_file ?d ?h) ?bs s1 = (Inr (), ?s2)"
    using s1(4) by (simp add: replace_file_def)
  have frame: "tget (files ?s2) (conflict_file ?d ?h) = Some ?bs" "extends_outside {conflict_file ?d ?h} s ?s2"
    using s1 by (simp_all add: extends_outside_def)
  show ?thesis
  proof (cases "is_ok (derive_policy L chan events) \<and> events \<noteq> []")
    case True
    then obtain p where "derive_policy L chan events = Inr p" by (auto simp: is_ok_iff)
    then have "save_policy_conflict L base chan events s = (Inr ?h, ?s2)"
      using True by (simp add: save_policy_conflict_def validate_policy_history_def bindS_liftS Let_def
          bindS_step [where m = "ensure_dir ?d", OF ens]
          bindS_step [where m = "replace_file ?d (conflict_file ?d ?h) ?bs", OF rep] okS_def)
    then have "r = Inr ?h" "s' = ?s2" using assms by simp_all
    then show ?thesis using True frame by simp
  next
    case False
    then have "\<exists>e. save_policy_conflict L base chan events s = (Inl e, s)"
      by (cases "derive_policy L chan events")
         (auto simp: save_policy_conflict_def validate_policy_history_def bindS_liftS)
    then show ?thesis using assms False by auto
  qed
qed

lemma read_conflict_written:
  assumes "policy_event_json_ok L" and "events \<noteq> []"
    and "tget (files s) (conflict_file (policy_conflict_dir base chan) (pe_id (last events))) =
      Some (write_lines (policy_event_json L) events)"
  shows "read_policy_conflict L base chan (pe_id (last events)) s = Inr events"
proof -
  have "utf8_valid (ndjson (map (policy_event_json L) es))" for es
    using utf8_valid_append policy_file.ser_utf8 [OF assms(1)] by (induction es) simp_all
  then have "from_utf8 (write_lines (policy_event_json L) events) =
      Inr (of_bytes (write_lines (policy_event_json L) events))"
    by (simp add: write_lines_def from_utf8_ok)
  then show ?thesis
    using assms(2,3) parse_policy_written [OF assms(1)]
    by (simp add: read_policy_conflict_def read_file_def last_id_def)
qed

lemma extends_outside_unlocked:
  assumes "extends_outside P s t" and "policy_log_path base chan \<notin> P"
  shows "read_policy_history_unlocked L base chan t = read_policy_history_unlocked L base chan s"
    and "policy_log_complete base chan t = policy_log_complete base chan s"
  using assms
  by (simp_all add: read_policy_history_unlocked_def Let_def file_exists_def read_file_def
      policy_log_complete_def extends_outside_def)

lemma extends_outside_dir: "extends_outside P s t \<Longrightarrow> dir_exists d s \<Longrightarrow> dir_exists d t"
  by (auto simp: extends_outside_def dir_exists_def)

lemma extends_outside_policy:
  assumes "extends_outside P s t" and "policy_log_path base chan \<notin> P" and "policy_path base chan \<notin> P"
    and "dir_exists (channel_dir base chan) s"
  shows "read_channel_policy L base chan t = read_channel_policy L base chan s"
proof -
  have "read_policy_cache L base chan t = read_policy_cache L base chan s"
    "file_exists (policy_log_path base chan) t = file_exists (policy_log_path base chan) s"
    "open_history_lock base chan t = open_history_lock base chan s"
    using assms extends_outside_dir [OF assms(1,4)]
    by (simp_all add: read_policy_cache_def Let_def open_history_lock_def file_exists_def
        read_file_def extends_outside_def)
  then show ?thesis
    by (simp add: read_channel_policy_def read_policy_history_def extends_outside_unlocked [OF assms(1,2)])
qed

lemma derived_head_hex:
  assumes "hex_alphabet L" and "is_ok (derive_policy L chan events)" and "events \<noteq> []"
  shows "list_all (\<lambda>c. c \<in> set hex_chars) (pe_id (last events))"
proof -
  have "events = butlast events @ [last events]" using assms(3) by simp
  then obtain p where "derive_policy L chan (butlast events @ [last events]) = Inr p"
    using assms(2) by (metis is_ok_iff)
  then have "pe_id (last events) = content_id L (policy_payload_json L (event_payload (last events)))"
    unfolding derive_policy_snoc by (auto simp: bindR_ok policy_step_ok)
  then show ?thesis using hex_alphabet_id [OF assms(1)] by simp
qed

lemma saved_conflict:
  assumes "policy_json_ok L" and "hex_alphabet L" and "dir_exists (channel_dir base chan) s"
    and "save_policy_conflict L base chan events s = (r, s')"
  shows "case r of
      Inl err \<Rightarrow> s' = s \<and> (events = [] \<or> \<not> is_ok (derive_policy L chan events))
    | Inr head \<Rightarrow> events \<noteq> [] \<and> is_ok (derive_policy L chan events) \<and> head = pe_id (last events)
        \<and> read_policy_conflict L base chan head s' = Inr events
        \<and> read_policy_history_unlocked L base chan s' = read_policy_history_unlocked L base chan s
        \<and> read_channel_policy L base chan s' = read_channel_policy L base chan s"
proof (cases r)
  case (Inl e)
  then show ?thesis using save_conflict_result [OF assms(4)] by simp
next
  case (Inr head)
  let ?f = "conflict_file (policy_conflict_dir base chan) head"
  have res: "events \<noteq> []" "head = pe_id (last events)" "is_ok (derive_policy L chan events)"
    "tget (files s') ?f = Some (write_lines (policy_event_json L) events)" "extends_outside {?f} s s'"
    using save_conflict_result [OF assms(4), unfolded Inr sum.case] by blast+
  have hex: "list_all (\<lambda>c. c \<in> set hex_chars) head"
    using derived_head_hex [OF assms(2) res(3,1)] res(2) by simp
  have out: "policy_log_path base chan \<notin> {?f}" "policy_path base chan \<notin> {?f}"
    using conflict_paths(1,2) [OF hex, of base chan] by auto
  have "policy_event_json_ok L" using assms(1) by (simp add: policy_json_ok_def)
  then have "read_policy_conflict L base chan head s' = Inr events"
    using read_conflict_written res(1,2,4) by metis
  then show ?thesis
    using Inr res(1-3)
    by (simp add: extends_outside_unlocked [OF res(5) out(1)] extends_outside_policy [OF res(5) out assms(3)])
qed

text \<open>Saving a peer's forked history: it is refused, with nothing written, exactly when it is empty
  or invalid; otherwise it can be read back under the id of its last event, and the channel's own history
  and policy are as before.\<close>

theorem save_policy_conflict_keeps:
  assumes "policy_json_ok L" and "hex_alphabet L" and "dir_exists (channel_dir base chan) s"
    and "save_policy_conflict L base chan events s = (r, s')"
  shows "case r of
      Inl err \<Rightarrow> s' = s \<and> (events = [] \<or> \<not> is_ok (derive_policy L chan events))
    | Inr head \<Rightarrow> events \<noteq> [] \<and> is_ok (derive_policy L chan events) \<and> head = pe_id (last events)
        \<and> read_policy_conflict L base chan head s' = Inr events
        \<and> read_policy_history_unlocked L base chan s' = read_policy_history_unlocked L base chan s
        \<and> read_channel_policy L base chan s' = read_channel_policy L base chan s"
  by (rule saved_conflict [OF assms])

section \<open>Resolving\<close>

lemma replace_history_ok:
  assumes "policy_json_ok L" and "dir_exists (channel_dir base chan) s"
    and "derive_policy L chan events = Inr p"
  shows "\<exists>s1 s2. replace_policy_history L base chan events s = (Inr (), s1)
    \<and> write_policy_cache L base chan p s1 = (Inr (), s2)
    \<and> policy_written L base chan events p s2
    \<and> same_outside {policy_log_path base chan, policy_path base chan} s s2"
proof -
  let ?l = "policy_log_path base chan" and ?c = "policy_path base chan"
  let ?bs = "write_lines (policy_event_json L) events"
  let ?s1 = "s\<lparr>files := tput ?l ?bs (files s)\<rparr>"
  have ok: "policy_event_json_ok L" using assms(1) by (simp add: policy_json_ok_def)
  have r1: "replace_policy_history L base chan events s = (Inr (), ?s1)"
    using assms(2) by (simp add: replace_policy_history_def replace_file_def)
  have "read_policy_history_unlocked L base chan ?s1 = Inr events"
    using parse_policy_written [OF ok] assms(3) by (subst read_unlocked_file [of _ _ _ ?bs]) simp_all
  moreover have "policy_log_complete base chan ?s1"
    by (simp add: policy_log_complete_def complete_written)
  moreover have "dir_exists (channel_dir base chan) ?s1" using assms(2) by simp
  ultimately obtain s2 where s2: "write_policy_cache L base chan p ?s1 = (Inr (), s2)"
      "policy_written L base chan events p s2" "same_outside {?c} ?s1 s2"
    using rewrite_cache_ok [OF assms(1) _ _ _ assms(3)] by blast
  have "same_outside {?l, ?c} s ?s1" by (simp add: same_outside_def)
  then have "same_outside {?l, ?c} s s2"
    using same_outside_trans same_outside_mono [OF s2(3), of "{?l, ?c}"] by blast
  then show ?thesis using r1 s2 by blast
qed

lemma read_conflict_frame:
  assumes "same_outside P s t" and "conflict_file (policy_conflict_dir base chan) h \<notin> P"
  shows "read_policy_conflict L base chan h t = read_policy_conflict L base chan h s"
  using assms by (simp add: read_policy_conflict_def read_file_def same_outside_def)

text \<open>C26. Resolving a fork either fails and leaves the history and every file as they were, or installs
  exactly the saved history under that head, with its policy in force and in the cache; the local history
  it displaces, if it ended elsewhere, is first saved as a fork and can be read back: no signed
  history is lost.\<close>

theorem resolve_policy_conflict_preserves:
  assumes "policy_json_ok L" and "hex_alphabet L"
    and "resolve_policy_conflict L base chan head s = (r, s')"
  shows "case r of
      Inl err \<Rightarrow> s' = s
    | Inr p \<Rightarrow> \<exists>events current. read_policy_conflict L base chan head s = Inr events
        \<and> read_policy_history L base chan s = Inr current
        \<and> derive_policy L chan events = Inr p
        \<and> policy_written L base chan events p s'
        \<and> (current \<noteq> [] \<and> pe_id (last current) \<noteq> head \<longrightarrow>
             read_policy_conflict L base chan (pe_id (last current)) s' = Inr current)"
proof -
  define pre where "pre = bindR (validate_public_key L head) (\<lambda>_.
      bindR (read_policy_conflict L base chan head s) (\<lambda>events.
      bindR (derive_policy L chan events) (\<lambda>p.
      bindR (open_log base chan s) (\<lambda>_.
      bindR (open_history_lock base chan s) (\<lambda>_.
      bindR (read_policy_history_unlocked L base chan s) (\<lambda>current.
      Inr (events, p, current)))))))"
  define save where "save events current = (if current \<noteq> [] \<and> last_id pe_id None current \<noteq> last_id pe_id None (events :: policy_event list)
      then bindS (save_policy_conflict L base chan current) (\<lambda>_. okS ()) else okS ())" for events current
  have split: "resolve_policy_conflict L base chan head s =
      (case pre of Inl e \<Rightarrow> (Inl e, s)
       | Inr (events, p, current) \<Rightarrow> bindS (save events current) (\<lambda>_.
           bindS (replace_policy_history L base chan events) (\<lambda>_.
           bindS (write_policy_cache L base chan p) (\<lambda>_. okS p))) s)"
    unfolding resolve_policy_conflict_def pre_def save_def bindS_readS bindS_liftS validate_policy_history_def
    by (cases "validate_public_key L head"; cases "read_policy_conflict L base chan head s")
       (auto simp: bindS_readS bindS_liftS split: sum.splits)
  show ?thesis
  proof (cases pre)
    case (Inl e)
    then show ?thesis using split assms(3) by simp
  next
    case (Inr x)
    obtain events p current where x: "x = (events, p, current)" by (cases x)
    have parts: "read_policy_conflict L base chan head s = Inr events" "derive_policy L chan events = Inr p"
      "open_history_lock base chan s = Inr ()" "read_policy_history_unlocked L base chan s = Inr current"
      using Inr x by (auto simp: pre_def bindR_ok)
    have dir: "dir_exists (channel_dir base chan) s"
      using parts(3) by (simp add: open_history_lock_def guardR_ok)
    have head: "last_id pe_id None events = Some head"
      using parts(1) by (auto simp: read_policy_conflict_def bindR_ok split: if_splits)
    have hist: "read_policy_history L base chan s = Inr current"
      using parts(3,4) by (simp add: read_policy_history_def)
    let ?displaced = "current \<noteq> [] \<and> pe_id (last current) \<noteq> head"
    have ok: "policy_event_json_ok L" using assms(1) by (simp add: policy_json_ok_def)
    obtain s1 where s1: "save events current s = (Inr (), s1)" "dir_exists (channel_dir base chan) s1"
      "?displaced \<longrightarrow> read_policy_conflict L base chan (pe_id (last current)) s1 = Inr current"
    proof (cases ?displaced)
      case False
      then have "save events current s = (Inr (), s)"
        using head by (auto simp: save_def last_id_def okS_def)
      then show ?thesis using that dir False by blast
    next
      case True
      obtain rc sc where sc: "save_policy_conflict L base chan current s = (rc, sc)"
        by (cases "save_policy_conflict L base chan current s")
      then have rc: "rc = Inr (pe_id (last current))"
        using save_conflict_result [OF sc] True read_unlocked_derives [OF parts(4)] by (cases rc) auto
      have "save events current s = (Inr (), sc)"
        using True head sc rc by (simp add: save_def last_id_def bindS_def okS_def)
      moreover have "dir_exists (channel_dir base chan) sc"
        using save_conflict_result [OF sc] rc extends_outside_dir dir by simp blast
      moreover have "read_policy_conflict L base chan (pe_id (last current)) sc = Inr current"
        using save_conflict_result [OF sc] rc read_conflict_written [OF ok] True by simp
      ultimately show ?thesis using that by blast
    qed
    from replace_history_ok [OF assms(1) s1(2) parts(2)] obtain s2 s3 where
      w: "replace_policy_history L base chan events s1 = (Inr (), s2)"
        "write_policy_cache L base chan p s2 = (Inr (), s3)" "policy_written L base chan events p s3"
      and so: "same_outside {policy_log_path base chan, policy_path base chan} s1 s3" by blast
    have run: "r = Inr p" "s' = s3"
      using split assms(3) Inr x s1(1) w(1,2) by (simp_all add: bindS_def okS_def)
    have "read_policy_conflict L base chan (pe_id (last current)) s3 = Inr current" if d: ?displaced
    proof -
      have "list_all (\<lambda>c. c \<in> set hex_chars) (pe_id (last current))"
        using derived_head_hex [OF assms(2) read_unlocked_derives [OF parts(4)]] d by simp
      then have "conflict_file (policy_conflict_dir base chan) (pe_id (last current))
          \<notin> {policy_log_path base chan, policy_path base chan}"
        using conflict_paths(1,2) by simp
      then show ?thesis using s1(3) d by (simp add: read_conflict_frame [OF so])
    qed
    then show ?thesis using run parts(1,2) hist w(3) by auto
  qed
qed

end
