(* ===== verification/Moderation.thy ===== *)
theory Moderation
  imports Policy_Conflicts
begin

text \<open>
  Moderation: the data and the replay of signed moderation events of \<open>src/store.rs\<close>
  (\<open>ModerationEvent\<close>, \<open>ModerationAction\<close>, \<open>derive_moderation\<close>, \<open>sign_moderation_event\<close>). An event hides
  or restores one message for every reader; it is authorised against the prefix of the policy history
  that ends with the policy event it names. Shown: the last action on a message decides whether it is
  hidden, every accepted event was signed by an owner or moderator of the policy it names, and
  extending the policy history never changes the outcome of events already accepted.
\<close>

section \<open>Data\<close>

datatype moderation_action =
    Tombstone string "string option"
  | Restore string

record moderation_event =
  me_id :: string
  me_channel :: string
  me_actor :: string
  me_ts :: i64
  me_previous :: "string option"
  me_policy_head :: string
  me_action :: moderation_action
  me_sig :: string

record moderation_payload =
  mp_channel :: string
  mp_actor :: string
  mp_ts :: i64
  mp_previous :: "string option"
  mp_policy_head :: string
  mp_action :: moderation_action

record moderation_lib = policy_lib +
  moderation_payload_json :: "moderation_payload \<Rightarrow> bytes"
  moderation_event_json :: "moderation_event \<Rightarrow> bytes"
  moderation_event_of_json :: "bytes \<Rightarrow> moderation_event option"
  moderation_state_json :: "(string, string option) table \<Rightarrow> bytes"

text \<open>\<open>ModerationState.tombstoned\<close>: the hidden messages with the reason given.\<close>

type_synonym moderation_state = "(string, string option) table"

section \<open>Replaying a history\<close>

definition moderation_domain :: bytes where
  "moderation_domain = as_bytes (''embernet-moderation-v1'' @ [CHR 10])"

definition moderation_payload_of :: "moderation_event \<Rightarrow> moderation_payload" where
  "moderation_payload_of e =
    \<lparr>mp_channel = me_channel e, mp_actor = me_actor e, mp_ts = me_ts e,
     mp_previous = me_previous e, mp_policy_head = me_policy_head e, mp_action = me_action e\<rparr>"

text \<open>\<open>iter().position(..)\<close>\<close>

fun position :: "('a \<Rightarrow> bool) \<Rightarrow> 'a list \<Rightarrow> nat option" where
  "position P [] = None"
| "position P (x # xs) = (if P x then Some 0 else map_option Suc (position P xs))"

definition may_moderate :: "channel_policy \<Rightarrow> string \<Rightarrow> bool" where
  "may_moderate p actor \<longleftrightarrow>
    owner p = Some actor \<or> list_ex (\<lambda>k. k = actor) (moderators p)"

fun apply_moderation ::
  "'x crypto_lib_scheme \<Rightarrow> moderation_state \<Rightarrow> moderation_action \<Rightarrow> moderation_state result" where
  "apply_moderation L st (Tombstone target reason) =
    bindR (validate_public_key L target) (\<lambda>_. Inr (tput target reason st))"
| "apply_moderation L st (Restore target) =
    bindR (validate_public_key L target) (\<lambda>_. Inr (tdel target st))"

definition moderation_step ::
  "'x moderation_lib_scheme \<Rightarrow> channel_ref \<Rightarrow> policy_event list \<Rightarrow> moderation_state \<Rightarrow> string option
    \<Rightarrow> moderation_event \<Rightarrow> moderation_state result" where
  "moderation_step L chan ph st previous e =
    (if me_channel e \<noteq> full_name chan \<or> me_previous e \<noteq> previous then Inl (History BrokenChain)
     else bindR (from_option (History UnknownPolicyHead)
                   (position (\<lambda>pe. pe_id pe = me_policy_head e) ph)) (\<lambda>i.
          bindR (derive_policy L chan (take (Suc i) ph)) (\<lambda>p.
          if \<not> may_moderate p (me_actor e) then Inl (Policy NotAuthorized)
          else let payload = moderation_payload_json L (moderation_payload_of e) in
            if me_id e \<noteq> content_id L payload then Inl (History BadEventId)
            else bindR (verify_bytes L (me_actor e) (me_sig e) (moderation_domain @ payload)) (\<lambda>_.
                 apply_moderation L st (me_action e)))))"

fun replay_moderation ::
  "'x moderation_lib_scheme \<Rightarrow> channel_ref \<Rightarrow> policy_event list \<Rightarrow> moderation_state \<Rightarrow> string option
    \<Rightarrow> moderation_event list \<Rightarrow> moderation_state result" where
  "replay_moderation L chan ph st previous [] = Inr st"
| "replay_moderation L chan ph st previous (e # es) =
    bindR (moderation_step L chan ph st previous e) (\<lambda>st'.
      replay_moderation L chan ph st' (Some (me_id e)) es)"

definition derive_moderation ::
  "'x moderation_lib_scheme \<Rightarrow> string \<Rightarrow> channel_ref \<Rightarrow> moderation_event list \<Rightarrow> node_fs
    \<Rightarrow> moderation_state result" where
  "derive_moderation L base chan events s =
    bindR (read_policy_history L base chan s) (\<lambda>ph. replay_moderation L chan ph [] None events)"

definition validate_moderation_history ::
  "'x moderation_lib_scheme \<Rightarrow> string \<Rightarrow> channel_ref \<Rightarrow> moderation_event list \<Rightarrow> node_fs
    \<Rightarrow> moderation_state result" where
  "validate_moderation_history L base chan events s = derive_moderation L base chan events s"

definition sign_moderation_event ::
  "'x moderation_lib_scheme \<Rightarrow> i64 \<Rightarrow> channel_ref \<Rightarrow> keypair \<Rightarrow> string option \<Rightarrow> string
    \<Rightarrow> moderation_action \<Rightarrow> moderation_event result" where
  "sign_moderation_event L now chan signer previous policy_head action =
    (let payload = moderation_payload_json L
           \<lparr>mp_channel = full_name chan, mp_actor = public_key signer, mp_ts = now,
            mp_previous = previous, mp_policy_head = policy_head, mp_action = action\<rparr> in
     bindR (sign_bytes L signer (moderation_domain @ payload)) (\<lambda>sig.
     Inr \<lparr>me_id = content_id L payload, me_channel = full_name chan,
          me_actor = public_key signer, me_ts = now, me_previous = previous,
          me_policy_head = policy_head, me_action = action, me_sig = sig\<rparr>))"

lemma moderation_step_linked: "moderation_step L chan ph st q e = Inr st' \<Longrightarrow> me_previous e = q"
  by (auto simp: moderation_step_def split: if_splits)

interpretation moderation_chain:
  event_chain me_id me_previous "moderation_step L chan ph" "replay_moderation L chan ph"
  for L :: "'x moderation_lib_scheme" and chan and ph
  by unfold_locales (auto dest: moderation_step_linked)

section \<open>Lemmas\<close>

lemma may_moderate_iff: "may_moderate p k \<longleftrightarrow> owner p = Some k \<or> k \<in> set (moderators p)"
  by (auto simp: may_moderate_def list_ex_iff)

lemma position_Some:
  "position P xs = Some i \<longleftrightarrow> i < length xs \<and> P (xs ! i) \<and> (\<forall>j < i. \<not> P (xs ! j))"
proof (induction xs arbitrary: i)
  case Nil
  then show ?case by simp
next
  case (Cons x xs)
  show ?case
  proof (cases "P x")
    case True
    then show ?thesis by (auto simp: nth_Cons')
  next
    case False
    then show ?thesis
      using Cons by (cases i) (auto simp: nth_Cons' less_Suc_eq_0_disj)
  qed
qed

lemma position_append: "position P xs = Some i \<Longrightarrow> position P (xs @ ys) = Some i"
  by (induction xs arbitrary: i) (auto split: if_splits)

lemma position_less: "position P xs = Some i \<Longrightarrow> i < length xs"
  by (simp add: position_Some)

lemma moderation_step_ok:
  "moderation_step L chan ph st q e = Inr st' \<longleftrightarrow>
    me_channel e = full_name chan \<and> me_previous e = q
    \<and> me_id e = content_id L (moderation_payload_json L (moderation_payload_of e))
    \<and> verify_bytes L (me_actor e) (me_sig e)
        (moderation_domain @ moderation_payload_json L (moderation_payload_of e)) = Inr ()
    \<and> apply_moderation L st (me_action e) = Inr st'
    \<and> (\<exists>i p. position (\<lambda>pe. pe_id pe = me_policy_head e) ph = Some i
        \<and> derive_policy L chan (take (Suc i) ph) = Inr p \<and> may_moderate p (me_actor e))"
  by (auto simp: moderation_step_def Let_def bindR_ok from_option_ok split: if_splits)

section \<open>The last action decides\<close>

fun action_target :: "moderation_action \<Rightarrow> string" where
  "action_target (Tombstone t r) = t"
| "action_target (Restore t) = t"

text \<open>The specification: what the last event about a message says.\<close>

definition hidden_by :: "moderation_event list \<Rightarrow> string \<Rightarrow> string option option" where
  "hidden_by es t =
    (case filter (\<lambda>e. action_target (me_action e) = t) (rev es) of
       [] \<Rightarrow> None
     | e # _ \<Rightarrow> (case me_action e of Tombstone _ r \<Rightarrow> Some r | Restore _ \<Rightarrow> None))"

lemma hidden_by_Nil [simp]: "hidden_by [] t = None"
  by (simp add: hidden_by_def)

lemma hidden_by_snoc:
  "hidden_by (es @ [e]) t =
    (if action_target (me_action e) = t
     then (case me_action e of Tombstone _ r \<Rightarrow> Some r | Restore _ \<Rightarrow> None)
     else hidden_by es t)"
  by (simp add: hidden_by_def)

lemma apply_moderation_get:
  "apply_moderation L st a = Inr st' \<Longrightarrow>
    tget st' t = (if action_target a = t then (case a of Tombstone _ r \<Rightarrow> Some r | Restore _ \<Rightarrow> None)
                  else tget st t)"
  by (cases a) (auto simp: bindR_ok)

lemma replay_moderation_get:
  "replay_moderation L chan ph [] None es = Inr st \<Longrightarrow> tget st t = hidden_by es t"
proof (induction es arbitrary: st rule: rev_induct)
  case Nil
  then show ?case by simp
next
  case (snoc e es)
  then obtain st1 where st1: "replay_moderation L chan ph [] None es = Inr st1"
    "moderation_step L chan ph st1 (last_id me_id None es) e = Inr st"
    by (auto simp: moderation_chain.replay_snoc bindR_ok)
  then have "apply_moderation L st1 (me_action e) = Inr st"
    by (simp add: moderation_step_ok)
  then show ?case
    using snoc.IH [OF st1(1)] by (simp add: apply_moderation_get hidden_by_snoc)
qed

text \<open>A message is hidden exactly when the last moderation event about it in the valid history is a
  tombstone, and the recorded reason is the one that tombstone gives: later actions override earlier ones
  and actions on other messages do not matter.\<close>

theorem last_moderation_decides:
  assumes "derive_moderation L base chan es s = Inr st"
  shows "tget st t = hidden_by es t"
  using assms replay_moderation_get by (auto simp: derive_moderation_def bindR_ok)

section \<open>Authority\<close>

lemma replay_moderation_events:
  assumes "replay_moderation L chan ph st q es = Inr st'" and "e \<in> set es"
  shows "\<exists>s1 p1 s2. moderation_step L chan ph s1 p1 e = Inr s2"
  using assms by (induction es arbitrary: st q) (auto simp: bindR_ok)

text \<open>Every event of a valid moderation history is signed by its actor, carries the hash of its own
  payload, and its actor was owner or moderator in the policy derived from the policy history up to the
  event it names.\<close>

theorem moderation_authority:
  assumes "derive_moderation L base chan es s = Inr st" and "e \<in> set es"
  shows "\<exists>ph i p. read_policy_history L base chan s = Inr ph \<and> i < length ph
    \<and> pe_id (ph ! i) = me_policy_head e \<and> derive_policy L chan (take (Suc i) ph) = Inr p
    \<and> (owner p = Some (me_actor e) \<or> me_actor e \<in> set (moderators p))
    \<and> verify_bytes L (me_actor e) (me_sig e)
        (moderation_domain @ moderation_payload_json L (moderation_payload_of e)) = Inr ()
    \<and> me_id e = content_id L (moderation_payload_json L (moderation_payload_of e))"
proof -
  obtain ph where ph: "read_policy_history L base chan s = Inr ph"
    "replay_moderation L chan ph [] None es = Inr st"
    using assms(1) by (auto simp: derive_moderation_def bindR_ok)
  obtain s1 p1 s2 where "moderation_step L chan ph s1 p1 e = Inr s2"
    using replay_moderation_events [OF ph(2) assms(2)] by blast
  then show ?thesis
    using ph(1) unfolding moderation_step_ok position_Some may_moderate_iff by blast
qed

lemma moderation_step_extend:
  assumes "moderation_step L chan ph st q e = Inr st'"
  shows "moderation_step L chan (ph @ extra) st q e = Inr st'"
  using assms position_append position_less unfolding moderation_step_ok by fastforce

lemma replay_moderation_extend:
  "replay_moderation L chan ph st q es = Inr st' \<Longrightarrow> replay_moderation L chan (ph @ extra) st q es = Inr st'"
  by (induction es arbitrary: st q) (auto simp: bindR_ok dest: moderation_step_extend)

text \<open>Extending the policy history, whatever the new events do (a revocation of the moderator
  included), never invalidates or changes a moderation history that was valid before it.\<close>

theorem moderation_stable:
  assumes "read_policy_history L base chan s = Inr ph" and "derive_moderation L base chan es s = Inr st"
    and "read_policy_history L base chan s' = Inr (ph @ extra)"
  shows "derive_moderation L base chan es s' = Inr st"
  using assms replay_moderation_extend by (auto simp: derive_moderation_def bindR_ok)

lemma derive_moderation_snoc:
  "derive_moderation L base chan (es @ [e]) s =
    bindR (read_policy_history L base chan s) (\<lambda>ph.
    bindR (replay_moderation L chan ph [] None es) (\<lambda>st.
      moderation_step L chan ph st (last_id me_id None es) e))"
  by (cases "read_policy_history L base chan s")
     (simp_all add: derive_moderation_def moderation_chain.replay_snoc)

lemma sign_moderation_event_ok:
  assumes "crypto_ok L" and "length sk = 32"
  shows "\<exists>e. sign_moderation_event L now chan (generate L sk a) q head act = Inr e
    \<and> me_actor e = public_key (generate L sk a) \<and> me_action e = act \<and> me_policy_head e = head
    \<and> (\<forall>ph st i p. position (\<lambda>pe. pe_id pe = head) ph = Some i \<and> derive_policy L chan (take (Suc i) ph) = Inr p
        \<and> may_moderate p (public_key (generate L sk a)) \<longrightarrow>
        moderation_step L chan ph st q e = apply_moderation L st act)"
proof -
  let ?kp = "generate L sk a"
  let ?payload = "moderation_payload_json L \<lparr>mp_channel = full_name chan, mp_actor = public_key ?kp,
    mp_ts = now, mp_previous = q, mp_policy_head = head, mp_action = act\<rparr>"
  have sk: "signing_key L ?kp = Inr sk"
    using assms by (simp add: generate_signing_key crypto_ok_def)
  have ver: "verify_bytes L (public_key ?kp) (hex_encode L (ed_sign L sk m)) m = Inr ()" for m
    using assms by (auto simp: verify_bytes_ok generate_def crypto_ok_def hex_ok_def ed25519_ok_def)
  let ?e = "\<lparr>me_id = content_id L ?payload, me_channel = full_name chan, me_actor = public_key ?kp,
    me_ts = now, me_previous = q, me_policy_head = head, me_action = act,
    me_sig = hex_encode L (ed_sign L sk (moderation_domain @ ?payload))\<rparr>"
  have "sign_moderation_event L now chan ?kp q head act = Inr ?e"
    by (simp add: sign_moderation_event_def sign_bytes_def sk Let_def)
  moreover have "moderation_step L chan ph st q ?e = apply_moderation L st act"
    if "position (\<lambda>pe. pe_id pe = head) ph = Some i" "derive_policy L chan (take (Suc i) ph) = Inr p"
      "may_moderate p (public_key ?kp)" for ph st i p
    using that by (simp add: moderation_step_def moderation_payload_of_def ver Let_def)
  ultimately show ?thesis by fastforce
qed

text \<open>C38. A moderator who has lost the role can still have new moderation events accepted: an event that
  names a policy head from the time the signer was a moderator is valid at the end of the history, although
  the current policy gives the signer no such right.\<close>

theorem revoked_moderator_still_accepted:
  assumes "crypto_ok L" and "length sk = 32"
    and "read_policy_history L base chan s = Inr ph" and "derive_moderation L base chan es s = Inr st"
    and "derive_policy L chan ph = Inr now_policy" and "\<not> may_moderate now_policy (public_key (generate L sk a))"
    and "position (\<lambda>pe. pe_id pe = head) ph = Some i" and "derive_policy L chan (take (Suc i) ph) = Inr old_policy"
    and "may_moderate old_policy (public_key (generate L sk a))" and "is_ok (validate_public_key L target)"
  shows "\<exists>e. sign_moderation_event L ts chan (generate L sk a) (last_id me_id None es) head (Tombstone target reason) = Inr e
    \<and> derive_moderation L base chan (es @ [e]) s = Inr (tput target reason st)"
proof -
  obtain e where e: "sign_moderation_event L ts chan (generate L sk a) (last_id me_id None es) head (Tombstone target reason) = Inr e"
    "moderation_step L chan ph st (last_id me_id None es) e = apply_moderation L st (Tombstone target reason)"
    using sign_moderation_event_ok [OF assms(1,2), of ts chan a _ head] assms(7-9) by blast
  have "replay_moderation L chan ph [] None es = Inr st"
    using assms(3,4) by (simp add: derive_moderation_def)
  then show ?thesis
    using e assms(3,10) by (auto simp: derive_moderation_snoc is_ok_iff)
qed

end
