(* ===== verification/Peers.thy ===== *)
theory Peers
  imports Moderation
begin

text \<open>
  The peers of a node, \<open>src/peers.rs\<close>: the file \<open>peers.json\<close> with the URL of every peer and, when it is
  pinned, the identity expected there. URL parsing and printing (the crate \<open>url\<close>) and the JSON of the
  file are fields of \<open>peer_lib\<close>. Shown: what is read is sorted and has one record per URL with a
  normalised key, what is written reads back, and a pinned identity changes only by removing the peer.
\<close>

section \<open>Data\<close>

text \<open>The components of a parsed URL that the program reads or sets; \<open>url_authority\<close> is the rest of it
  (credentials and port).\<close>

record url =
  url_scheme :: string
  url_host :: "string option"
  url_authority :: string
  url_path :: string
  url_query :: "string option"
  url_fragment :: "string option"

record peer_record =
  peer_url :: string
  peer_key :: "string option"

datatype stored_peer = Legacy string | Record peer_record

record peer_config =
  pc_version :: u32
  pc_peers :: "stored_peer list"

record peer_lib = moderation_lib +
  url_parse :: "string \<Rightarrow> url option"
  url_to_string :: "url \<Rightarrow> string"
  peer_config_json :: "peer_config \<Rightarrow> bytes"
  peer_config_of_json :: "bytes \<Rightarrow> peer_config option"

section \<open>Trimming\<close>

text \<open>\<open>str::trim\<close>, with the white space of \<open>blank\<close>.\<close>

definition blank_prefix :: "bytes \<Rightarrow> nat" where
  "blank_prefix bs =
    (if bs \<noteq> [] \<and> blank (take 1 bs) then 1
     else if length bs \<ge> 2 \<and> blank (take 2 bs) then 2
     else if length bs \<ge> 3 \<and> blank (take 3 bs) then 3
     else 0)"

function trim_start :: "bytes \<Rightarrow> bytes" where
  "trim_start bs = (if blank_prefix bs = 0 then bs else trim_start (drop (blank_prefix bs) bs))"
  by pat_completeness auto
termination
  by (relation "measure length") (auto simp: blank_prefix_def split: if_splits)

declare trim_start.simps [simp del]

fun trim_end :: "bytes \<Rightarrow> bytes" where
  "trim_end [] = []"
| "trim_end (b # bs) = (if blank (b # bs) then [] else b # trim_end bs)"

definition trim :: "string \<Rightarrow> string" where
  "trim s = of_bytes (trim_end (trim_start (as_bytes s)))"

definition to_ascii_lowercase :: "string \<Rightarrow> string" where
  "to_ascii_lowercase s =
    map (\<lambda>c. if CHR ''A'' \<le> c \<and> c \<le> CHR ''Z'' then char_of (of_char c + (32 :: nat)) else c) s"

section \<open>Reading\<close>

definition config_path :: "string \<Rightarrow> string" where
  "config_path datadir = path_join datadir ''peers.json''"

definition clean_url :: "url \<Rightarrow> url" where
  "clean_url u =
    (let u = u\<lparr>url_query := None, url_fragment := None\<rparr>
     in if url_path u = [] \<or> url_path u = ''/'' then u\<lparr>url_path := ''/sync''\<rparr> else u)"

definition normalize_peer_url :: "'x peer_lib_scheme \<Rightarrow> string \<Rightarrow> string result" where
  "normalize_peer_url L value =
    bindR (from_option (Decode NotUrl) (url_parse L (trim value))) (\<lambda>u.
      if url_scheme u \<noteq> ''ws'' \<and> url_scheme u \<noteq> ''wss'' then Inl (Peer UnsupportedScheme)
      else if url_host u = None then Inl (Peer UrlWithoutHost)
      else Inr (url_to_string L (clean_url u)))"

definition validate_peer_key :: "'x crypto_lib_scheme \<Rightarrow> string \<Rightarrow> string result" where
  "validate_peer_key L value =
    (let normalized = to_ascii_lowercase (trim value) in
     bindR (hex_array L 32 normalized) (\<lambda>_. Inr normalized))"

text \<open>\<open>.as_deref().map(validate_public_key).transpose()?\<close>\<close>

definition validate_optional_key :: "'x crypto_lib_scheme \<Rightarrow> string option \<Rightarrow> string option result" where
  "validate_optional_key L key =
    (case key of None \<Rightarrow> Inr None | Some k \<Rightarrow> bindR (validate_peer_key L k) (\<lambda>k'. Inr (Some k')))"

definition stored_record :: "stored_peer \<Rightarrow> peer_record" where
  "stored_record s = (case s of Legacy u \<Rightarrow> \<lparr>peer_url = u, peer_key = None\<rparr> | Record r \<Rightarrow> r)"

text \<open>\<open>iter_mut().find(|peer| peer.url == url)\<close> and a change of the record found.\<close>

fun set_peer_key :: "string \<Rightarrow> string option \<Rightarrow> peer_record list \<Rightarrow> peer_record list" where
  "set_peer_key u k [] = []"
| "set_peer_key u k (r # rs) =
    (if peer_url r = u then r\<lparr>peer_key := k\<rparr> # rs else r # set_peer_key u k rs)"

definition find_peer :: "string \<Rightarrow> peer_record list \<Rightarrow> peer_record option" where
  "find_peer u rs = List.find (\<lambda>r. peer_url r = u) rs"

fun merge_stored ::
  "'x peer_lib_scheme \<Rightarrow> stored_peer list \<Rightarrow> peer_record list \<Rightarrow> peer_record list result" where
  "merge_stored L [] records = Inr records"
| "merge_stored L (stored # rest) records =
    (let record = stored_record stored in
     bindR (normalize_peer_url L (peer_url record)) (\<lambda>u.
     bindR (validate_optional_key L (peer_key record)) (\<lambda>key.
     case find_peer u records of
       None \<Rightarrow> merge_stored L rest (records @ [\<lparr>peer_url = u, peer_key = key\<rparr>])
     | Some existing \<Rightarrow>
         if peer_key existing = None then merge_stored L rest (set_peer_key u key records)
         else if key \<noteq> None \<and> peer_key existing \<noteq> key then Inl (Peer ConflictingPins)
         else merge_stored L rest records)))"

definition list_peer_records ::
  "'x peer_lib_scheme \<Rightarrow> string \<Rightarrow> node_fs \<Rightarrow> peer_record list result" where
  "list_peer_records L datadir s =
    (let path = config_path datadir in
     if \<not> file_exists path s then Inr []
     else bindR (read_file path s) (\<lambda>bs.
          bindR (from_option (Decode NotJson) (peer_config_of_json L bs)) (\<lambda>config.
          if pc_version config \<noteq> 1 \<and> pc_version config \<noteq> 2 then Inl (Peer BadPeerVersion)
          else bindR (merge_stored L (pc_peers config) []) (\<lambda>records.
               Inr (sort_key peer_url records)))))"

definition list_peers :: "'x peer_lib_scheme \<Rightarrow> string \<Rightarrow> node_fs \<Rightarrow> string list result" where
  "list_peers L datadir s =
    bindR (list_peer_records L datadir s) (\<lambda>records. Inr (map peer_url records))"

definition expected_peer_key ::
  "'x peer_lib_scheme \<Rightarrow> string \<Rightarrow> string \<Rightarrow> node_fs \<Rightarrow> string option result" where
  "expected_peer_key L datadir value s =
    bindR (normalize_peer_url L value) (\<lambda>u.
    bindR (list_peer_records L datadir s) (\<lambda>records.
    case find_peer u records of
      None \<Rightarrow> Inr None
    | Some r \<Rightarrow> bindR (from_option (Peer Unpinned) (peer_key r)) (\<lambda>k. Inr (Some k))))"

section \<open>Writing\<close>

definition lock_config :: "string \<Rightarrow> unit io" where
  "lock_config datadir = ensure_dir datadir"

definition write_peers :: "'x peer_lib_scheme \<Rightarrow> string \<Rightarrow> peer_record list \<Rightarrow> unit io" where
  "write_peers L datadir peers =
    bindS (ensure_dir datadir) (\<lambda>_.
    replace_file datadir (config_path datadir)
      (peer_config_json L \<lparr>pc_version = 2, pc_peers = map Record (sort_key peer_url peers)\<rparr> @ [10]))"

definition pin_peer ::
  "string \<Rightarrow> string option \<Rightarrow> peer_record list \<Rightarrow> peer_record list result" where
  "pin_peer u key peers =
    (case find_peer u peers of
       None \<Rightarrow> Inr (peers @ [\<lparr>peer_url = u, peer_key = key\<rparr>])
     | Some existing \<Rightarrow>
         (case key of
            None \<Rightarrow> Inr peers
          | Some k \<Rightarrow>
              if peer_key existing \<noteq> None \<and> peer_key existing \<noteq> Some k then Inl (Peer AlreadyPinned)
              else Inr (set_peer_key u (Some k) peers)))"

definition add_peer ::
  "'x peer_lib_scheme \<Rightarrow> string \<Rightarrow> string \<Rightarrow> string option \<Rightarrow> peer_record io" where
  "add_peer L datadir value key =
    bindS (liftS (normalize_peer_url L value)) (\<lambda>u.
    bindS (liftS (validate_optional_key L key)) (\<lambda>key'.
    bindS (lock_config datadir) (\<lambda>_.
    bindS (readS (list_peer_records L datadir)) (\<lambda>peers.
    bindS (liftS (pin_peer u key' peers)) (\<lambda>peers'.
    bindS (write_peers L datadir peers') (\<lambda>_.
    liftS (from_option Panicked (find_peer u peers'))))))))"

definition remove_peer :: "'x peer_lib_scheme \<Rightarrow> string \<Rightarrow> string \<Rightarrow> bool io" where
  "remove_peer L datadir value =
    bindS (liftS (normalize_peer_url L value)) (\<lambda>u.
    bindS (lock_config datadir) (\<lambda>_.
    bindS (readS (list_peer_records L datadir)) (\<lambda>peers.
    let peers' = filter (\<lambda>r. peer_url r \<noteq> u) peers in
    bindS (write_peers L datadir peers') (\<lambda>_.
    okS (length peers' \<noteq> length peers)))))"

section \<open>What the program relies on\<close>

definition printable :: "byte \<Rightarrow> bool" where
  "printable b \<longleftrightarrow> 33 \<le> b \<and> b \<le> 126"

text \<open>A serialised \<open>ws\<close> or \<open>wss\<close> URL is printable ASCII and parses back to its components, also after
  query and fragment are removed and the path is set.\<close>

definition url_ok :: "'x peer_lib_scheme \<Rightarrow> bool" where
  "url_ok L \<longleftrightarrow>
    (\<forall>v u. url_parse L v = Some u \<and> (url_scheme u = ''ws'' \<or> url_scheme u = ''wss'') \<longrightarrow>
      (\<forall>w. w = u\<lparr>url_query := None, url_fragment := None\<rparr>
           \<or> w = u\<lparr>url_query := None, url_fragment := None, url_path := ''/sync''\<rparr> \<longrightarrow>
        list_all printable (as_bytes (url_to_string L w)) \<and> url_parse L (url_to_string L w) = Some w))"

definition peer_json_ok :: "'x peer_lib_scheme \<Rightarrow> bool" where
  "peer_json_ok L \<longleftrightarrow> (\<forall>c. peer_config_of_json L (peer_config_json L c @ [10]) = Some c)"

text \<open>\<open>hex::decode\<close> refuses everything but hexadecimal digits.\<close>

definition hex_digit :: "char \<Rightarrow> bool" where
  "hex_digit c \<longleftrightarrow> (CHR ''0'' \<le> c \<and> c \<le> CHR ''9'') \<or> (CHR ''a'' \<le> c \<and> c \<le> CHR ''f'')
    \<or> (CHR ''A'' \<le> c \<and> c \<le> CHR ''F'')"

definition hex_strict :: "'x crypto_lib_scheme \<Rightarrow> bool" where
  "hex_strict L \<longleftrightarrow> (\<forall>s bs. hex_decode L s = Some bs \<longrightarrow> list_all hex_digit s)"

definition peer_lib_ok :: "'x peer_lib_scheme \<Rightarrow> bool" where
  "peer_lib_ok L \<longleftrightarrow> url_ok L \<and> peer_json_ok L \<and> hex_strict L"

section \<open>Normal forms\<close>

lemma printable_not_blank: "printable b \<Longrightarrow> \<not> blank (b # bs)"
proof -
  assume "printable b"
  then have "33 \<le> unat b" "unat b \<le> 126"
    by (simp_all add: printable_def word_le_nat_alt)
  then show ?thesis by (auto simp: word_le_nat_alt)
qed

lemma trim_start_printable: "list_all printable bs \<Longrightarrow> trim_start bs = bs"
  using printable_not_blank by (cases bs) (auto simp: trim_start.simps blank_prefix_def numeral_2_eq_2 numeral_3_eq_3)

lemma trim_end_printable: "list_all printable bs \<Longrightarrow> trim_end bs = bs"
  by (induction bs) (simp_all del: blank.simps add: printable_not_blank)

lemma trim_printable: "list_all printable (as_bytes s) \<Longrightarrow> trim s = s"
  by (simp add: trim_def trim_start_printable trim_end_printable)

lemma hex_digit_printable: "hex_digit c \<Longrightarrow> printable (word_of_nat (of_char c))"
  by (auto simp: hex_digit_def printable_def less_eq_char_def word_le_nat_alt)

lemma hex_digits_printable: "list_all hex_digit s \<Longrightarrow> list_all printable (as_bytes s)"
  by (auto simp: list_all_iff as_bytes_def hex_digit_printable)

lemma to_ascii_lowercase_twice [simp]: "to_ascii_lowercase (to_ascii_lowercase s) = to_ascii_lowercase s"
proof -
  let ?f = "\<lambda>c. if CHR ''A'' \<le> c \<and> c \<le> CHR ''Z'' then char_of (of_char c + (32 :: nat)) else c"
  have "?f (?f c) = ?f c" for c
    by (auto simp: less_eq_char_def of_char_of)
  then show ?thesis unfolding to_ascii_lowercase_def map_map comp_def by simp
qed

lemma validate_peer_key_twice:
  assumes "hex_strict L" and "validate_peer_key L v = Inr k"
  shows "validate_peer_key L k = Inr k"
proof -
  have k: "k = to_ascii_lowercase (trim v)" "is_ok (hex_array L 32 k)"
    using assms(2) by (auto simp: validate_peer_key_def Let_def bindR_ok)
  then have "list_all hex_digit k"
    using assms(1) by (auto simp: is_ok_iff hex_array_ok hex_strict_def)
  then have "trim k = k" by (simp add: trim_printable hex_digits_printable)
  then show ?thesis using k by (auto simp: validate_peer_key_def Let_def is_ok_iff)
qed

lemma clean_url_simps [simp]:
  "url_scheme (clean_url u) = url_scheme u" "url_host (clean_url u) = url_host u"
  "clean_url (clean_url u) = clean_url u"
  by (simp_all add: clean_url_def Let_def)

lemma clean_url_cases:
  "clean_url u = u\<lparr>url_query := None, url_fragment := None\<rparr>
   \<or> clean_url u = u\<lparr>url_query := None, url_fragment := None, url_path := ''/sync''\<rparr>"
  by (simp add: clean_url_def Let_def)

lemma normalize_peer_url_ok:
  "normalize_peer_url L v = Inr w \<longleftrightarrow>
    (\<exists>u. url_parse L (trim v) = Some u \<and> (url_scheme u = ''ws'' \<or> url_scheme u = ''wss'')
      \<and> url_host u \<noteq> None \<and> w = url_to_string L (clean_url u))"
proof (cases "url_parse L (trim v)")
  case None
  then show ?thesis by (simp add: normalize_peer_url_def)
next
  case (Some u)
  then show ?thesis
    by (simp add: normalize_peer_url_def eq_commute [of w] del: not_None_eq)
qed

lemma normalize_peer_url_twice:
  assumes "url_ok L" and "normalize_peer_url L v = Inr w"
  shows "normalize_peer_url L w = Inr w"
proof -
  obtain u where u: "url_parse L (trim v) = Some u" "url_scheme u = ''ws'' \<or> url_scheme u = ''wss''"
    "url_host u \<noteq> None" "w = url_to_string L (clean_url u)"
    using assms(2) by (auto simp: normalize_peer_url_ok)
  have "list_all printable (as_bytes (url_to_string L c)) \<and> url_parse L (url_to_string L c) = Some c"
    if "c = u\<lparr>url_query := None, url_fragment := None\<rparr>
      \<or> c = u\<lparr>url_query := None, url_fragment := None, url_path := ''/sync''\<rparr>" for c
    using assms(1) [unfolded url_ok_def, rule_format, OF conjI [OF u(1,2)] that] .
  from this [OF clean_url_cases] have "list_all printable (as_bytes w)" "url_parse L w = Some (clean_url u)"
    using u(4) by simp_all
  then show ?thesis
    unfolding normalize_peer_url_ok using u by (intro exI [of _ "clean_url u"]) (simp add: trim_printable)
qed

section \<open>Well-formed peer lists\<close>

definition peers_wf :: "'x peer_lib_scheme \<Rightarrow> peer_record list \<Rightarrow> bool" where
  "peers_wf L rs \<longleftrightarrow> distinct (map peer_url rs)
    \<and> (\<forall>r \<in> set rs. normalize_peer_url L (peer_url r) = Inr (peer_url r)
        \<and> validate_optional_key L (peer_key r) = Inr (peer_key r))"

lemma find_peer_None: "find_peer u rs = None \<longleftrightarrow> u \<notin> peer_url ` set rs"
  by (auto simp: find_peer_def find_None_iff)

lemma find_peer_mem: "find_peer u rs = Some r \<Longrightarrow> r \<in> set rs \<and> peer_url r = u"
  by (auto simp: find_peer_def find_Some_iff)

lemma find_peer_distinct: "distinct (map peer_url rs) \<Longrightarrow> r \<in> set rs \<Longrightarrow> find_peer (peer_url r) rs = Some r"
  by (induction rs) (auto simp: find_peer_def)

lemma set_peer_key_urls [simp]: "map peer_url (set_peer_key u k rs) = map peer_url rs"
  by (induction rs) auto

lemma find_set_peer_key:
  "find_peer v (set_peer_key u k rs) =
    (if v = u then map_option (\<lambda>r. r\<lparr>peer_key := k\<rparr>) (find_peer u rs) else find_peer v rs)"
  by (induction rs) (auto simp: find_peer_def)

lemma peers_wf_set:
  "peers_wf L rs \<Longrightarrow> validate_optional_key L k = Inr k \<Longrightarrow> peers_wf L (set_peer_key u k rs)"
proof -
  assume wf: "peers_wf L rs" and k: "validate_optional_key L k = Inr k"
  have "\<forall>r \<in> set (set_peer_key u k rs). \<exists>q \<in> set rs. peer_url r = peer_url q \<and> (peer_key r = k \<or> r = q)" for u
    by (induction rs) auto
  then show ?thesis using wf k unfolding peers_wf_def by fastforce
qed

lemma peers_wf_snoc:
  "peers_wf L rs \<Longrightarrow> find_peer u rs = None \<Longrightarrow> normalize_peer_url L u = Inr u \<Longrightarrow>
    validate_optional_key L k = Inr k \<Longrightarrow> peers_wf L (rs @ [\<lparr>peer_url = u, peer_key = k\<rparr>])"
  by (auto simp: peers_wf_def find_peer_None)

lemma validate_optional_key_twice:
  "hex_strict L \<Longrightarrow> validate_optional_key L v = Inr k \<Longrightarrow> validate_optional_key L k = Inr k"
  by (auto simp: validate_optional_key_def bindR_ok validate_peer_key_twice split: option.splits)

lemma merge_stored_wf:
  "peer_lib_ok L \<Longrightarrow> peers_wf L acc \<Longrightarrow> merge_stored L stored acc = Inr rs \<Longrightarrow> peers_wf L rs"
proof (induction stored arbitrary: acc)
  case Nil
  then show ?case by simp
next
  case (Cons s stored)
  obtain u key where u: "normalize_peer_url L (peer_url (stored_record s)) = Inr u"
    "validate_optional_key L (peer_key (stored_record s)) = Inr key"
    using Cons.prems(3) by (auto simp: Let_def bindR_ok)
  then have n: "normalize_peer_url L u = Inr u" "validate_optional_key L key = Inr key"
    using Cons.prems(1) normalize_peer_url_twice validate_optional_key_twice unfolding peer_lib_ok_def by blast+
  show ?case
    using Cons.prems(3) Cons.IH [OF Cons.prems(1)] Cons.prems(2) u
      peers_wf_snoc [OF Cons.prems(2) _ n] peers_wf_set [OF Cons.prems(2) n(2), of u]
    by (auto simp: Let_def split: option.splits if_splits)
qed

lemma merge_stored_records:
  "peers_wf L (acc @ rs) \<Longrightarrow> merge_stored L (map Record rs) acc = Inr (acc @ rs)"
proof (induction rs arbitrary: acc)
  case Nil
  then show ?case by simp
next
  case (Cons r rs)
  then have "find_peer (peer_url r) acc = None"
    by (auto simp: peers_wf_def find_peer_None)
  moreover have "peers_wf L ((acc @ [r]) @ rs)" using Cons.prems by simp
  then have "merge_stored L (map Record rs) (acc @ [r]) = Inr (acc @ r # rs)"
    using Cons.IH by fastforce
  ultimately show ?case
    using Cons.prems by (cases r) (simp add: stored_record_def peers_wf_def Let_def)
qed

lemma peers_wf_sort [simp]: "peers_wf L (sort_key peer_url rs) = peers_wf L rs"
proof -
  have "distinct (map peer_url (sort_key peer_url rs)) = distinct (map peer_url rs)"
    by (intro mset_eq_imp_distinct_iff) simp
  then show ?thesis by (simp add: peers_wf_def)
qed

section \<open>The peers file\<close>

lemma list_peers_wf:
  assumes "peer_lib_ok L" and "list_peer_records L d s = Inr rs"
  shows "peers_wf L rs" and "sorted (map peer_url rs)"
proof -
  have "rs = [] \<or> (\<exists>stored rs'. merge_stored L stored [] = Inr rs' \<and> rs = sort_key peer_url rs')"
    using assms(2) by (auto simp: list_peer_records_def Let_def bindR_ok split: if_splits)
  moreover have "peers_wf L []" by (simp add: peers_wf_def)
  ultimately show "peers_wf L rs" "sorted (map peer_url rs)"
    using merge_stored_wf [OF assms(1)] by auto
qed

lemma write_peers_reads:
  assumes "peer_lib_ok L" and "peers_wf L rs" and "d \<noteq> []"
  shows "\<exists>s'. write_peers L d rs s = (Inr (), s')
    \<and> list_peer_records L d s' = Inr (sort_key peer_url rs)
    \<and> (\<forall>q. q \<noteq> config_path d \<longrightarrow> tget (files s') q = tget (files s) q)"
proof -
  let ?bs = "peer_config_json L \<lparr>pc_version = 2, pc_peers = map Record (sort_key peer_url rs)\<rparr> @ [10]"
  obtain s1 where ens: "ensure_dir d s = (Inr (), s1)" by (simp add: ensure_dir_def)
  then have s1: "files s1 = files s" "dir_exists d s1"
    using path_ancestors_self [OF assms(3)] by (auto simp: ensure_dir_def dir_exists_def)
  let ?s2 = "s1\<lparr>files := tput (config_path d) ?bs (files s1)\<rparr>"
  have run: "write_peers L d rs s = (Inr (), ?s2)"
    using s1(2) by (simp add: write_peers_def bindS_step [where m = "ensure_dir d", OF ens] replace_file_def)
  have "merge_stored L (map Record (sort_key peer_url rs)) [] = Inr (sort_key peer_url rs)"
    using merge_stored_records [of L "[]" "sort_key peer_url rs"] assms(2) by simp
  moreover have "sort_key peer_url (sort_key peer_url rs) = sort_key peer_url rs"
    by (rule sort_key_id_if_sorted) simp
  moreover have "peer_config_of_json L ?bs = Some \<lparr>pc_version = 2, pc_peers = map Record (sort_key peer_url rs)\<rparr>"
    using assms(1) by (simp add: peer_lib_ok_def peer_json_ok_def)
  ultimately have "list_peer_records L d ?s2 = Inr (sort_key peer_url rs)"
    by (simp add: list_peer_records_def Let_def)
  then show ?thesis using run s1(1) by auto
qed

lemma find_peer_sort:
  assumes "distinct (map peer_url rs)"
  shows "find_peer u (sort_key peer_url rs) = find_peer u rs"
proof -
  have d: "distinct (map peer_url (sort_key peer_url rs))"
    using assms mset_eq_imp_distinct_iff [of "map peer_url (sort_key peer_url rs)" "map peer_url rs"] by simp
  show ?thesis
  proof (cases "find_peer u rs")
    case None
    then have "find_peer u (sort_key peer_url rs) = None" by (simp add: find_peer_None)
    then show ?thesis using None by simp
  next
    case (Some r)
    then have r: "r \<in> set rs" "peer_url r = u" by (auto dest: find_peer_mem)
    then have "find_peer (peer_url r) (sort_key peer_url rs) = Some r"
      by (intro find_peer_distinct [OF d]) simp
    then show ?thesis using Some r(2) by simp
  qed
qed

lemma pin_peer_ok:
  assumes "peers_wf L peers" and "normalize_peer_url L u = Inr u" and "validate_optional_key L key = Inr key"
    and "pin_peer u key peers = Inr peers'"
  shows "peers_wf L peers' \<and> (\<forall>v. v \<noteq> u \<longrightarrow> find_peer v peers' = find_peer v peers)
    \<and> (\<exists>r. find_peer u peers' = Some r \<and> peer_url r = u
        \<and> peer_key r = (case find_peer u peers of
            None \<Rightarrow> key
          | Some old \<Rightarrow> if key = None then peer_key old else key)
        \<and> (\<forall>old k. find_peer u peers = Some old \<and> peer_key old = Some k \<longrightarrow> peer_key r = Some k))"
proof (cases "find_peer u peers")
  case None
  then have p: "peers' = peers @ [\<lparr>peer_url = u, peer_key = key\<rparr>]"
    using assms(4) by (simp add: pin_peer_def)
  have "find_peer v (peers @ [r]) = (case find_peer v peers of None \<Rightarrow> (if peer_url r = v then Some r else None) | Some q \<Rightarrow> Some q)"
    for v r by (induction peers) (auto simp: find_peer_def)
  then show ?thesis
    using None p peers_wf_snoc [OF assms(1) None assms(2,3)] by (auto split: option.split)
next
  case (Some old)
  note found = Some
  show ?thesis
  proof (cases key)
    case None
    then have "peers' = peers" using assms(4) found by (simp add: pin_peer_def)
    then show ?thesis using found None assms(1) find_peer_mem [OF found] by auto
  next
    case (Some k)
    then have p: "peers' = set_peer_key u (Some k) peers" "peer_key old = None \<or> peer_key old = Some k"
      using assms(4) found by (auto simp: pin_peer_def split: if_splits)
    show ?thesis
      using Some found p peers_wf_set [OF assms(1), of "Some k" u] assms(3) find_peer_mem [OF found]
      by (auto simp: find_set_peer_key)
  qed
qed

text \<open>Up to the choice of the records nothing is written; the rest is one write.\<close>

lemma add_peer_run:
  assumes "list_peer_records L d s = Inr peers"
    and "normalize_peer_url L value = Inr u" and "validate_optional_key L key = Inr key'"
  shows "\<exists>s1. files s1 = files s \<and>
    add_peer L d value key s = (case pin_peer u key' peers of Inl e \<Rightarrow> (Inl e, s1) | Inr peers' \<Rightarrow>
      bindS (write_peers L d peers') (\<lambda>_. liftS (from_option Panicked (find_peer u peers'))) s1)"
proof -
  obtain s1 where lock: "lock_config d s = (Inr (), s1)" "files s1 = files s"
    by (simp add: lock_config_def ensure_dir_def)
  have "list_peer_records L d s1 = list_peer_records L d s"
    unfolding list_peer_records_def file_exists_def read_file_def lock(2) ..
  then have "list_peer_records L d s1 = Inr peers" using assms(1) by simp
  then show ?thesis
    using assms(2,3) lock(2) by (intro exI [of _ s1]) (simp add: add_peer_def bindS_liftS bindS_readS
        bindS_step [where m = "lock_config d", OF lock(1)] cong: sum.case_cong)
qed

lemma add_peer_pinned:
  assumes "peer_lib_ok L" and "d \<noteq> []" and "list_peer_records L d s = Inr peers"
    and "normalize_peer_url L value = Inr u" and "validate_optional_key L key = Inr key'"
    and "pin_peer u key' peers = Inr peers'"
  shows "\<exists>rec s' after. add_peer L d value key s = (Inr rec, s') \<and> list_peer_records L d s' = Inr after
    \<and> (\<forall>v. v \<noteq> u \<longrightarrow> find_peer v after = find_peer v peers)
    \<and> find_peer u after = Some rec
    \<and> peer_key rec = (case find_peer u peers of
        None \<Rightarrow> key' | Some old \<Rightarrow> if key' = None then peer_key old else key')
    \<and> (\<forall>old k. find_peer u peers = Some old \<and> peer_key old = Some k \<longrightarrow> peer_key rec = Some k)"
proof -
  have n: "normalize_peer_url L u = Inr u" "validate_optional_key L key' = Inr key'"
    using assms normalize_peer_url_twice validate_optional_key_twice unfolding peer_lib_ok_def by blast+
  have wf: "peers_wf L peers" using list_peers_wf [OF assms(1,3)] by simp
  note pin = pin_peer_ok [OF wf n assms(6)]
  obtain s1 where run: "add_peer L d value key s =
      bindS (write_peers L d peers') (\<lambda>_. liftS (from_option Panicked (find_peer u peers'))) s1"
    using add_peer_run [OF assms(3-5)] assms(6) by auto
  obtain s2 where w: "write_peers L d peers' s1 = (Inr (), s2)"
    "list_peer_records L d s2 = Inr (sort_key peer_url peers')"
    using write_peers_reads [OF assms(1) _ assms(2), of peers' s1] pin by blast
  have find: "find_peer v (sort_key peer_url peers') = find_peer v peers'" for v
    using pin by (intro find_peer_sort) (simp add: peers_wf_def)
  obtain rec where rec: "find_peer u peers' = Some rec" using pin by blast
  then have "add_peer L d value key s = (Inr rec, s2)"
    using run by (simp add: bindS_step [where m = "write_peers L d peers'", OF w(1)] liftS_def)
  then show ?thesis using w(2) find rec pin by auto
qed

lemma add_peer_result:
  assumes "peer_lib_ok L" and "d \<noteq> []" and "list_peer_records L d s = Inr peers"
    and "add_peer L d value key s = (r, s')"
  shows "case r of
      Inl err \<Rightarrow> files s' = files s
    | Inr rec \<Rightarrow> \<exists>u key' after. normalize_peer_url L value = Inr u \<and> validate_optional_key L key = Inr key'
        \<and> list_peer_records L d s' = Inr after
        \<and> (\<forall>v. v \<noteq> u \<longrightarrow> find_peer v after = find_peer v peers)
        \<and> find_peer u after = Some rec
        \<and> peer_key rec = (case find_peer u peers of
            None \<Rightarrow> key' | Some old \<Rightarrow> if key' = None then peer_key old else key')
        \<and> (\<forall>old k. find_peer u peers = Some old \<and> peer_key old = Some k \<longrightarrow> peer_key rec = Some k)"
proof (cases "bindR (normalize_peer_url L value) (\<lambda>u. bindR (validate_optional_key L key) (\<lambda>k. Inr (u, k)))")
  case (Inl e)
  then have "s' = s \<and> is_ok r = False"
    using assms(4) by (auto simp: add_peer_def bindS_liftS bindR_def split: sum.splits)
  then show ?thesis by (cases r) auto
next
  case (Inr uk)
  then obtain u key' where u: "normalize_peer_url L value = Inr u" "validate_optional_key L key = Inr key'"
    by (auto simp: bindR_ok)
  show ?thesis
  proof (cases "pin_peer u key' peers")
    case (Inl e)
    then show ?thesis using add_peer_run [OF assms(3) u] assms(4) by auto
  next
    case (Inr peers')
    then show ?thesis using add_peer_pinned [OF assms(1-3) u] assms(4) u by fastforce
  qed
qed

section \<open>Properties\<close>

text \<open>C35. Whatever the peers file holds, the list read from it is in normal form: one record per URL, sorted
  by URL, every URL a normalised one and every pinned key a normalised key.\<close>

theorem list_peer_records_normal:
  assumes "peer_lib_ok L" and "list_peer_records L d s = Inr rs"
  shows "peers_wf L rs \<and> sorted (map peer_url rs)"
  using list_peers_wf [OF assms] by simp

text \<open>C6. Adding a peer never changes a pinned identity: every peer keeps its key, the added one has the key
  asked for (its old one if none was given), the list read back has the returned record, and a refused
  addition, as for a different identity, changes no file.\<close>

theorem add_peer_keeps_pins:
  assumes "peer_lib_ok L" and "d \<noteq> []" and "list_peer_records L d s = Inr peers"
    and "add_peer L d value key s = (r, s')"
  shows "case r of
      Inl err \<Rightarrow> files s' = files s
    | Inr rec \<Rightarrow> \<exists>u key' after. normalize_peer_url L value = Inr u \<and> validate_optional_key L key = Inr key'
        \<and> list_peer_records L d s' = Inr after
        \<and> (\<forall>v. v \<noteq> u \<longrightarrow> find_peer v after = find_peer v peers)
        \<and> find_peer u after = Some rec
        \<and> peer_key rec = (case find_peer u peers of
            None \<Rightarrow> key' | Some old \<Rightarrow> if key' = None then peer_key old else key')
        \<and> (\<forall>old k. find_peer u peers = Some old \<and> peer_key old = Some k \<longrightarrow> peer_key rec = Some k)"
  by (rule add_peer_result [OF assms])

text \<open>C36. A peer added without a key is unusable for synchronization: when the URL was not known before, the
  record is stored unpinned, and asking for the expected identity of that very peer fails from then on.\<close>

theorem unpinned_peer_unusable:
  assumes "peer_lib_ok L" and "d \<noteq> []" and "list_peer_records L d s = Inr peers"
    and "normalize_peer_url L value = Inr u" and "find_peer u peers = None"
    and "add_peer L d value None s = (Inr rec, s')"
  shows "expected_peer_key L d value s = Inr None \<and> expected_peer_key L d value s' = Inl (Peer Unpinned)"
  using add_peer_result [OF assms(1-3,6)] assms(3-5)
  by (auto simp: expected_peer_key_def validate_optional_key_def)

text \<open>A peer added with a key is expected under that key: asking for the identity at its URL, written in
  any way that normalises to the same URL, gives the key in normal form.\<close>

theorem added_peer_is_expected:
  assumes "peer_lib_ok L" and "d \<noteq> []" and "list_peer_records L d s = Inr peers"
    and "add_peer L d value (Some key) s = (Inr rec, s')"
    and "normalize_peer_url L other = normalize_peer_url L value"
  shows "\<exists>k. validate_peer_key L key = Inr k \<and> expected_peer_key L d other s' = Inr (Some k)"
proof -
  obtain u k after where r: "normalize_peer_url L value = Inr u" "validate_peer_key L key = Inr k"
    "list_peer_records L d s' = Inr after" "find_peer u after = Some rec" "peer_key rec = Some k"
    using add_peer_result [OF assms(1-4)] by (auto simp: validate_optional_key_def bindR_ok split: option.splits)
  then show ?thesis using assms(5) by (simp add: expected_peer_key_def)
qed

text \<open>Removing a peer removes exactly that URL: every other peer is read back as it was, the removed one
  is not listed, and the result says whether it was there.\<close>

theorem remove_peer_exact:
  assumes "peer_lib_ok L" and "d \<noteq> []" and "list_peer_records L d s = Inr peers"
    and "remove_peer L d value s = (Inr removed, s')"
  shows "\<exists>u after. normalize_peer_url L value = Inr u \<and> list_peer_records L d s' = Inr after
    \<and> find_peer u after = None \<and> (\<forall>v. v \<noteq> u \<longrightarrow> find_peer v after = find_peer v peers)
    \<and> (removed \<longleftrightarrow> find_peer u peers \<noteq> None)"
proof -
  obtain u where u: "normalize_peer_url L value = Inr u"
    using assms(4) by (auto simp: remove_peer_def runS_ok)
  obtain s1 where lock: "lock_config d s = (Inr (), s1)" "files s1 = files s"
    by (simp add: lock_config_def ensure_dir_def)
  have "list_peer_records L d s1 = list_peer_records L d s"
    unfolding list_peer_records_def file_exists_def read_file_def lock(2) ..
  then have list1: "list_peer_records L d s1 = Inr peers" using assms(3) by simp
  let ?after = "filter (\<lambda>r. peer_url r \<noteq> u) peers"
  have wf: "peers_wf L peers" using list_peers_wf [OF assms(1,3)] by simp
  then have wf': "peers_wf L ?after" by (simp add: peers_wf_def distinct_map_filter)
  obtain s2 where w: "write_peers L d ?after s1 = (Inr (), s2)"
    "list_peer_records L d s2 = Inr (sort_key peer_url ?after)"
    using write_peers_reads [OF assms(1) wf' assms(2)] by blast
  have run: "remove_peer L d value s = (Inr (length ?after \<noteq> length peers), s2)"
    using u list1 by (simp add: remove_peer_def bindS_liftS bindS_readS Let_def okS_def
        bindS_step [where m = "lock_config d", OF lock(1)] bindS_step [where m = "write_peers L d ?after", OF w(1)])
  have find: "find_peer v (sort_key peer_url ?after) = (if v = u then None else find_peer v peers)" for v
  proof -
    have "find_peer v ?after = (if v = u then None else find_peer v peers)"
      by (induction peers) (auto simp: find_peer_def)
    then show ?thesis using wf' by (simp add: find_peer_sort peers_wf_def)
  qed
  have "length ?after \<noteq> length peers \<longleftrightarrow> find_peer u peers \<noteq> None"
  proof -
    have "length ?after = length peers \<longleftrightarrow> ?after = peers"
      by (metis filter_id_conv length_filter_less nat_neq_iff)
    also have "\<dots> \<longleftrightarrow> find_peer u peers = None" by (auto simp: filter_id_conv find_peer_None)
    finally show ?thesis by simp
  qed
  then show ?thesis using run assms(4) u w(2) find by auto
qed

end
