(* ===== verification/Message_Log.thy ===== *)
theory Message_Log
  imports Policy_Store
begin

text \<open>
  The message log of a channel and its index, from \<open>src/store.rs\<close>: \<open>log.ndjson\<close> is the append-only
  truth, \<open>index.redb\<close> holds what can be rebuilt from it (where each message lies, and the sorted members of
  each of the 256 buckets with their hash, which peers compare). Offsets and lengths are \<open>u64\<close>, kept as
  64-bit words. Here are the operations; \<open>Message_Log_Proofs\<close> has their properties.
\<close>

section \<open>The log file\<close>

record scanned_envelope =
  sc_envelope :: envelope
  sc_offset :: u64
  sc_length :: u64

definition whitespace_line :: "bytes \<Rightarrow> bool" where
  "whitespace_line bs \<longleftrightarrow> list_all ascii_whitespace bs"

text \<open>The loop of \<open>scan_verified_file\<close>, from byte \<open>pos\<close> on.\<close>

function scan_from :: "'x proto_lib_scheme \<Rightarrow> nat \<Rightarrow> bytes \<Rightarrow> scanned_envelope list result" where
  "scan_from L pos bs =
    (if bs = [] then Inr []
     else let line = fst (read_line bs); rest = snd (read_line bs); next = pos + length line in
       if last line \<noteq> 10 then Inl (Log TruncatedRecord)
       else let record = strip_eol line in
         if whitespace_line record then scan_from L next rest
         else bindR (from_option (Log CorruptRecord) (envelope_of_json L record)) (\<lambda>env.
              bindR (verify L env) (\<lambda>_.
              bindR (scan_from L next rest) (\<lambda>envs.
              Inr (\<lparr>sc_envelope = env, sc_offset = word_of_nat (next - length line),
                    sc_length = word_of_nat (length line)\<rparr> # envs)))))"
  by pat_completeness auto
termination
  by (relation "measure (\<lambda>(L, pos, bs). length bs)") (auto simp: read_line_shorter)

declare scan_from.simps [simp del]

definition scan_verified_file :: "'x proto_lib_scheme \<Rightarrow> bytes \<Rightarrow> scanned_envelope list result" where
  "scan_verified_file L bs = scan_from L 0 bs"

section \<open>Locations\<close>

definition encode_location :: "u64 \<Rightarrow> u64 \<Rightarrow> bytes" where
  "encode_location offset len = to_be_bytes offset @ to_be_bytes len"

definition decode_location :: "bytes \<Rightarrow> (u64 \<times> u64) result" where
  "decode_location v =
    (if length v \<noteq> 16 then Inl (Log BadLocation)
     else Inr (from_be_bytes (take 8 v), from_be_bytes (drop 8 v)))"

section \<open>The index\<close>

definition index_path :: "string \<Rightarrow> channel_ref \<Rightarrow> string" where
  "index_path base chan = channel_file base (full_name chan) ''index.redb''"

text \<open>\<open>hex::decode(id)?\<close> and the indexing \<open>bytes[0]\<close>, which panics on an empty id.\<close>

definition id_bytes :: "'x crypto_lib_scheme \<Rightarrow> string \<Rightarrow> bytes result" where
  "id_bytes L mid =
    bindR (from_option (Decode NotHex) (hex_decode L mid)) (\<lambda>bs.
      if bs = [] then Inl Panicked else Inr bs)"

definition merkle_bucket_count :: nat where
  "merkle_bucket_count = 256"

definition bucket :: "bytes list \<Rightarrow> nat \<Rightarrow> bytes list" where
  "bucket ids i = filter (\<lambda>b. unat (hd b) = i) ids"

text \<open>The sorted ids of the non-empty buckets, and a table filled with a function of them.\<close>

definition bucket_entries :: "bytes list \<Rightarrow> (u64 \<times> bytes) list" where
  "bucket_entries ids =
    map (\<lambda>i. (word_of_nat i, concat (sort (bucket ids i))))
      (filter (\<lambda>i. bucket ids i \<noteq> []) [0..<merkle_bucket_count])"

definition fill :: "(bytes \<Rightarrow> bytes) \<Rightarrow> (u64 \<times> bytes) list \<Rightarrow> (u64, bytes) table" where
  "fill f kvs = tfill (map (\<lambda>(k, v). (k, f v)) kvs)"

definition message_table :: "scanned_envelope list \<Rightarrow> (string, bytes) table" where
  "message_table scanned =
    tfill (map (\<lambda>it. (env_id (sc_envelope it), encode_location (sc_offset it) (sc_length it))) scanned)"

definition index_meta :: "u64 \<Rightarrow> u64 \<Rightarrow> (string, u64) table \<Rightarrow> (string, u64) table" where
  "index_meta log_len n t =
    tput ''schema'' 2 (tput ''message_count'' n (tput ''log_len'' log_len t))"

definition rebuild_index :: "'x proto_lib_scheme \<Rightarrow> bytes \<Rightarrow> index_db result" where
  "rebuild_index L bs =
    bindR (scan_verified_file L bs) (\<lambda>scanned.
    bindR (mapR (\<lambda>it. id_bytes L (env_id (sc_envelope it))) scanned) (\<lambda>ids.
    Inr \<lparr>t_messages = message_table scanned,
         t_meta = index_meta (word_of_nat (length bs)) (word_of_nat (length scanned)) [],
         t_chunks = fill (\<lambda>m. m) (bucket_entries ids),
         t_hashes = fill (blake3 L) (bucket_entries ids)\<rparr>))"

definition index_current :: "bytes \<Rightarrow> index_db \<Rightarrow> bool" where
  "index_current bs db \<longleftrightarrow>
    tget (t_meta db) ''log_len'' = Some (word_of_nat (length bs))
    \<and> tget (t_meta db) ''schema'' = Some 2"

text \<open>\<open>Database::create\<close> makes an absent database; a failed rebuild is not committed.\<close>

definition open_db :: "string \<Rightarrow> node_fs \<Rightarrow> node_fs" where
  "open_db p s = (if tget (dbs s) p = None then put_db p empty_db s else s)"

definition ensure_index ::
  "'x proto_lib_scheme \<Rightarrow> string \<Rightarrow> channel_ref \<Rightarrow> bytes \<Rightarrow> index_db io" where
  "ensure_index L base chan bs s =
    (let path = index_path base chan; s1 = open_db path s; db = get_db path s1 in
     if index_current bs db then (Inr db, s1)
     else (case rebuild_index L bs of
             Inl e \<Rightarrow> (Inl e, s1)
           | Inr db' \<Rightarrow> (Inr db', put_db path db' s1)))"

definition index_contains :: "index_db \<Rightarrow> string \<Rightarrow> bool" where
  "index_contains db mid \<longleftrightarrow> tget (t_messages db) mid \<noteq> None"

definition index_insert ::
  "'x crypto_lib_scheme \<Rightarrow> index_db \<Rightarrow> string \<Rightarrow> u64 \<Rightarrow> u64 \<Rightarrow> u64 \<Rightarrow> index_db result" where
  "index_insert L db mid offset len log_len =
    (let n = (case tget (t_meta db) ''message_count'' of None \<Rightarrow> 0 | Some c \<Rightarrow> c) in
     bindR (from_option (Decode NotHex) (hex_decode L mid)) (\<lambda>bs.
     if length bs \<noteq> 32 then Inl (Log BadIdLength)
     else let index = (ucast (hd bs) :: u64);
              old = (case tget (t_chunks db) index of None \<Rightarrow> [] | Some m \<Rightarrow> m);
              ids = concat (sort (chunks32 (old @ bs)))
          in Inr \<lparr>t_messages = tput mid (encode_location offset len) (t_messages db),
                  t_meta = index_meta log_len (n + 1) (t_meta db),
                  t_chunks = tput index ids (t_chunks db),
                  t_hashes = tput index (blake3 L ids) (t_hashes db)\<rparr>))"

section \<open>Appending\<close>

definition insert_at_end ::
  "'x proto_lib_scheme \<Rightarrow> string \<Rightarrow> channel_ref \<Rightarrow> index_db \<Rightarrow> string \<Rightarrow> nat \<Rightarrow> bytes \<Rightarrow> unit io" where
  "insert_at_end L base chan db mid record_len bs s =
    (case index_insert L db mid (word_of_nat (length bs - record_len)) (word_of_nat record_len)
            (word_of_nat (length bs)) of
       Inl e \<Rightarrow> (Inl e, s)
     | Inr db' \<Rightarrow> (Inr (), put_db (index_path base chan) db' s))"

definition append_message ::
  "'x policy_lib_scheme \<Rightarrow> string \<Rightarrow> channel_ref \<Rightarrow> envelope \<Rightarrow> string io" where
  "append_message L base chan env =
    bindS (liftS (guardR (env_channel env = full_name chan) (Log WrongChannel))) (\<lambda>_.
    bindS (liftS (verify L env)) (\<lambda>_.
    let record = envelope_json L env @ [10]; p = log_path base chan in
    bindS (open_append (channel_dir base chan) p) (\<lambda>_.
    bindS (readS (authorize_append L base chan (env_from env))) (\<lambda>_.
    bindS (readS (read_file p)) (\<lambda>bs.
    bindS (ensure_index L base chan bs) (\<lambda>db.
    if index_contains db (env_id env) then okS (env_id env)
    else
      bindS (append_file p record) (\<lambda>_.
      bindS (readS (read_file p)) (\<lambda>bs'.
      bindS (insert_at_end L base chan db (env_id env) (length record) bs') (\<lambda>_.
      okS (env_id env))))))))))"

section \<open>Reading\<close>

text \<open>\<open>seek\<close>, \<open>read_exact\<close>.\<close>

definition read_at :: "bytes \<Rightarrow> u64 \<Rightarrow> u64 \<Rightarrow> bytes result" where
  "read_at bs offset len =
    (if unat offset + unat len \<le> length bs then Inr (take (unat len) (drop (unat offset) bs))
     else if len = 0 then Inr []
     else Inl (Io UnexpectedEof))"

definition read_indexed_envelope ::
  "'x proto_lib_scheme \<Rightarrow> bytes \<Rightarrow> channel_ref \<Rightarrow> string \<Rightarrow> u64 \<Rightarrow> u64 \<Rightarrow> envelope result" where
  "read_indexed_envelope L bs chan mid offset len =
    bindR (read_at bs offset len) (\<lambda>record.
      if record = [] \<or> last record \<noteq> 10 then Inl (Log CorruptRecord)
      else bindR (from_option (Log CorruptRecord) (envelope_of_json L (butlast record))) (\<lambda>env.
        if env_id env \<noteq> mid \<or> env_channel env \<noteq> full_name chan then Inl (Log CorruptRecord)
        else bindR (verify L env) (\<lambda>_. Inr env)))"

text \<open>Every reader locks the log, reads it and brings the index up to date.\<close>

definition open_indexed ::
  "'x proto_lib_scheme \<Rightarrow> string \<Rightarrow> channel_ref \<Rightarrow> (bytes \<times> index_db) io" where
  "open_indexed L base chan =
    bindS (readS (read_file (log_path base chan))) (\<lambda>bs.
    bindS (ensure_index L base chan bs) (\<lambda>db.
    okS (bs, db)))"

definition read_message_by_id ::
  "'x proto_lib_scheme \<Rightarrow> string \<Rightarrow> channel_ref \<Rightarrow> string \<Rightarrow> envelope io" where
  "read_message_by_id L base chan mid =
    bindS (open_indexed L base chan) (\<lambda>(bs, db).
    liftS (bindR (from_option (Log NotIndexed) (tget (t_messages db) mid)) (\<lambda>v.
           bindR (decode_location v) (\<lambda>(offset, len).
           read_indexed_envelope L bs chan mid offset len))))"

record chunk_summary =
  cs_index :: u64
  cs_count :: u64
  cs_hash :: string

definition chunk_summaries ::
  "'x proto_lib_scheme \<Rightarrow> string \<Rightarrow> channel_ref \<Rightarrow> chunk_summary list io" where
  "chunk_summaries L base chan =
    bindS (open_indexed L base chan) (\<lambda>(bs, db).
    liftS (mapR (\<lambda>(index, ids).
        bindR (from_option (Log ChunkHashMissing) (tget (t_hashes db) index)) (\<lambda>h.
        Inr \<lparr>cs_index = index, cs_count = word_of_nat (length ids div 32),
             cs_hash = hex_encode L h\<rparr>)) (t_chunks db)))"

definition chunk_ids ::
  "'x proto_lib_scheme \<Rightarrow> string \<Rightarrow> channel_ref \<Rightarrow> u64 \<Rightarrow> string list io" where
  "chunk_ids L base chan index =
    bindS (open_indexed L base chan) (\<lambda>(bs, db).
    liftS (case tget (t_chunks db) index of
        None \<Rightarrow> Inr []
      | Some ids \<Rightarrow>
          if length ids mod 32 \<noteq> 0 then Inl (Log BadChunkLength)
          else Inr (map (hex_encode L) (chunks32 ids))))"

definition message_ids ::
  "'x proto_lib_scheme \<Rightarrow> string \<Rightarrow> channel_ref \<Rightarrow> string list io" where
  "message_ids L base chan =
    bindS (open_indexed L base chan) (\<lambda>(bs, db).
    liftS (bindR (mapR (\<lambda>(mid, v). bindR (decode_location v) (\<lambda>(offset, _). Inr (offset, mid)))
                   (t_messages db)) (\<lambda>entries.
           Inr (map snd (sort_key fst entries)))))"

end
