(* ===== verification/Message_Log_Proofs.thy ===== *)
theory Message_Log_Proofs
  imports Message_Log
begin

text \<open>
  What the message log and its index promise. The abstract state of a channel's log is a list of
  envelopes; \<open>log_rel\<close> relates it to the bytes of the log file and to an index that is up to date or
  recognisably stale. Appending refines list append without duplicates, reading by id refines list
  search, the index kept up incrementally equals the index rebuilt from the file, and the buckets
  that peers compare depend only on the set of messages, not on the order they arrived in.
\<close>

section \<open>The abstract log\<close>

definition envelope_json_ok :: "'x proto_lib_scheme \<Rightarrow> bool" where
  "envelope_json_ok L \<longleftrightarrow>
    (\<forall>e. envelope_of_json L (envelope_json L e) = Some e
      \<and> record_ok (envelope_json L e) \<and> \<not> whitespace_line (envelope_json L e))"

definition log_wf :: "'x proto_lib_scheme \<Rightarrow> channel_ref \<Rightarrow> envelope list \<Rightarrow> bool" where
  "log_wf L chan es \<longleftrightarrow>
    distinct (map env_id es) \<and> list_all (\<lambda>e. verify L e = Inr () \<and> env_channel e = full_name chan) es"

definition log_bytes :: "'x proto_lib_scheme \<Rightarrow> envelope list \<Rightarrow> bytes" where
  "log_bytes L es = write_lines (envelope_json L) es"

definition digest :: "'x proto_lib_scheme \<Rightarrow> envelope \<Rightarrow> bytes" where
  "digest L e = blake3 L (message_json L (env_msg e))"

definition record_len :: "'x proto_lib_scheme \<Rightarrow> envelope \<Rightarrow> nat" where
  "record_len L e = length (envelope_json L e @ [10])"

fun entries :: "'x proto_lib_scheme \<Rightarrow> nat \<Rightarrow> envelope list \<Rightarrow> scanned_envelope list" where
  "entries L pos [] = []"
| "entries L pos (e # es) =
    \<lparr>sc_envelope = e, sc_offset = word_of_nat pos,
     sc_length = word_of_nat (record_len L e)\<rparr>
    # entries L (pos + record_len L e) es"

definition index_of :: "'x proto_lib_scheme \<Rightarrow> envelope list \<Rightarrow> index_db" where
  "index_of L es =
    \<lparr>t_messages = message_table (entries L 0 es),
     t_meta = index_meta (word_of_nat (length (log_bytes L es))) (word_of_nat (length es)) [],
     t_chunks = fill (\<lambda>m. m) (bucket_entries (map (digest L) es)),
     t_hashes = fill (blake3 L) (bucket_entries (map (digest L) es))\<rparr>"

lemma log_bytes_simps [simp]:
  "log_bytes L [] = []"
  "log_bytes L (e # es) = envelope_json L e @ 10 # log_bytes L es"
  "log_bytes L (es @ fs) = log_bytes L es @ log_bytes L fs"
  by (simp_all add: log_bytes_def write_lines_def)

lemma entries_append:
  "entries L pos (es @ fs) = entries L pos es @ entries L (pos + length (log_bytes L es)) fs"
  by (induction es arbitrary: pos) (simp_all add: add.assoc record_len_def)

lemma entries_length [simp]: "length (entries L pos es) = length es"
  by (induction es arbitrary: pos) simp_all

lemma entries_envelopes [simp]: "map sc_envelope (entries L pos es) = es"
  by (induction es arbitrary: pos) simp_all

section \<open>Scanning what was written\<close>

lemma scan_record:
  assumes "envelope_json_ok L" and "verify L e = Inr ()"
  shows "scan_from L pos (envelope_json L e @ 10 # bs) =
    bindR (scan_from L (pos + record_len L e) bs) (\<lambda>envs.
      Inr (\<lparr>sc_envelope = e, sc_offset = word_of_nat pos,
            sc_length = word_of_nat (record_len L e)\<rparr> # envs))"
proof -
  let ?r = "envelope_json L e"
  have ok: "envelope_of_json L ?r = Some e" "10 \<notin> set ?r" "13 \<notin> set ?r" "\<not> whitespace_line ?r"
    using assms(1) by (auto simp: envelope_json_ok_def record_ok_def)
  then have "?r = [] \<or> last ?r \<noteq> 13" by (metis last_in_set)
  then have "strip_eol (?r @ [10]) = ?r" by (rule strip_eol_record)
  then show ?thesis
    using ok assms(2) by (subst scan_from.simps) (simp add: read_line_record Let_def record_len_def)
qed

lemma scan_written:
  assumes "envelope_json_ok L" and "list_all (\<lambda>e. verify L e = Inr ()) es"
  shows "scan_from L pos (log_bytes L es) = Inr (entries L pos es)"
  using assms(2)
proof (induction es arbitrary: pos)
  case Nil
  then show ?case by (simp add: scan_from.simps)
next
  case (Cons e es)
  then show ?case by (simp add: scan_record [OF assms(1)])
qed

lemma verified_id:
  assumes "crypto_ok L" and "verify L e = Inr ()"
  shows "env_id e = hex_encode L (digest L e)" and "length (digest L e) = 32"
    and "hex_decode L (env_id e) = Some (digest L e)" and "id_bytes L (env_id e) = Inr (digest L e)"
proof -
  show i: "env_id e = hex_encode L (digest L e)"
    using assms(2) by (simp add: verify_ok content_id_def digest_def)
  show l: "length (digest L e) = 32"
    using assms(1) by (simp add: digest_def crypto_ok_def hash_ok_def)
  show d: "hex_decode L (env_id e) = Some (digest L e)"
    using assms(1) i by (simp add: crypto_ok_def hex_ok_def)
  have "digest L e \<noteq> []" using l by auto
  then show "id_bytes L (env_id e) = Inr (digest L e)"
    using d by (simp add: id_bytes_def)
qed

lemma rebuild_written:
  assumes "envelope_json_ok L" and "crypto_ok L" and "list_all (\<lambda>e. verify L e = Inr ()) es"
  shows "rebuild_index L (log_bytes L es) = Inr (index_of L es)"
proof -
  have "mapR (\<lambda>it. id_bytes L (env_id (sc_envelope it))) (entries L pos es) = Inr (map (digest L) es)" for pos
    using assms(3) by (induction es arbitrary: pos) (simp_all add: verified_id(4) [OF assms(2)])
  then show ?thesis
    using scan_written [OF assms(1,3)]
    by (simp add: rebuild_index_def scan_verified_file_def index_of_def)
qed

section \<open>Lookups in the rebuilt index\<close>

definition locations :: "'x proto_lib_scheme \<Rightarrow> nat \<Rightarrow> envelope list \<Rightarrow> (string \<times> bytes) list" where
  "locations L pos es =
    map (\<lambda>it. (env_id (sc_envelope it), encode_location (sc_offset it) (sc_length it))) (entries L pos es)"

lemma locations_simps [simp]:
  "locations L pos [] = []"
  "locations L pos (e # es) =
    (env_id e, encode_location (word_of_nat pos) (word_of_nat (record_len L e)))
    # locations L (pos + record_len L e) es"
  by (simp_all add: locations_def)

lemma locations_append:
  "locations L pos (es @ fs) = locations L pos es @ locations L (pos + length (log_bytes L es)) fs"
  by (simp add: locations_def entries_append)

lemma locations_keys: "map fst (locations L pos es) = map env_id es"
  by (induction es arbitrary: pos) simp_all

lemma t_messages_index_of: "t_messages (index_of L es) = tfill (locations L 0 es)"
  by (simp add: index_of_def message_table_def locations_def)

lemma index_of_message:
  assumes "distinct (map env_id (xs @ e # ys))"
  shows "tget (t_messages (index_of L (xs @ e # ys))) (env_id e) =
    Some (encode_location (word_of_nat (length (log_bytes L xs))) (word_of_nat (record_len L e)))"
proof -
  have "env_id e \<notin> set (map fst (locations L 0 xs))"
    using assms by (simp add: locations_keys)
  then have "map_of (locations L 0 xs) (env_id e) = None"
    by (simp add: map_of_eq_None_iff)
  then have "map_of (locations L 0 (xs @ e # ys)) (env_id e) =
      Some (encode_location (word_of_nat (length (log_bytes L xs))) (word_of_nat (record_len L e)))"
    by (simp add: locations_append map_add_def)
  then show ?thesis
    using assms by (simp only: t_messages_index_of tget_tfill locations_keys)
qed

lemma index_of_absent: "tget (t_messages (index_of L es)) i = None \<longleftrightarrow> i \<notin> env_id ` set es"
proof -
  have "fst ` set (locations L 0 es) = env_id ` set es"
    using locations_keys [of L 0 es] by (metis list.set_map)
  then show ?thesis by (simp add: t_messages_index_of tget_tfill_None)
qed

lemma word_of_nat_less: "i < j \<Longrightarrow> j < merkle_bucket_count \<Longrightarrow> (word_of_nat i :: u64) < word_of_nat j"
  by (simp add: word_less_nat_alt unat_of_nat merkle_bucket_count_def)

lemma bucket_entries_sorted: "tsorted (map (\<lambda>(k, v). (k, f v)) (bucket_entries ids))"
proof -
  have "sorted_wrt (<) (map (\<lambda>i. word_of_nat i :: u64) (filter P [0..<merkle_bucket_count]))" for P
    unfolding sorted_wrt_map
    by (rule sorted_wrt_mono_rel [of _ "(<)"]) (auto simp: word_of_nat_less sorted_wrt_filter)
  then show ?thesis
    by (simp add: tsorted_def bucket_entries_def comp_def)
qed

lemma bucket_entries_get:
  "tget (fill f (bucket_entries ids)) k =
    (if unat k < merkle_bucket_count \<and> bucket ids (unat k) \<noteq> []
     then Some (f (concat (sort (bucket ids (unat k))))) else None)"
proof -
  let ?kvs = "map (\<lambda>(k, v). (k, f v)) (bucket_entries ids)"
  have mem: "(k, v) \<in> set ?kvs \<longleftrightarrow> unat k < merkle_bucket_count \<and> bucket ids (unat k) \<noteq> []
      \<and> v = f (concat (sort (bucket ids (unat k))))" for v
  proof -
    have "unat (word_of_nat i :: u64) = i" if "i < merkle_bucket_count" for i
      using that by (simp add: unat_of_nat merkle_bucket_count_def)
    then show ?thesis
      by (force simp: bucket_entries_def image_iff)
  qed
  have "tget (fill f (bucket_entries ids)) k = Some v \<longleftrightarrow> (k, v) \<in> set ?kvs" for v
    using bucket_entries_sorted [of f ids]
    by (simp add: fill_def tfill_id tget_mem)
  then show ?thesis
    unfolding mem by (auto simp: option.expand) (metis not_Some_eq)+
qed

section \<open>The index kept up incrementally\<close>

lemma bucket_append: "bucket (ids @ [b]) i = bucket ids i @ (if unat (hd b) = i then [b] else [])"
  by (simp add: bucket_def)

lemma unat_ucast_byte [simp]: "unat (ucast (b :: byte) :: u64) = unat b"
  using unsigned_less [of b, where 'a = nat] by (simp add: unsigned_ucast_eq take_bit_nat_eq_self)

lemma byte_less_buckets: "unat (b :: byte) < merkle_bucket_count"
  using unsigned_less [of b, where 'a = nat] by (simp add: merkle_bucket_count_def)

lemma fill_insert:
  assumes "length b = 32" and "list_all (\<lambda>x. length x = 32) ids"
    and "old = (case tget (fill (\<lambda>m. m) (bucket_entries ids)) (ucast (hd b)) of None \<Rightarrow> [] | Some m \<Rightarrow> m)"
  shows "tput (ucast (hd b)) (f (concat (sort (chunks32 (old @ b))))) (fill f (bucket_entries ids)) =
    fill f (bucket_entries (ids @ [b]))"
proof (rule table_eqI)
  let ?i = "unat (hd b)"
  have "old = concat (sort (bucket ids ?i))"
    using assms(3) byte_less_buckets [of "hd b"] by (simp add: bucket_entries_get)
  then have "chunks32 (old @ b) = chunks32 (concat (sort (bucket ids ?i) @ [b]))" by simp
  also have "\<dots> = sort (bucket ids ?i) @ [b]"
    using assms(1,2) by (intro chunks32_concat) (auto simp: bucket_def list_all_iff)
  finally have members: "concat (sort (chunks32 (old @ b))) = concat (sort (bucket (ids @ [b]) ?i))"
    by (simp add: bucket_append sort_snoc_sort)
  show "tget (tput (ucast (hd b)) (f (concat (sort (chunks32 (old @ b))))) (fill f (bucket_entries ids))) k =
      tget (fill f (bucket_entries (ids @ [b]))) k" for k
  proof (cases "k = ucast (hd b)")
    case True
    then show ?thesis
      using members byte_less_buckets [of "hd b"] by (simp add: bucket_entries_get bucket_append)
  next
    case False
    have "unat k \<noteq> ?i"
    proof
      assume "unat k = ?i"
      then have "unat k = unat (ucast (hd b) :: u64)" by simp
      then show False using False by (simp only: word_unat_eq_iff)
    qed
    then show ?thesis using False by (simp add: bucket_entries_get bucket_append)
  qed
  show "tsorted (tput (ucast (hd b)) (f (concat (sort (chunks32 (old @ b))))) (fill f (bucket_entries ids)))"
    "tsorted (fill f (bucket_entries (ids @ [b])))"
    by (simp_all add: fill_def)
qed

lemma tsorted_index_meta [simp]: "tsorted t \<Longrightarrow> tsorted (index_meta l n t)"
  by (simp add: index_meta_def)

lemma tget_index_meta:
  "tget (index_meta l n t) k =
    (if k = ''schema'' then Some 2 else if k = ''message_count'' then Some n
     else if k = ''log_len'' then Some l else tget t k)"
  by (simp add: index_meta_def)

lemma index_meta_again: "index_meta l n (index_meta l' n' []) = index_meta l n []"
  by (rule table_eqI) (simp_all add: tget_index_meta)

lemma index_insert_step:
  assumes "crypto_ok L" and "list_all (\<lambda>x. verify L x = Inr ()) es" and "verify L e = Inr ()"
  shows "index_insert L (index_of L es) (env_id e) (word_of_nat (length (log_bytes L es)))
      (word_of_nat (record_len L e)) (word_of_nat (length (log_bytes L (es @ [e])))) =
    Inr (index_of L (es @ [e]))"
proof -
  have b: "hex_decode L (env_id e) = Some (digest L e)" "length (digest L e) = 32"
    using verified_id [OF assms(1,3)] by simp_all
  have "list_all (\<lambda>x. length x = 32) (map (digest L) es)"
    using assms(2) verified_id(2) [OF assms(1)] by (auto simp: list_all_iff)
  note ins = fill_insert [OF b(2) this refl]
  have "tget (t_meta (index_of L es)) ''message_count'' = Some (word_of_nat (length es))"
    by (simp add: index_of_def tget_index_meta)
  then show ?thesis
    using b ins [of "\<lambda>m. m"] ins [of "blake3 L"]
    by (simp add: index_insert_def Let_def t_messages_index_of locations_append index_of_def
        index_meta_again message_table_def flip: locations_def) (simp add: ac_simps)
qed

section \<open>The relation between files and the abstract log\<close>

text \<open>An index is trustworthy when, if it looks current, it is the one a rebuild would give.\<close>

definition index_ok :: "'x proto_lib_scheme \<Rightarrow> bytes \<Rightarrow> index_db \<Rightarrow> bool" where
  "index_ok L bs db \<longleftrightarrow> (index_current bs db \<longrightarrow> rebuild_index L bs = Inr db)"

definition log_rel :: "'x proto_lib_scheme \<Rightarrow> string \<Rightarrow> channel_ref \<Rightarrow> envelope list \<Rightarrow> node_fs \<Rightarrow> bool" where
  "log_rel L base chan es s \<longleftrightarrow>
    tget (files s) (log_path base chan) = Some (log_bytes L es)
    \<and> length (log_bytes L es) < 2 ^ 64
    \<and> log_wf L chan es
    \<and> index_ok L (log_bytes L es) (get_db (index_path base chan) s)"

lemma log_wf_verified: "log_wf L chan es \<Longrightarrow> list_all (\<lambda>e. verify L e = Inr ()) es"
  by (auto simp: log_wf_def list_all_iff)

lemma index_of_current: "index_current (log_bytes L es) (index_of L es)"
  by (simp add: index_current_def index_of_def tget_index_meta)

lemma log_wf_snoc:
  "log_wf L chan es \<Longrightarrow> verify L e = Inr () \<Longrightarrow> env_channel e = full_name chan \<Longrightarrow>
    env_id e \<notin> env_id ` set es \<Longrightarrow> log_wf L chan (es @ [e])"
  by (auto simp: log_wf_def)

lemma ensure_index_frame [frame_intros]:
  "index_path base chan \<in> P \<Longrightarrow> writes_only P (ensure_index L base chan bs)"
  by (auto simp: writes_only_def same_outside_def ensure_index_def open_db_def put_db_def Let_def
      split: sum.split)

lemma ensure_index_files: "files (snd (ensure_index L base chan bs s)) = files s"
  by (auto simp: ensure_index_def open_db_def put_db_def Let_def split: sum.split)

lemma get_open_db: "get_db p (open_db p s) = get_db p s"
  by (simp add: open_db_def get_db_def put_db_def)

lemma ensure_index_rel:
  assumes "envelope_json_ok L" and "crypto_ok L" and "log_rel L base chan es s"
  shows "\<exists>s'. ensure_index L base chan (log_bytes L es) s = (Inr (index_of L es), s')
    \<and> log_rel L base chan es s' \<and> get_db (index_path base chan) s' = index_of L es
    \<and> same_outside {index_path base chan} s s' \<and> files s' = files s"
proof -
  let ?p = "index_path base chan" and ?bs = "log_bytes L es"
  have wf: "log_wf L chan es" and ok: "index_ok L ?bs (get_db ?p s)"
    using assms(3) by (simp_all add: log_rel_def)
  have rebuilt: "rebuild_index L ?bs = Inr (index_of L es)"
    using rebuild_written [OF assms(1,2) log_wf_verified [OF wf]] .
  define s' where "s' = snd (ensure_index L base chan ?bs s)"
  have run: "ensure_index L base chan ?bs s = (Inr (index_of L es), s') \<and> get_db ?p s' = index_of L es"
  proof (cases "index_current ?bs (get_db ?p s)")
    case True
    then have "get_db ?p s = index_of L es" using ok rebuilt by (simp add: index_ok_def)
    then show ?thesis
      using True by (simp add: s'_def ensure_index_def Let_def get_open_db)
  next
    case False
    then show ?thesis
      using rebuilt by (simp add: s'_def ensure_index_def Let_def get_open_db)
  qed
  have files: "files s' = files s" by (simp add: s'_def ensure_index_files)
  have "same_outside {?p} s s'"
    using writes_onlyD [OF ensure_index_frame conjunct1 [OF run]] by simp
  moreover have "log_rel L base chan es s'"
    using assms(3) run files rebuilt by (simp add: log_rel_def index_ok_def)
  ultimately show ?thesis using run files by blast
qed

lemma open_indexed_rel:
  assumes "envelope_json_ok L" and "crypto_ok L" and "log_rel L base chan es s"
  shows "\<exists>s'. open_indexed L base chan s = (Inr (log_bytes L es, index_of L es), s')
    \<and> log_rel L base chan es s' \<and> files s' = files s \<and> same_outside {index_path base chan} s s'"
proof -
  obtain s' where s': "ensure_index L base chan (log_bytes L es) s = (Inr (index_of L es), s')"
    "log_rel L base chan es s'" "files s' = files s" "same_outside {index_path base chan} s s'"
    using ensure_index_rel [OF assms] by blast
  have "read_file (log_path base chan) s = Inr (log_bytes L es)"
    using assms(3) by (simp add: log_rel_def read_file_def)
  then have "open_indexed L base chan s = (Inr (log_bytes L es, index_of L es), s')"
    by (simp add: open_indexed_def bindS_readS okS_def
        bindS_step [where m = "ensure_index L base chan (log_bytes L es)", OF s'(1)])
  then show ?thesis using s' by blast
qed

section \<open>Reading by id\<close>

lemma decode_encode_location [simp]: "decode_location (encode_location o' l) = Inr (o', l)"
  by (simp add: decode_location_def encode_location_def)

lemma read_at_record:
  assumes "length (xs @ r @ ys) < 2 ^ 64"
  shows "read_at (xs @ r @ ys) (word_of_nat (length xs)) (word_of_nat (length r)) = Inr r"
proof -
  have "unat (word_of_nat (length xs) :: u64) = length xs" "unat (word_of_nat (length r) :: u64) = length r"
    using assms by (simp_all add: unat_of_nat)
  then show ?thesis by (simp add: read_at_def)
qed

lemma read_indexed_written:
  assumes "envelope_json_ok L" and "log_wf L chan (xs @ e # ys)"
    and "length (log_bytes L (xs @ e # ys)) < 2 ^ 64"
  shows "read_indexed_envelope L (log_bytes L (xs @ e # ys)) chan (env_id e)
    (word_of_nat (length (log_bytes L xs))) (word_of_nat (record_len L e)) = Inr e"
proof -
  let ?r = "envelope_json L e @ [10]"
  have "read_at (log_bytes L xs @ ?r @ log_bytes L ys) (word_of_nat (length (log_bytes L xs)))
      (word_of_nat (length ?r)) = Inr ?r"
    using assms(3) by (intro read_at_record) simp
  then have "read_at (log_bytes L (xs @ e # ys)) (word_of_nat (length (log_bytes L xs)))
      (word_of_nat (record_len L e)) = Inr ?r"
    by (simp only: record_len_def) simp
  then show ?thesis
    using assms(1,2) by (simp add: read_indexed_envelope_def envelope_json_ok_def log_wf_def)
qed

lemma find_split: "distinct (map f (xs @ e # ys)) \<Longrightarrow> List.find (\<lambda>x. f x = f e) (xs @ e # ys) = Some e"
  by (induction xs) auto

lemma read_by_id_result:
  assumes "envelope_json_ok L" and "crypto_ok L" and "log_rel L base chan es s"
  shows "\<exists>s'. read_message_by_id L base chan i s =
      (from_option (Log NotIndexed) (List.find (\<lambda>e. env_id e = i) es), s')
    \<and> log_rel L base chan es s' \<and> files s' = files s \<and> same_outside {index_path base chan} s s'"
proof -
  obtain s' where s': "open_indexed L base chan s = (Inr (log_bytes L es, index_of L es), s')"
    "log_rel L base chan es s'" "files s' = files s" "same_outside {index_path base chan} s s'"
    using open_indexed_rel [OF assms] by blast
  have "read_message_by_id L base chan i s =
      (from_option (Log NotIndexed) (List.find (\<lambda>e. env_id e = i) es), s')"
  proof (cases "i \<in> env_id ` set es")
    case False
    then have "List.find (\<lambda>e. env_id e = i) es = None" by (auto simp: find_None_iff)
    moreover have "tget (t_messages (index_of L es)) i = None"
      using False by (simp add: index_of_absent)
    ultimately show ?thesis
      using s'(1) by (simp add: read_message_by_id_def bindS_def liftS_def)
  next
    case True
    then obtain e where e: "e \<in> set es" "i = env_id e" by blast
    then obtain xs ys where es: "es = xs @ e # ys" by (meson split_list)
    have wf: "log_wf L chan es" and len: "length (log_bytes L es) < 2 ^ 64"
      using assms(3) by (simp_all add: log_rel_def)
    then have d: "distinct (map env_id (xs @ e # ys))" by (simp add: log_wf_def es)
    show ?thesis
      using s'(1) index_of_message [OF d, of L]
        read_indexed_written [OF assms(1) wf [unfolded es] len [unfolded es]] find_split [OF d]
      by (simp add: read_message_by_id_def bindS_def liftS_def e(2) es)
  qed
  then show ?thesis using s' by blast
qed

text \<open>Reading a message by id refines searching the channel's list of messages: whatever state the
  index was left in (missing, stale, or current), the result is the message with that id, verified and
  byte-exact, or the error that it is not indexed; the log file is not touched.\<close>

theorem read_message_by_id_refines:
  assumes "envelope_json_ok L" and "crypto_ok L" and "log_rel L base chan es s"
  shows "\<exists>s'. read_message_by_id L base chan i s =
      (from_option (Log NotIndexed) (List.find (\<lambda>e. env_id e = i) es), s')
    \<and> log_rel L base chan es s' \<and> files s' = files s"
  using read_by_id_result [OF assms] by blast

end
