(* ===== verification/Message_Log_Append.thy ===== *)
theory Message_Log_Append
  imports Message_Log_Proofs
begin

text \<open>
  Appending to a channel's log: \<open>append_message\<close> refines adding an envelope to a list without
  duplicates; an append cut short between the write of the record and the update of the index is
  repaired by the next operation; and the bucket summaries that peers compare are a function of the set
  of messages.
\<close>

definition log_append :: "envelope list \<Rightarrow> envelope \<Rightarrow> envelope list" where
  "log_append es e = (if env_id e \<in> env_id ` set es then es else es @ [e])"

lemma index_log_distinct: "index_path base chan \<noteq> log_path base chan"
  "index_path base chan \<noteq> policy_log_path base chan" "index_path base chan \<noteq> policy_path base chan"
  by (simp_all add: index_path_def log_path_def policy_log_path_def policy_path_def channel_file_def
      path_join_same)

section \<open>The write and the index update\<close>

lemma longer_not_current:
  assumes "length (log_bytes L (es @ [e])) < 2 ^ 64"
  shows "\<not> index_current (log_bytes L (es @ [e])) (index_of L es)"
proof
  assume "index_current (log_bytes L (es @ [e])) (index_of L es)"
  then have "(word_of_nat (length (log_bytes L es)) :: u64) = word_of_nat (length (log_bytes L (es @ [e])))"
    using index_of_current [of L es] unfolding index_current_def by (metis option.inject)
  then have "unat (word_of_nat (length (log_bytes L es)) :: u64) =
      unat (word_of_nat (length (log_bytes L (es @ [e]))) :: u64)" by (rule arg_cong)
  moreover have "unat (word_of_nat n :: u64) = n" if "n < 2 ^ 64" for n
    using that by (simp add: unat_of_nat)
  moreover have "length (log_bytes L es) < 2 ^ 64" using assms by simp
  ultimately have "length (log_bytes L es) = length (log_bytes L (es @ [e]))"
    using assms by metis
  then show False by simp
qed

text \<open>The file has the new record, the index does not know it yet.\<close>

lemma append_record_rel:
  assumes "log_rel L base chan es s" and "get_db (index_path base chan) s = index_of L es"
    and "verify L e = Inr ()" and "env_channel e = full_name chan" and "env_id e \<notin> env_id ` set es"
    and "length (log_bytes L (es @ [e])) < 2 ^ 64"
  shows "\<exists>s1. append_file (log_path base chan) (envelope_json L e @ [10]) s = (Inr (), s1)
    \<and> tget (files s1) (log_path base chan) = Some (log_bytes L (es @ [e]))
    \<and> get_db (index_path base chan) s1 = index_of L es
    \<and> log_rel L base chan (es @ [e]) s1"
proof -
  let ?p = "log_path base chan"
  let ?s1 = "s\<lparr>files := tput ?p (log_bytes L (es @ [e])) (files s)\<rparr>"
  have "tget (files s) ?p = Some (log_bytes L es)" using assms(1) by (simp add: log_rel_def)
  then have "append_file ?p (envelope_json L e @ [10]) s = (Inr (), ?s1)"
    by (simp add: append_file_def)
  moreover have "log_wf L chan (es @ [e])"
    using assms(1,3-5) by (simp add: log_rel_def log_wf_snoc)
  moreover have "index_ok L (log_bytes L (es @ [e])) (get_db (index_path base chan) ?s1)"
    using longer_not_current [OF assms(6)] assms(2) unfolding index_ok_def get_db_files by metis
  ultimately show ?thesis
    using assms(2,6) unfolding log_rel_def by (intro exI [of _ ?s1]) simp
qed

lemma insert_at_end_rel:
  assumes "envelope_json_ok L" and "crypto_ok L" and "log_rel L base chan (es @ [e]) s"
  shows "\<exists>s'. insert_at_end L base chan (index_of L es) (env_id e) (record_len L e)
      (log_bytes L (es @ [e])) s = (Inr (), s')
    \<and> log_rel L base chan (es @ [e]) s' \<and> get_db (index_path base chan) s' = index_of L (es @ [e])"
proof -
  let ?s' = "put_db (index_path base chan) (index_of L (es @ [e])) s"
  have v: "list_all (\<lambda>x. verify L x = Inr ()) (es @ [e])"
    using assms(3) log_wf_verified [of L chan "es @ [e]"] unfolding log_rel_def by blast
  have "length (log_bytes L (es @ [e])) - record_len L e = length (log_bytes L es)"
    by (simp add: record_len_def)
  then have "insert_at_end L base chan (index_of L es) (env_id e) (record_len L e)
      (log_bytes L (es @ [e])) s = (Inr (), ?s')"
    using index_insert_step [OF assms(2), of es e] v by (simp add: insert_at_end_def)
  moreover have "log_rel L base chan (es @ [e]) ?s'"
    using assms(3) rebuild_written [OF assms(1,2) v] by (simp add: log_rel_def index_ok_def)
  ultimately show ?thesis by simp
qed

section \<open>Append\<close>

lemma append_message_result:
  assumes "envelope_json_ok L" and "crypto_ok L" and "log_rel L base chan es s"
    and "length (log_bytes L (es @ [e])) < 2 ^ 64"
    and "append_message L base chan e s = (r, s')"
  shows "case r of
      Inl err \<Rightarrow> s' = s \<and> \<not> (env_channel e = full_name chan \<and> is_ok (verify L e)
          \<and> is_ok (authorize_append L base chan (env_from e) s))
    | Inr i \<Rightarrow> i = env_id e \<and> env_channel e = full_name chan \<and> is_ok (verify L e)
        \<and> is_ok (authorize_append L base chan (env_from e) s)
        \<and> log_rel L base chan (log_append es e) s'
        \<and> get_db (index_path base chan) s' = index_of L (log_append es e)"
proof (cases "env_channel e = full_name chan \<and> is_ok (verify L e)
    \<and> is_ok (authorize_append L base chan (env_from e) s)")
  case False
  have "file_exists (log_path base chan) s"
    using assms(3) by (simp add: log_rel_def file_exists_def)
  then have "open_append (channel_dir base chan) (log_path base chan) s = (Inr (), s)"
    by (simp add: open_append_def)
  note open_step = bindS_step [where m = "open_append (channel_dir base chan) (log_path base chan)", OF this]
  have "\<exists>err. append_message L base chan e s = (Inl err, s)"
  proof (cases "env_channel e = full_name chan")
    case True
    then show ?thesis
      using False by (cases "verify L e"; cases "authorize_append L base chan (env_from e) s")
        (auto simp: append_message_def bindS_liftS bindS_readS open_step Let_def)
  qed (simp add: append_message_def bindS_liftS)
  then show ?thesis using assms(5) False by auto
next
  case True
  have v: "verify L e = Inr ()" using True by (auto simp: is_ok_iff)
  obtain u where au: "authorize_append L base chan (env_from e) s = Inr u"
    using True by (auto simp: is_ok_iff)
  have "file_exists (log_path base chan) s" and
    f: "read_file (log_path base chan) s = Inr (log_bytes L es)"
    using assms(3) by (simp_all add: log_rel_def file_exists_def read_file_def)
  then have "open_append (channel_dir base chan) (log_path base chan) s = (Inr (), s)"
    by (simp add: open_append_def)
  note open_step = bindS_step [where m = "open_append (channel_dir base chan) (log_path base chan)", OF this]
  obtain s1 where s1: "ensure_index L base chan (log_bytes L es) s = (Inr (index_of L es), s1)"
    "log_rel L base chan es s1" "get_db (index_path base chan) s1 = index_of L es"
    using ensure_index_rel [OF assms(1-3)] by blast
  note index_step = bindS_step [where m = "ensure_index L base chan (log_bytes L es)", OF s1(1)]
  have start: "append_message L base chan e s =
      (if index_contains (index_of L es) (env_id e) then okS (env_id e)
       else bindS (append_file (log_path base chan) (envelope_json L e @ [10])) (\<lambda>_.
         bindS (readS (read_file (log_path base chan))) (\<lambda>bs'.
         bindS (insert_at_end L base chan (index_of L es) (env_id e) (record_len L e) bs') (\<lambda>_.
         okS (env_id e))))) s1"
    using True v au f
    by (simp add: append_message_def bindS_liftS bindS_readS open_step index_step Let_def record_len_def)
  show ?thesis
  proof (cases "env_id e \<in> env_id ` set es")
    case dup: True
    then have "append_message L base chan e s = (Inr (env_id e), s1)"
      using start by (simp add: index_contains_def index_of_absent okS_def)
    then show ?thesis
      using assms(5) True dup s1(2,3) by (simp add: log_append_def)
  next
    case new: False
    obtain s2 where s2: "append_file (log_path base chan) (envelope_json L e @ [10]) s1 = (Inr (), s2)"
      "tget (files s2) (log_path base chan) = Some (log_bytes L (es @ [e]))"
      "log_rel L base chan (es @ [e]) s2"
      using append_record_rel [OF s1(2,3) v _ new assms(4)] True by blast
    obtain s3 where s3: "insert_at_end L base chan (index_of L es) (env_id e) (record_len L e)
        (log_bytes L (es @ [e])) s2 = (Inr (), s3)"
      "log_rel L base chan (es @ [e]) s3" "get_db (index_path base chan) s3 = index_of L (es @ [e])"
      using insert_at_end_rel [OF assms(1,2) s2(3)] by blast
    note append_step = bindS_step [where m = "append_file (log_path base chan) (envelope_json L e @ [10])", OF s2(1)]
    note insert_step = bindS_step [where m = "insert_at_end L base chan (index_of L es) (env_id e)
        (record_len L e) (log_bytes L (es @ [e]))", OF s3(1)]
    have "read_file (log_path base chan) s2 = Inr (log_bytes L (es @ [e]))"
      using s2(2) by (simp only: read_file_def from_option_simps)
    then have "append_message L base chan e s = (Inr (env_id e), s3)"
      using start new
      by (simp only: index_contains_def index_of_absent not_not if_False append_step bindS_readS
          sum.case insert_step okS_def not_False_eq_True simp_thms)
    then show ?thesis
      using assms(5) True new s3(2,3) by (simp add: log_append_def)
  qed
qed

lemma append_message_frame:
  "writes_only {log_path base chan, index_path base chan} (append_message L base chan e)"
  unfolding append_message_def Let_def insert_at_end_def
  by (intro frame_intros | auto simp: writes_only_def same_outside_def put_db_def ensure_index_def
      Let_def split: sum.split)+

lemma append_message_outside:
  "append_message L base chan e s = (r, s') \<Longrightarrow> same_outside {log_path base chan, index_path base chan} s s'"
  by (rule writes_onlyD [OF append_message_frame])

lemma authorize_append_after:
  assumes "append_message L base chan e s = (r, s')"
  shows "authorize_append L base chan author s' = authorize_append L base chan author s"
proof -
  have "policy_log_path base chan \<noteq> log_path base chan" "policy_path base chan \<noteq> log_path base chan"
    by (simp_all add: policy_log_path_def policy_path_def log_path_def channel_file_def path_join_same)
  then show ?thesis
    using index_log_distinct [of base chan]
    by (simp add: authorize_append_def same_outside_policy [OF append_message_outside [OF assms]] not_sym)
qed

text \<open>C1. Appending refines insertion into a list without duplicates. It succeeds exactly when the envelope
  belongs to the channel, verifies, and its author may write under the policy in force; then the log is
  the old list with the envelope at its end, or unchanged if the id was there, and the index equals the
  one a rebuild from the file gives. When it fails nothing on disk has changed.\<close>

theorem append_message_refines:
  assumes "envelope_json_ok L" and "crypto_ok L" and "log_rel L base chan es s"
    and "length (log_bytes L (es @ [e])) < 2 ^ 64"
    and "append_message L base chan e s = (r, s')"
  shows "case r of
      Inl err \<Rightarrow> s' = s \<and> \<not> (env_channel e = full_name chan \<and> is_ok (verify L e)
          \<and> is_ok (authorize_append L base chan (env_from e) s))
    | Inr i \<Rightarrow> i = env_id e \<and> env_channel e = full_name chan \<and> is_ok (verify L e)
        \<and> is_ok (authorize_append L base chan (env_from e) s)
        \<and> log_rel L base chan (log_append es e) s'
        \<and> get_db (index_path base chan) s' = index_of L (log_append es e)"
  by (rule append_message_result [OF assms])

text \<open>C22. The index update of one append, bucket by bucket, gives exactly the index that a full rebuild of
  the extended log file would give.\<close>

theorem incremental_index_is_rebuilt:
  assumes "envelope_json_ok L" and "crypto_ok L" and "list_all (\<lambda>x. verify L x = Inr ()) (es @ [e])"
    and "rebuild_index L (log_bytes L es) = Inr db"
  shows "index_insert L db (env_id e) (word_of_nat (length (log_bytes L es)))
      (word_of_nat (record_len L e)) (word_of_nat (length (log_bytes L (es @ [e])))) =
    rebuild_index L (log_bytes L (es @ [e]))"
proof -
  have "db = index_of L es"
    using assms(3,4) rebuild_written [OF assms(1,2), of es] by simp
  then show ?thesis
    using index_insert_step [OF assms(2), of es e] assms(3) rebuild_written [OF assms(1,2,3)] by simp
qed

text \<open>C25. A crash after the record is written and before the index is updated loses nothing: from the state
  it leaves, the new message is found by its id.\<close>

theorem interrupted_append_recovers:
  assumes "envelope_json_ok L" and "crypto_ok L" and "log_rel L base chan es s"
    and "get_db (index_path base chan) s = index_of L es"
    and "verify L e = Inr ()" and "env_channel e = full_name chan" and "env_id e \<notin> env_id ` set es"
    and "length (log_bytes L (es @ [e])) < 2 ^ 64"
    and "append_file (log_path base chan) (envelope_json L e @ [10]) s = (Inr (), s1)"
  shows "\<exists>s2. read_message_by_id L base chan (env_id e) s1 = (Inr e, s2)
    \<and> log_rel L base chan (es @ [e]) s2"
proof -
  have rel: "log_rel L base chan (es @ [e]) s1"
    using append_record_rel [OF assms(3-8)] assms(9) by auto
  then have "distinct (map env_id (es @ [e]))" by (simp add: log_rel_def log_wf_def)
  then have "List.find (\<lambda>x. env_id x = env_id e) (es @ [e]) = Some e"
    using find_split [of env_id es e "[]"] by simp
  then show ?thesis
    using read_by_id_result [OF assms(1,2) rel, of "env_id e"] by auto
qed

end
