(* ===== verification/Moderation_Store.thy ===== *)
theory Moderation_Store
  imports Moderation Message_Log_Append
begin

text \<open>
  The moderation files of a channel, from \<open>src/store.rs\<close>: the signed history \<open>moderation.ndjson\<close>, its
  cache \<open>moderation.json\<close> and the directory \<open>moderation-conflicts\<close>, with every operation that reads or
  writes them. Shown: an action is an atomic extension of the history whose outcome is the state read
  back, only an existing message can be hidden, and a peer's history is taken over only as an extension.
\<close>

definition moderation_log_path :: "string \<Rightarrow> channel_ref \<Rightarrow> string" where
  "moderation_log_path base chan = channel_file base (full_name chan) ''moderation.ndjson''"

definition moderation_cache_path :: "string \<Rightarrow> channel_ref \<Rightarrow> string" where
  "moderation_cache_path base chan = channel_file base (full_name chan) ''moderation.json''"

definition moderation_conflict_dir :: "string \<Rightarrow> channel_ref \<Rightarrow> string" where
  "moderation_conflict_dir base chan = channel_file base (full_name chan) ''moderation-conflicts''"

section \<open>Reading\<close>

definition parse_moderation_events ::
  "'x moderation_lib_scheme \<Rightarrow> bytes \<Rightarrow> moderation_event list result" where
  "parse_moderation_events L bs = parse_lines (moderation_event_of_json L) (byte_lines bs)"

definition read_moderation_history_unlocked ::
  "'x moderation_lib_scheme \<Rightarrow> string \<Rightarrow> channel_ref \<Rightarrow> node_fs \<Rightarrow> moderation_event list result" where
  "read_moderation_history_unlocked L base chan s =
    (let path = moderation_log_path base chan in
     if \<not> file_exists path s then Inr []
     else bindR (read_file path s) (\<lambda>bs.
          bindR (parse_moderation_events L bs) (\<lambda>events.
          bindR (derive_moderation L base chan events s) (\<lambda>_. Inr events))))"

definition read_moderation_history ::
  "'x moderation_lib_scheme \<Rightarrow> string \<Rightarrow> channel_ref \<Rightarrow> node_fs \<Rightarrow> moderation_event list result" where
  "read_moderation_history L base chan s =
    bindR (open_history_lock base chan s) (\<lambda>_. read_moderation_history_unlocked L base chan s)"

definition moderation_state ::
  "'x moderation_lib_scheme \<Rightarrow> string \<Rightarrow> channel_ref \<Rightarrow> node_fs \<Rightarrow> moderation_state result" where
  "moderation_state L base chan s =
    bindR (read_moderation_history L base chan s) (\<lambda>events. derive_moderation L base chan events s)"

section \<open>Writing\<close>

definition write_moderation_cache ::
  "'x moderation_lib_scheme \<Rightarrow> string \<Rightarrow> channel_ref \<Rightarrow> moderation_state \<Rightarrow> unit io" where
  "write_moderation_cache L base chan st =
    replace_file (channel_dir base chan) (moderation_cache_path base chan) (moderation_state_json L st)"

definition append_moderation_lines ::
  "'x moderation_lib_scheme \<Rightarrow> string \<Rightarrow> channel_ref \<Rightarrow> moderation_event list \<Rightarrow> unit io" where
  "append_moderation_lines L base chan events =
    bindS (open_append (channel_dir base chan) (moderation_log_path base chan)) (\<lambda>_.
    append_file (moderation_log_path base chan) (write_lines (moderation_event_json L) events))"

definition append_moderation_action ::
  "'x moderation_lib_scheme \<Rightarrow> i64 \<Rightarrow> string \<Rightarrow> channel_ref \<Rightarrow> keypair \<Rightarrow> moderation_action
    \<Rightarrow> moderation_state io" where
  "append_moderation_action L now base chan signer action =
    bindS (readS (open_log base chan)) (\<lambda>_.
    bindS (readS (open_history_lock base chan)) (\<lambda>_.
    bindS (readS (read_moderation_history_unlocked L base chan)) (\<lambda>events.
    bindS (readS (read_policy_history L base chan)) (\<lambda>ph.
    bindS (liftS (from_option (History NoSignedPolicy) (last_id pe_id None ph))) (\<lambda>policy_head.
    bindS (liftS (sign_moderation_event L now chan signer (last_id me_id None events) policy_head action)) (\<lambda>e.
    bindS (readS (derive_moderation L base chan (events @ [e]))) (\<lambda>st.
    bindS (append_moderation_lines L base chan [e]) (\<lambda>_.
    bindS (write_moderation_cache L base chan st) (\<lambda>_.
    okS st)))))))))"

definition tombstone_message ::
  "'x moderation_lib_scheme \<Rightarrow> i64 \<Rightarrow> string \<Rightarrow> channel_ref \<Rightarrow> keypair \<Rightarrow> string \<Rightarrow> string option
    \<Rightarrow> moderation_state io" where
  "tombstone_message L now base chan signer target reason =
    bindS (read_message_by_id L base chan target) (\<lambda>_.
    append_moderation_action L now base chan signer (Tombstone target reason))"

definition restore_message ::
  "'x moderation_lib_scheme \<Rightarrow> i64 \<Rightarrow> string \<Rightarrow> channel_ref \<Rightarrow> keypair \<Rightarrow> string \<Rightarrow> moderation_state io" where
  "restore_message L now base chan signer target =
    append_moderation_action L now base chan signer (Restore target)"

section \<open>Histories received from peers\<close>

definition append_remote_moderation_history ::
  "'x moderation_lib_scheme \<Rightarrow> string \<Rightarrow> channel_ref \<Rightarrow> moderation_event list \<Rightarrow> moderation_state io" where
  "append_remote_moderation_history L base chan remote =
    bindS (readS (open_log base chan)) (\<lambda>_.
    bindS (readS (open_history_lock base chan)) (\<lambda>_.
    bindS (readS (read_moderation_history_unlocked L base chan)) (\<lambda>local.
    bindS (readS (validate_moderation_history L base chan remote)) (\<lambda>_.
    bindS (liftS (guardR (id_prefix me_id local remote) (History NotAnExtension))) (\<lambda>_.
    bindS (if length remote > length local
           then append_moderation_lines L base chan (drop (length local) remote)
           else okS ()) (\<lambda>_.
    bindS (readS (derive_moderation L base chan remote)) (\<lambda>st.
    bindS (write_moderation_cache L base chan st) (\<lambda>_.
    okS st))))))))"

definition save_moderation_conflict ::
  "'x moderation_lib_scheme \<Rightarrow> string \<Rightarrow> channel_ref \<Rightarrow> moderation_event list \<Rightarrow> string io" where
  "save_moderation_conflict L base chan events =
    bindS (readS (validate_moderation_history L base chan events)) (\<lambda>_.
    bindS (liftS (if events = [] then Inl (History EmptyConflict) else Inr (me_id (last events)))) (\<lambda>head.
    let dir = moderation_conflict_dir base chan in
    bindS (ensure_dir dir) (\<lambda>_.
    bindS (replace_file dir (conflict_file dir head) (write_lines (moderation_event_json L) events)) (\<lambda>_.
    okS head))))"

definition list_moderation_conflicts :: "string \<Rightarrow> channel_ref \<Rightarrow> node_fs \<Rightarrow> string list" where
  "list_moderation_conflicts base chan s =
    (let dir = moderation_conflict_dir base chan in
     if \<not> dir_exists dir s then [] else sort (map file_stem (dir_files dir s)))"

definition read_moderation_conflict ::
  "'x moderation_lib_scheme \<Rightarrow> string \<Rightarrow> channel_ref \<Rightarrow> string \<Rightarrow> node_fs \<Rightarrow> moderation_event list result"
where
  "read_moderation_conflict L base chan head s =
    bindR (read_file (conflict_file (moderation_conflict_dir base chan) head) s) (\<lambda>bs.
    bindR (from_utf8 bs) (\<lambda>_.
    bindR (parse_moderation_events L bs) (\<lambda>events.
    if last_id me_id None events \<noteq> Some head then Inl (History ConflictHeadMismatch)
    else Inr events)))"

definition replace_moderation_history ::
  "'x moderation_lib_scheme \<Rightarrow> string \<Rightarrow> channel_ref \<Rightarrow> moderation_event list \<Rightarrow> unit io" where
  "replace_moderation_history L base chan events =
    replace_file (channel_dir base chan) (moderation_log_path base chan)
      (write_lines (moderation_event_json L) events)"

definition resolve_moderation_conflict ::
  "'x moderation_lib_scheme \<Rightarrow> string \<Rightarrow> channel_ref \<Rightarrow> string \<Rightarrow> moderation_state io" where
  "resolve_moderation_conflict L base chan head =
    bindS (liftS (validate_public_key L head)) (\<lambda>_.
    bindS (readS (read_moderation_conflict L base chan head)) (\<lambda>events.
    bindS (readS (validate_moderation_history L base chan events)) (\<lambda>st.
    bindS (readS (open_log base chan)) (\<lambda>_.
    bindS (readS (open_history_lock base chan)) (\<lambda>_.
    bindS (readS (read_moderation_history_unlocked L base chan)) (\<lambda>current.
    bindS (if current \<noteq> [] \<and> last_id me_id None current \<noteq> last_id me_id None events
           then bindS (save_moderation_conflict L base chan current) (\<lambda>_. okS ())
           else okS ()) (\<lambda>_.
    bindS (replace_moderation_history L base chan events) (\<lambda>_.
    bindS (write_moderation_cache L base chan st) (\<lambda>_.
    okS st)))))))))"

section \<open>Paths and files\<close>

lemma moderation_paths [simp]:
  "moderation_log_path base chan \<noteq> moderation_cache_path base chan"
  "moderation_cache_path base chan \<noteq> moderation_log_path base chan"
  "policy_log_path base chan \<noteq> moderation_log_path base chan"
  "policy_log_path base chan \<noteq> moderation_cache_path base chan"
  "policy_path base chan \<noteq> moderation_log_path base chan"
  "policy_path base chan \<noteq> moderation_cache_path base chan"
  "log_path base chan \<noteq> moderation_log_path base chan"
  "log_path base chan \<noteq> moderation_cache_path base chan"
  "moderation_log_path base chan \<noteq> index_path base chan"
  "moderation_cache_path base chan \<noteq> index_path base chan"
  "moderation_log_path base chan \<noteq> log_path base chan"
  "moderation_cache_path base chan \<noteq> log_path base chan"
  "index_path base chan \<noteq> moderation_log_path base chan"
  "index_path base chan \<noteq> moderation_cache_path base chan"
  by (simp_all add: moderation_log_path_def moderation_cache_path_def policy_log_path_def policy_path_def
      log_path_def index_path_def channel_file_def path_join_same)

definition moderation_json_ok :: "'x moderation_lib_scheme \<Rightarrow> bool" where
  "moderation_json_ok L \<longleftrightarrow>
    (\<forall>e. moderation_event_of_json L (moderation_event_json L e) = Some e
      \<and> record_ok (moderation_event_json L e) \<and> utf8_valid (moderation_event_json L e)
      \<and> \<not> blank (moderation_event_json L e))"

interpretation moderation_file: event_file moderation_json_ok moderation_event_json moderation_event_of_json
  by unfold_locales (auto simp: moderation_json_ok_def)

definition moderation_log_complete :: "string \<Rightarrow> channel_ref \<Rightarrow> node_fs \<Rightarrow> bool" where
  "moderation_log_complete base chan s \<longleftrightarrow>
    (case tget (files s) (moderation_log_path base chan) of None \<Rightarrow> True | Some bs \<Rightarrow> complete_file bs)"

lemma same_outside_history:
  assumes "same_outside P s t" and "policy_log_path base chan \<notin> P"
  shows "read_policy_history L base chan t = read_policy_history L base chan s"
  using same_outside_dir [OF assms(1)]
  by (simp add: read_policy_history_def open_history_lock_def same_outside_unlocked(1) [OF assms])

lemma same_outside_derive:
  assumes "same_outside P s t" and "policy_log_path base chan \<notin> P"
  shows "derive_moderation L base chan es t = derive_moderation L base chan es s"
  by (simp add: derive_moderation_def same_outside_history [OF assms])

lemma same_outside_moderation:
  assumes "same_outside P s t" and "policy_log_path base chan \<notin> P" and "moderation_log_path base chan \<notin> P"
  shows "read_moderation_history_unlocked L base chan t = read_moderation_history_unlocked L base chan s"
    and "moderation_log_complete base chan t = moderation_log_complete base chan s"
proof -
  have "tget (files t) (moderation_log_path base chan) = tget (files s) (moderation_log_path base chan)"
    using assms(1,3) by (simp add: same_outside_def)
  then show "read_moderation_history_unlocked L base chan t = read_moderation_history_unlocked L base chan s"
    "moderation_log_complete base chan t = moderation_log_complete base chan s"
    by (simp_all add: read_moderation_history_unlocked_def Let_def file_exists_def read_file_def
        moderation_log_complete_def same_outside_derive [OF assms(1,2)])
qed

lemma read_moderation_file:
  "tget (files s) (moderation_log_path base chan) = Some bs \<Longrightarrow>
    read_moderation_history_unlocked L base chan s = Inr es \<longleftrightarrow>
      parse_moderation_events L bs = Inr es \<and> is_ok (derive_moderation L base chan es s)"
  by (auto simp: read_moderation_history_unlocked_def Let_def file_exists_def read_file_def bindR_ok is_ok_iff)

lemma read_moderation_none:
  "tget (files s) (moderation_log_path base chan) = None \<Longrightarrow>
    read_moderation_history_unlocked L base chan s = Inr []"
  by (simp add: read_moderation_history_unlocked_def file_exists_def)

section \<open>Extending the history\<close>

definition moderation_written ::
  "'x moderation_lib_scheme \<Rightarrow> string \<Rightarrow> channel_ref \<Rightarrow> moderation_event list \<Rightarrow> moderation_state \<Rightarrow> node_fs
    \<Rightarrow> bool"
where
  "moderation_written L base chan es st s \<longleftrightarrow>
    read_moderation_history L base chan s = Inr es
    \<and> moderation_state L base chan s = Inr st
    \<and> tget (files s) (moderation_cache_path base chan) = Some (moderation_state_json L st)
    \<and> moderation_log_complete base chan s"

lemma moderation_lines_ok:
  assumes "moderation_json_ok L" and "moderation_log_complete base chan s"
    and "dir_exists (channel_dir base chan) s"
    and "read_moderation_history_unlocked L base chan s = Inr es"
    and "derive_moderation L base chan (es @ new) s = Inr st"
  shows "\<exists>s'. append_moderation_lines L base chan new s = (Inr (), s')
    \<and> read_moderation_history_unlocked L base chan s' = Inr (es @ new)
    \<and> moderation_log_complete base chan s'
    \<and> same_outside {moderation_log_path base chan} s s'"
proof -
  let ?p = "moderation_log_path base chan" and ?w = "write_lines (moderation_event_json L) new"
  have "\<exists>old. tget (files s) ?p = old \<and> complete_file (case old of None \<Rightarrow> [] | Some b \<Rightarrow> b)
      \<and> parse_moderation_events L (case old of None \<Rightarrow> [] | Some b \<Rightarrow> b) = Inr es"
    using assms(2,4)
    by (cases "tget (files s) ?p")
       (auto simp: moderation_log_complete_def read_moderation_none read_moderation_file
          parse_moderation_events_def complete_file_def)
  then obtain old where old: "tget (files s) ?p = old"
      "complete_file (case old of None \<Rightarrow> [] | Some b \<Rightarrow> b)"
      "parse_moderation_events L (case old of None \<Rightarrow> [] | Some b \<Rightarrow> b) = Inr es"
    by blast
  let ?bs = "(case old of None \<Rightarrow> [] | Some b \<Rightarrow> b) @ ?w"
  define s' where "s' = snd (append_moderation_lines L base chan new s)"
  have run: "append_moderation_lines L base chan new s = (Inr (), s')"
    and written: "tget (files s') ?p = Some ?bs"
    using old(1) assms(3)
    by (auto simp: s'_def append_moderation_lines_def bindS_def open_append_def file_exists_def
        append_file_def split: option.splits)
  have "writes_only {?p} (append_moderation_lines L base chan new)"
    unfolding append_moderation_lines_def by (intro frame_intros) simp_all
  then have so: "same_outside {?p} s s'" using run writes_onlyD by blast
  have "parse_moderation_events L ?bs = Inr (es @ new)"
    using old(3) moderation_file.parse_written [OF assms(1), of new]
    by (simp add: parse_moderation_events_def byte_lines_append [OF old(2)] parse_lines_append)
  then have "read_moderation_history_unlocked L base chan s' = Inr (es @ new)"
    using written assms(5) by (simp add: read_moderation_file same_outside_derive [OF so])
  moreover have "moderation_log_complete base chan s'"
    using written complete_append [OF old(2) complete_written] by (simp add: moderation_log_complete_def)
  ultimately show ?thesis using run so by blast
qed

lemma moderation_cache_ok:
  assumes "moderation_log_complete base chan s" and "dir_exists (channel_dir base chan) s"
    and "read_moderation_history_unlocked L base chan s = Inr es"
    and "derive_moderation L base chan es s = Inr st"
  shows "\<exists>s'. write_moderation_cache L base chan st s = (Inr (), s')
    \<and> moderation_written L base chan es st s' \<and> same_outside {moderation_cache_path base chan} s s'"
proof -
  let ?c = "moderation_cache_path base chan"
  have w: "writes_only {?c} (write_moderation_cache L base chan st)"
    unfolding write_moderation_cache_def by (intro frame_intros) simp
  obtain s' where run: "write_moderation_cache L base chan st s = (Inr (), s')"
    and cached: "tget (files s') ?c = Some (moderation_state_json L st)"
    using assms(2) by (simp add: write_moderation_cache_def replace_file_def)
  have so: "same_outside {?c} s s'" using writes_onlyD [OF w run] .
  have out: "policy_log_path base chan \<notin> {?c}" "moderation_log_path base chan \<notin> {?c}" by simp_all
  have "dir_exists (channel_dir base chan) s'" using so assms(2) by (simp add: same_outside_dir)
  then have "read_moderation_history L base chan s' = Inr es"
    using assms(3) by (simp add: read_moderation_history_def open_history_lock_def
        same_outside_moderation(1) [OF so out])
  moreover have "derive_moderation L base chan es s' = Inr st"
    using assms(4) by (simp add: same_outside_derive [OF so out(1)])
  ultimately show ?thesis
    using run cached so assms(1)
    by (auto simp: moderation_written_def moderation_state_def same_outside_moderation(2) [OF so out])
qed

lemma extend_moderation_ok:
  assumes "moderation_json_ok L" and "moderation_log_complete base chan s"
    and "dir_exists (channel_dir base chan) s"
    and "read_moderation_history_unlocked L base chan s = Inr es"
    and "derive_moderation L base chan (es @ new) s = Inr st"
  shows "\<exists>s1 s2. append_moderation_lines L base chan new s = (Inr (), s1)
    \<and> derive_moderation L base chan ks s1 = derive_moderation L base chan ks s
    \<and> write_moderation_cache L base chan st s1 = (Inr (), s2)
    \<and> moderation_written L base chan (es @ new) st s2
    \<and> same_outside {moderation_log_path base chan, moderation_cache_path base chan} s s2"
proof -
  let ?P = "{moderation_log_path base chan, moderation_cache_path base chan}"
  obtain s1 where s1: "append_moderation_lines L base chan new s = (Inr (), s1)"
    "read_moderation_history_unlocked L base chan s1 = Inr (es @ new)"
    "moderation_log_complete base chan s1" "same_outside {moderation_log_path base chan} s s1"
    using moderation_lines_ok [OF assms] by blast
  have d: "derive_moderation L base chan xs s1 = derive_moderation L base chan xs s" for xs
    by (simp add: same_outside_derive [OF s1(4)])
  have "dir_exists (channel_dir base chan) s1" using s1(4) assms(3) by (simp add: same_outside_dir)
  then obtain s2 where s2: "write_moderation_cache L base chan st s1 = (Inr (), s2)"
    "moderation_written L base chan (es @ new) st s2" "same_outside {moderation_cache_path base chan} s1 s2"
    using moderation_cache_ok [OF s1(3) _ s1(2)] assms(5) d by metis
  have "same_outside ?P s s2"
    using same_outside_trans [OF same_outside_mono [OF s1(4)] same_outside_mono [OF s2(3)], of ?P] by simp
  then show ?thesis using s1(1) s2(1,2) d by blast
qed

section \<open>Own actions\<close>

lemma sign_moderation_fields:
  "sign_moderation_event L now chan signer q head act = Inr e \<Longrightarrow>
    me_action e = act \<and> me_actor e = public_key signer \<and> me_policy_head e = head"
  by (auto simp: sign_moderation_event_def Let_def bindR_ok)

lemma append_moderation_result:
  assumes "moderation_json_ok L" and "moderation_log_complete base chan s"
    and "append_moderation_action L now base chan signer action s = (r, s')"
  shows "case r of
      Inl err \<Rightarrow> s' = s
    | Inr st \<Rightarrow> \<exists>es e ph. read_moderation_history L base chan s = Inr es
        \<and> read_policy_history L base chan s = Inr ph \<and> ph \<noteq> []
        \<and> me_action e = action \<and> me_actor e = public_key signer \<and> me_policy_head e = pe_id (last ph)
        \<and> derive_moderation L base chan (es @ [e]) s = Inr st
        \<and> moderation_written L base chan (es @ [e]) st s'
        \<and> same_outside {moderation_log_path base chan, moderation_cache_path base chan} s s'"
proof -
  define pre where "pre = bindR (open_log base chan s) (\<lambda>_.
      bindR (open_history_lock base chan s) (\<lambda>_.
      bindR (read_moderation_history_unlocked L base chan s) (\<lambda>es.
      bindR (read_policy_history L base chan s) (\<lambda>ph.
      bindR (from_option (History NoSignedPolicy) (last_id pe_id None ph)) (\<lambda>head.
      bindR (sign_moderation_event L now chan signer (last_id me_id None es) head action) (\<lambda>e.
      bindR (derive_moderation L base chan (es @ [e]) s) (\<lambda>st. Inr (es, e, ph, st))))))))"
  have split: "append_moderation_action L now base chan signer action s =
      (case pre of Inl e \<Rightarrow> (Inl e, s)
       | Inr (es, e, ph, st) \<Rightarrow> bindS (append_moderation_lines L base chan [e]) (\<lambda>_.
           bindS (write_moderation_cache L base chan st) (\<lambda>_. okS st)) s)"
    unfolding append_moderation_action_def pre_def bindS_readS bindS_liftS
    by (auto split: sum.splits)
  show ?thesis
  proof (cases pre)
    case (Inl err)
    then show ?thesis using split assms(3) by simp
  next
    case (Inr x)
    obtain es e ph st where x: "x = (es, e, ph, st)" by (cases x)
    have parts: "open_history_lock base chan s = Inr ()"
      "read_moderation_history_unlocked L base chan s = Inr es"
      "read_policy_history L base chan s = Inr ph"
      "\<exists>head. last_id pe_id None ph = Some head
        \<and> sign_moderation_event L now chan signer (last_id me_id None es) head action = Inr e"
      "derive_moderation L base chan (es @ [e]) s = Inr st"
      using Inr x by (auto simp: pre_def bindR_ok from_option_ok)
    have dir: "dir_exists (channel_dir base chan) s"
      using parts(1) by (simp add: open_history_lock_def guardR_ok)
    from extend_moderation_ok [OF assms(1,2) dir parts(2,5)] obtain s1 s2 where w:
      "append_moderation_lines L base chan [e] s = (Inr (), s1)"
      "write_moderation_cache L base chan st s1 = (Inr (), s2)"
      "moderation_written L base chan (es @ [e]) st s2"
      "same_outside {moderation_log_path base chan, moderation_cache_path base chan} s s2" by blast
    have run: "r = Inr st" "s' = s2"
      using split assms(3) Inr x w(1,2) by (simp_all add: bindS_def okS_def)
    have "read_moderation_history L base chan s = Inr es"
      using parts(1,2) by (simp add: read_moderation_history_def)
    moreover have "ph \<noteq> [] \<and> me_action e = action \<and> me_actor e = public_key signer
        \<and> me_policy_head e = pe_id (last ph)"
      using parts(4) by (auto simp: last_id_def dest: sign_moderation_fields split: if_splits)
    ultimately show ?thesis using run w(3,4) parts(3,5) by auto
  qed
qed

lemma derive_snoc_hidden:
  assumes "derive_moderation L base chan es s = Inr old" and "derive_moderation L base chan (es @ [e]) s = Inr st"
  shows "tget st t = (if action_target (me_action e) = t
    then (case me_action e of Tombstone _ r \<Rightarrow> Some r | Restore _ \<Rightarrow> None) else tget old t)"
proof -
  have "tget old t = hidden_by es t" "tget st t = hidden_by (es @ [e]) t"
    using assms replay_moderation_get by (auto simp: derive_moderation_def bindR_ok)
  then show ?thesis by (simp add: hidden_by_snoc)
qed

lemma same_outside_log_rel:
  assumes "same_outside P s t" and "log_path base chan \<notin> P" and "index_path base chan \<notin> P"
  shows "log_rel L base chan es t = log_rel L base chan es s"
  using assms by (simp add: log_rel_def same_outside_def same_outside_db [OF assms(1,3)])

text \<open>Hiding a message: it succeeds only for a message that is in the channel's log, and then the
  moderation state read back hides exactly that message, with the given reason, besides what was hidden
  before; the log itself is never altered. If it is refused, no file changes.\<close>

theorem tombstone_message_effect:
  assumes "moderation_json_ok L" and "envelope_json_ok L" and "crypto_ok L"
    and "log_rel L base chan msgs s" and "moderation_log_complete base chan s"
    and "tombstone_message L now base chan signer target reason s = (r, s')"
  shows "log_rel L base chan msgs s' \<and> (case r of
      Inl err \<Rightarrow> files s' = files s
    | Inr st \<Rightarrow> target \<in> env_id ` set msgs \<and> moderation_state L base chan s' = Inr st
        \<and> tget st target = Some reason
        \<and> (\<forall>old. moderation_state L base chan s = Inr old \<longrightarrow> (\<forall>t. t \<noteq> target \<longrightarrow> tget st t = tget old t)))"
proof -
  let ?P = "{moderation_log_path base chan, moderation_cache_path base chan}"
  obtain s1 where s1: "read_message_by_id L base chan target s =
      (from_option (Log NotIndexed) (List.find (\<lambda>e. env_id e = target) msgs), s1)"
    "log_rel L base chan msgs s1" "files s1 = files s" "same_outside {index_path base chan} s s1"
    using read_by_id_result [OF assms(2-4)] by blast
  have paths: "policy_log_path base chan \<notin> {index_path base chan}"
    "moderation_log_path base chan \<notin> {index_path base chan}"
    using index_log_distinct [of base chan] by auto
  show ?thesis
  proof (cases "List.find (\<lambda>e. env_id e = target) msgs")
    case None
    then have "r = Inl (Log NotIndexed)" "s' = s1"
      using s1(1) assms(6) by (simp_all add: tombstone_message_def bindS_def)
    then show ?thesis using s1(2,3) by simp
  next
    case (Some m)
    then have found: "target \<in> env_id ` set msgs" by (auto simp: find_Some_iff)
    have app: "append_moderation_action L now base chan signer (Tombstone target reason) s1 = (r, s')"
      using Some s1(1) assms(6) by (simp add: tombstone_message_def bindS_def)
    have c1: "moderation_log_complete base chan s1"
      using assms(5) by (simp add: same_outside_moderation(2) [OF s1(4) paths])
    show ?thesis
    proof (cases r)
      case (Inl err)
      then have "s' = s1" using append_moderation_result [OF assms(1) c1 app] by simp
      then show ?thesis using Inl s1(2,3) by simp
    next
      case (Inr st)
      then obtain es e where e: "read_moderation_history L base chan s1 = Inr es"
        "me_action e = Tombstone target reason" "derive_moderation L base chan (es @ [e]) s1 = Inr st"
        "moderation_written L base chan (es @ [e]) st s'" "same_outside ?P s1 s'"
        using append_moderation_result [OF assms(1) c1 app] by auto
      have st_read: "moderation_state L base chan s' = Inr st"
        using e(4) by (simp add: moderation_written_def)
      have rel: "log_rel L base chan msgs s'"
        using s1(2) index_log_distinct [of base chan]
        by (subst same_outside_log_rel [OF e(5)]) auto
      obtain mid where mid: "derive_moderation L base chan es s1 = Inr mid"
        using e(3) unfolding derive_moderation_snoc by (auto simp: derive_moderation_def bindR_ok)
      have get: "tget st t = (if target = t then Some reason else tget mid t)" for t
        using derive_snoc_hidden [OF mid e(3)] e(2) by simp
      have "open_history_lock base chan s1 = open_history_lock base chan s"
        by (simp add: open_history_lock_def same_outside_dir [OF s1(4)])
      then have "read_moderation_history L base chan s = Inr es"
        using e(1) by (simp add: read_moderation_history_def same_outside_moderation(1) [OF s1(4) paths])
      then have "moderation_state L base chan s = Inr mid"
        using mid by (simp add: moderation_state_def same_outside_derive [OF s1(4) paths(1)])
      then show ?thesis using Inr found st_read rel get by simp
    qed
  qed
qed

section \<open>A peer's history\<close>

definition no_moderation_collision ::
  "'x moderation_lib_scheme \<Rightarrow> moderation_event list \<Rightarrow> moderation_event list \<Rightarrow> bool" where
  "no_moderation_collision L es fs \<longleftrightarrow>
    (\<forall>a \<in> set es. \<forall>b \<in> set fs.
      content_id L (moderation_payload_json L (moderation_payload_of a)) =
      content_id L (moderation_payload_json L (moderation_payload_of b))
      \<longrightarrow> moderation_payload_of a = moderation_payload_of b)"

lemma same_ids_same_moderation:
  assumes "no_moderation_collision L es fs" and "map me_id es = map me_id fs"
    and "replay_moderation L chan ph st q es = Inr x" and "replay_moderation L chan ph st q fs = Inr y"
  shows "x = y"
  using assms
proof (induction es arbitrary: st q fs)
  case Nil
  then show ?case by simp
next
  case (Cons e es)
  then obtain f fs' where fs: "fs = f # fs'" "me_id e = me_id f" "map me_id es = map me_id fs'"
    by auto
  obtain s1 s2 where s: "moderation_step L chan ph st q e = Inr s1"
      "replay_moderation L chan ph s1 (Some (me_id e)) es = Inr x"
      "moderation_step L chan ph st q f = Inr s2" "replay_moderation L chan ph s2 (Some (me_id f)) fs' = Inr y"
    using Cons.prems(3,4) fs(1) by (auto simp: bindR_ok)
  have "moderation_payload_of e = moderation_payload_of f"
    using Cons.prems(1) s(1,3) fs(1,2) by (auto simp: no_moderation_collision_def moderation_step_ok)
  then have "me_action e = me_action f" by (simp add: moderation_payload_of_def)
  then have "s1 = s2" using s(1,3) by (simp add: moderation_step_ok)
  moreover have "no_moderation_collision L es fs'"
    using Cons.prems(1) fs(1) by (simp add: no_moderation_collision_def)
  ultimately show ?case using Cons.IH s(2,4) fs(2,3) by metis
qed

lemma merged_moderation:
  assumes "no_moderation_collision L loc rem" and "id_prefix me_id loc rem"
    and "is_ok (derive_moderation L base chan loc s)" and "derive_moderation L base chan rem s = Inr st"
  shows "derive_moderation L base chan (loc @ drop (length loc) rem) s = Inr st
    \<and> map me_id (loc @ drop (length loc) rem) = map me_id rem"
proof -
  let ?n = "length loc"
  have split: "rem = take ?n rem @ drop ?n rem" by simp
  have ids: "map me_id loc = map me_id (take ?n rem)"
    using assms(2) by (simp add: id_prefix_map take_map)
  obtain ph q where ph: "read_policy_history L base chan s = Inr ph"
    and q: "replay_moderation L chan ph [] None loc = Inr q"
    using assms(3) by (auto simp: is_ok_iff derive_moderation_def bindR_ok)
  have "replay_moderation L chan ph [] None (take ?n rem @ drop ?n rem) = Inr st"
    using assms(4) ph by (simp add: derive_moderation_def)
  then obtain q' where q': "replay_moderation L chan ph [] None (take ?n rem) = Inr q'"
      "replay_moderation L chan ph q' (last_id me_id None (take ?n rem)) (drop ?n rem) = Inr st"
    unfolding moderation_chain.replay_append by (auto simp: bindR_ok)
  have "no_moderation_collision L loc (take ?n rem)"
    using assms(1) in_set_takeD by (fastforce simp: no_moderation_collision_def)
  then have "q = q'" using same_ids_same_moderation [OF _ ids] q q'(1) by blast
  moreover have "last_id me_id None loc = last_id me_id None (take ?n rem)"
    using ids unfolding last_id_def by (metis last_map map_is_Nil_conv)
  ultimately have "derive_moderation L base chan (loc @ drop ?n rem) s = Inr st"
    using ph q q'(2) by (simp add: derive_moderation_def moderation_chain.replay_append)
  moreover have "map me_id (loc @ drop ?n rem) = map me_id rem"
    using ids split by (metis map_append)
  ultimately show ?thesis by blast
qed

lemma read_moderation_derives:
  assumes "read_moderation_history_unlocked L base chan s = Inr loc"
    and "is_ok (derive_moderation L base chan rem s)"
  shows "is_ok (derive_moderation L base chan loc s)"
proof (cases "tget (files s) (moderation_log_path base chan)")
  case None
  then have "loc = []" using assms(1) by (simp add: read_moderation_none)
  then show ?thesis using assms(2) by (auto simp: derive_moderation_def is_ok_iff bindR_ok)
next
  case (Some bs)
  then show ?thesis using assms(1) by (simp add: read_moderation_file)
qed

lemma append_remote_moderation_result:
  assumes "moderation_json_ok L" and "moderation_log_complete base chan s"
    and "\<And>loc. read_moderation_history L base chan s = Inr loc \<Longrightarrow> no_moderation_collision L loc rem"
    and "append_remote_moderation_history L base chan rem s = (r, s')"
  shows "case r of
      Inl err \<Rightarrow> s' = s
    | Inr st \<Rightarrow> \<exists>loc. read_moderation_history L base chan s = Inr loc \<and> id_prefix me_id loc rem
        \<and> derive_moderation L base chan rem s = Inr st
        \<and> moderation_written L base chan (loc @ drop (length loc) rem) st s'
        \<and> map me_id (loc @ drop (length loc) rem) = map me_id rem
        \<and> same_outside {moderation_log_path base chan, moderation_cache_path base chan} s s'"
proof -
  let ?P = "{moderation_log_path base chan, moderation_cache_path base chan}"
  define pre where "pre = bindR (open_log base chan s) (\<lambda>_.
      bindR (open_history_lock base chan s) (\<lambda>_.
      bindR (read_moderation_history_unlocked L base chan s) (\<lambda>loc.
      bindR (derive_moderation L base chan rem s) (\<lambda>st.
      bindR (guardR (id_prefix me_id loc rem) (History NotAnExtension)) (\<lambda>_. Inr (loc, st))))))"
  have split: "append_remote_moderation_history L base chan rem s =
      (case pre of Inl e \<Rightarrow> (Inl e, s)
       | Inr (loc, st) \<Rightarrow> bindS (if length rem > length loc
             then append_moderation_lines L base chan (drop (length loc) rem) else okS ()) (\<lambda>_.
           bindS (readS (derive_moderation L base chan rem)) (\<lambda>st.
           bindS (write_moderation_cache L base chan st) (\<lambda>_. okS st))) s)"
    unfolding append_remote_moderation_history_def pre_def bindS_readS bindS_liftS
      validate_moderation_history_def
    by (cases "derive_moderation L base chan rem s") (auto split: sum.splits)
  show ?thesis
  proof (cases pre)
    case (Inl e)
    then show ?thesis using split assms(4) by simp
  next
    case (Inr x)
    obtain loc st where x: "x = (loc, st)" by (cases x)
    have parts: "open_history_lock base chan s = Inr ()"
      "read_moderation_history_unlocked L base chan s = Inr loc"
      "derive_moderation L base chan rem s = Inr st" "id_prefix me_id loc rem"
      using Inr x by (auto simp: pre_def bindR_ok guardR_ok)
    have dir: "dir_exists (channel_dir base chan) s"
      using parts(1) by (simp add: open_history_lock_def guardR_ok)
    have hist: "read_moderation_history L base chan s = Inr loc"
      using parts(1,2) by (simp add: read_moderation_history_def)
    have "is_ok (derive_moderation L base chan loc s)"
      using read_moderation_derives [OF parts(2), of rem] parts(3) by simp
    then have merged: "derive_moderation L base chan (loc @ drop (length loc) rem) s = Inr st"
      "map me_id (loc @ drop (length loc) rem) = map me_id rem"
      using merged_moderation [OF assms(3) [OF hist] parts(4)] parts(3) by blast+
    have "r = Inr st \<and> moderation_written L base chan (loc @ drop (length loc) rem) st s'
        \<and> same_outside ?P s s'"
    proof (cases "length rem > length loc")
      case True
      from extend_moderation_ok [OF assms(1,2) dir parts(2) merged(1), of rem] obtain s1 s2 where
        "append_moderation_lines L base chan (drop (length loc) rem) s = (Inr (), s1)"
        "derive_moderation L base chan rem s1 = Inr st"
        "write_moderation_cache L base chan st s1 = (Inr (), s2)"
        "moderation_written L base chan (loc @ drop (length loc) rem) st s2" "same_outside ?P s s2"
        using parts(3) by auto
      then show ?thesis
        using split assms(4) Inr x True by (auto simp: bindS_def readS_def okS_def)
    next
      case False
      then have nil: "drop (length loc) rem = []" by simp
      have "derive_moderation L base chan loc s = Inr st" using merged(1) nil by simp
      from moderation_cache_ok [OF assms(2) dir parts(2) this] obtain s2 where
        "write_moderation_cache L base chan st s = (Inr (), s2)" "moderation_written L base chan loc st s2"
        "same_outside {moderation_cache_path base chan} s s2" by blast
      then show ?thesis
        using split assms(4) Inr x False parts(3)
          same_outside_mono [of "{moderation_cache_path base chan}" s s2 ?P]
        by (auto simp: bindS_def readS_def okS_def)
    qed
    then show ?thesis using hist parts(3,4) merged(2) by auto
  qed
qed

text \<open>A peer's moderation history is taken over only if it is valid under the node's policy history and
  continues the local one event for event; then the history read back has exactly the peer's ids and the
  state read back is the returned one. Anything else leaves every file as it was.\<close>

theorem append_remote_moderation_extends:
  assumes "moderation_json_ok L" and "moderation_log_complete base chan s"
    and "\<And>loc. read_moderation_history L base chan s = Inr loc \<Longrightarrow> no_moderation_collision L loc rem"
    and "append_remote_moderation_history L base chan rem s = (r, s')"
  shows "case r of
      Inl err \<Rightarrow> s' = s
    | Inr st \<Rightarrow> \<exists>loc. read_moderation_history L base chan s = Inr loc \<and> id_prefix me_id loc rem
        \<and> derive_moderation L base chan rem s = Inr st
        \<and> moderation_written L base chan (loc @ drop (length loc) rem) st s'
        \<and> map me_id (loc @ drop (length loc) rem) = map me_id rem"
  using append_remote_moderation_result [OF assms] by (cases r) auto

end
