(* ===== verification/Log_Buckets.thy ===== *)
theory Log_Buckets
  imports Message_Log_Append
begin

text \<open>
  The inventory two peers compare: the ids of a channel's messages in 256 buckets by first byte, each
  with its size and the hash of its sorted members (\<open>chunk_summaries\<close>, \<open>chunk_ids\<close>, \<open>message_ids\<close> of
  \<open>src/store.rs\<close>). It depends only on the set of messages; two inventories agree on a bucket
  exactly when the two nodes hold the same ids in it, if the hash does not collide on them.
\<close>

definition digests :: "'x proto_lib_scheme \<Rightarrow> envelope list \<Rightarrow> bytes list" where
  "digests L es = map (digest L) es"

definition summaries_of :: "'x crypto_lib_scheme \<Rightarrow> bytes list \<Rightarrow> chunk_summary list" where
  "summaries_of L ids =
    map (\<lambda>(i, m). \<lparr>cs_index = i, cs_count = word_of_nat (length m div 32), cs_hash = hex_encode L (blake3 L m)\<rparr>)
      (bucket_entries ids)"

lemma fill_entries: "fill f (bucket_entries ids) = map (\<lambda>(k, v). (k, f v)) (bucket_entries ids)"
  unfolding fill_def by (rule tfill_id [OF bucket_entries_sorted])

lemma bucket_entries_distinct: "distinct (map fst (bucket_entries ids))"
  using tsorted_distinct [OF bucket_entries_sorted [of "\<lambda>m. m" ids]] by (simp add: case_prod_beta comp_def)

section \<open>Reading the inventory\<close>

lemma chunk_summaries_rel:
  assumes "envelope_json_ok L" and "crypto_ok L" and "log_rel L base chan es s"
  shows "\<exists>s'. chunk_summaries L base chan s = (Inr (summaries_of L (digests L es)), s')
    \<and> log_rel L base chan es s' \<and> files s' = files s \<and> same_outside {index_path base chan} s s'"
proof -
  obtain s' where s': "open_indexed L base chan s = (Inr (log_bytes L es, index_of L es), s')"
    "log_rel L base chan es s'" "files s' = files s" "same_outside {index_path base chan} s s'"
    using open_indexed_rel [OF assms] by blast
  let ?e = "bucket_entries (digests L es)"
  have t: "t_chunks (index_of L es) = ?e" "t_hashes (index_of L es) = map (\<lambda>(k, v). (k, blake3 L v)) ?e"
    by (simp_all add: index_of_def fill_entries digests_def case_prod_beta)
  have "tget (t_hashes (index_of L es)) i = Some (blake3 L m)" if "(i, m) \<in> set ?e" for i m
  proof -
    have "map_of ?e i = Some m"
      using that bucket_entries_distinct by (simp add: map_of_eq_Some_iff)
    then show ?thesis by (simp add: t(2) tget_def map_of_map)
  qed
  then have "mapR (\<lambda>(index, ids). bindR (from_option (Log ChunkHashMissing) (tget (t_hashes (index_of L es)) index)) (\<lambda>h.
        Inr \<lparr>cs_index = index, cs_count = word_of_nat (length ids div 32), cs_hash = hex_encode L h\<rparr>)) ?e
      = Inr (summaries_of L (digests L es))"
    unfolding summaries_of_def by (intro mapR_map_ok) (auto split: prod.split)
  then have "chunk_summaries L base chan s = (Inr (summaries_of L (digests L es)), s')"
    using s'(1) by (simp add: chunk_summaries_def bindS_def liftS_def t(1))
  then show ?thesis using s' by blast
qed

lemma digests_length: "log_wf L chan es \<Longrightarrow> crypto_ok L \<Longrightarrow> list_all (\<lambda>x. length x = 32) (digests L es)"
  by (auto simp: log_wf_def digests_def list_all_iff dest: verified_id(2))

lemma concat_length: "list_all (\<lambda>x. length x = 32) xs \<Longrightarrow> length (concat xs) = 32 * length xs"
  by (induction xs) auto

lemma bucket_lengths:
  "list_all (\<lambda>x. length x = 32) ids \<Longrightarrow> list_all (\<lambda>x. length x = 32) (sort (bucket ids i))"
  by (auto simp: bucket_def list_all_iff)

lemma chunks_of_bucket:
  "list_all (\<lambda>x. length x = 32) ids \<Longrightarrow> chunks32 (concat (sort (bucket ids i))) = sort (bucket ids i)"
  using bucket_lengths [of ids i] by (intro chunks32_concat) (auto simp: list_all_iff)

lemma chunk_ids_rel:
  assumes "envelope_json_ok L" and "crypto_ok L" and "log_rel L base chan es s"
  shows "\<exists>s'. chunk_ids L base chan k s =
      (Inr (map (hex_encode L) (sort (if unat k < merkle_bucket_count then bucket (digests L es) (unat k) else []))), s')
    \<and> log_rel L base chan es s' \<and> files s' = files s \<and> same_outside {index_path base chan} s s'"
proof -
  obtain s' where s': "open_indexed L base chan s = (Inr (log_bytes L es, index_of L es), s')"
    "log_rel L base chan es s'" "files s' = files s" "same_outside {index_path base chan} s s'"
    using open_indexed_rel [OF assms] by blast
  have len: "list_all (\<lambda>x. length x = 32) (digests L es)"
    using assms(2,3) digests_length by (auto simp: log_rel_def)
  have "tget (t_chunks (index_of L es)) k =
      (if unat k < merkle_bucket_count \<and> bucket (digests L es) (unat k) \<noteq> []
       then Some (concat (sort (bucket (digests L es) (unat k)))) else None)"
    by (simp add: index_of_def bucket_entries_get digests_def)
  then show ?thesis
    using s' concat_length [OF bucket_lengths [OF len, of "unat k"]] chunks_of_bucket [OF len, of "unat k"]
    by (intro exI [of _ s']) (simp add: chunk_ids_def bindS_def liftS_def)
qed

text \<open>Asking for a bucket of the inventory gives, in order, the ids of exactly the channel's messages
  whose id starts with that byte, whatever state the index was in.\<close>

theorem chunk_ids_exact:
  assumes "envelope_json_ok L" and "crypto_ok L" and "log_rel L base chan es s"
  shows "\<exists>s' ids. chunk_ids L base chan k s = (Inr ids, s') \<and> distinct ids
    \<and> set ids = {env_id e | e. e \<in> set es \<and> unat (hd (digest L e)) = unat k}"
proof -
  obtain s' where run: "chunk_ids L base chan k s =
      (Inr (map (hex_encode L) (sort (if unat k < merkle_bucket_count then bucket (digests L es) (unat k) else []))), s')"
    using chunk_ids_rel [OF assms] by blast
  have wf: "log_wf L chan es" using assms(3) by (simp add: log_rel_def)
  have v: "env_id e = hex_encode L (digest L e)" if "e \<in> set es" for e
    using verified_id(1) [OF assms(2)] log_wf_verified [OF wf] that by (auto simp: list_all_iff)
  have inj: "inj (hex_encode L)"
    using assms(2) by (auto simp: inj_def crypto_ok_def hex_encode_inj)
  have "map env_id es = map (hex_encode L) (digests L es)"
    using v by (simp add: digests_def)
  then have d: "distinct (digests L es)"
    using wf by (metis distinct_map log_wf_def)
  define b where "b = (if unat k < merkle_bucket_count then bucket (digests L es) (unat k) else [])"
  have "{e \<in> set es. unat (hd (digest L e)) = unat k} = {}" if "\<not> unat k < merkle_bucket_count"
  proof -
    have "unat (hd (digest L e)) \<noteq> unat k" for e
      using that byte_less_buckets [of "hd (digest L e)"] by auto
    then show ?thesis by auto
  qed
  then have "set b = digest L ` {e \<in> set es. unat (hd (digest L e)) = unat k}"
    by (cases "unat k < merkle_bucket_count") (auto simp: b_def bucket_def digests_def)
  then have "set (map (hex_encode L) (sort b)) =
      (\<lambda>e. hex_encode L (digest L e)) ` {e \<in> set es. unat (hd (digest L e)) = unat k}"
    by (simp add: image_image)
  also have "\<dots> = env_id ` {e \<in> set es. unat (hd (digest L e)) = unat k}"
    by (rule image_cong) (simp_all add: v)
  finally have "set (map (hex_encode L) (sort b)) = {env_id e | e. e \<in> set es \<and> unat (hd (digest L e)) = unat k}"
    by blast
  moreover have "distinct (map (hex_encode L) (sort b))"
    using d inj by (simp add: b_def distinct_map bucket_def inj_on_def inj_def)
  ultimately show ?thesis using run unfolding b_def by blast
qed

section \<open>Comparing two inventories\<close>

definition summary_hash :: "chunk_summary list \<Rightarrow> u64 \<Rightarrow> string option" where
  "summary_hash cs k = map_of (map (\<lambda>c. (cs_index c, cs_hash c)) cs) k"

lemma summary_hash_of:
  "summary_hash (summaries_of L ids) k =
    (if unat k < merkle_bucket_count \<and> bucket ids (unat k) \<noteq> []
     then Some (hex_encode L (blake3 L (concat (sort (bucket ids (unat k)))))) else None)"
proof -
  have "map (\<lambda>c. (cs_index c, cs_hash c)) (summaries_of L ids) =
      map (\<lambda>(i, m). (i, hex_encode L (blake3 L m))) (bucket_entries ids)"
    by (simp add: summaries_of_def case_prod_beta comp_def)
  then have "summary_hash (summaries_of L ids) k =
      map_option (\<lambda>m. hex_encode L (blake3 L m)) (map_of (bucket_entries ids) k)"
    by (simp add: summary_hash_def map_of_map)
  moreover have "map_of (bucket_entries ids) k = tget (fill (\<lambda>m. m) (bucket_entries ids)) k"
    by (simp add: fill_entries tget_def case_prod_beta)
  ultimately show ?thesis by (simp add: bucket_entries_get)
qed

definition no_bucket_collision :: "'x crypto_lib_scheme \<Rightarrow> bytes list \<Rightarrow> bytes list \<Rightarrow> bool" where
  "no_bucket_collision L as bs \<longleftrightarrow>
    (\<forall>i < merkle_bucket_count.
      blake3 L (concat (sort (bucket as i))) = blake3 L (concat (sort (bucket bs i)))
      \<longrightarrow> concat (sort (bucket as i)) = concat (sort (bucket bs i)))"

lemma bucket_agrees:
  assumes "hex_ok L" and "list_all (\<lambda>x. length x = 32) as" and "list_all (\<lambda>x. length x = 32) bs"
    and "no_bucket_collision L as bs" and "unat k < merkle_bucket_count"
    and "summary_hash (summaries_of L as) k = summary_hash (summaries_of L bs) k"
  shows "set (bucket as (unat k)) = set (bucket bs (unat k))"
proof (cases "bucket as (unat k) = [] \<or> bucket bs (unat k) = []")
  case True
  then show ?thesis
    using assms(5,6) by (auto simp: summary_hash_of split: if_splits)
next
  case False
  then have "concat (sort (bucket as (unat k))) = concat (sort (bucket bs (unat k)))"
    using assms(1,4-6) by (simp add: summary_hash_of no_bucket_collision_def hex_encode_inj)
  then have "sort (bucket as (unat k)) = sort (bucket bs (unat k))"
    using chunks_of_bucket [OF assms(2), of "unat k"] chunks_of_bucket [OF assms(3), of "unat k"] by metis
  then show ?thesis by (metis set_sort)
qed

lemma buckets_cover: "x \<in> set as \<Longrightarrow> x \<in> set (bucket as (unat (hd x)))"
  by (simp add: bucket_def)

lemma bucket_eq_of_set:
  assumes "distinct as" and "distinct bs" and "set as = set bs"
  shows "sort (bucket as i) = sort (bucket bs i)"
proof (rule sort_append_cong)
  have "mset as = mset bs" using assms by (simp add: set_eq_iff_mset_eq_distinct)
  then show "mset (bucket as i) = mset (bucket bs i)" by (simp add: bucket_def mset_filter)
qed

lemma summaries_eq_of_set:
  assumes "distinct as" and "distinct bs" and "set as = set bs"
  shows "summaries_of L as = summaries_of L bs"
proof -
  have "bucket as i = [] \<longleftrightarrow> bucket bs i = []" for i
    using assms(3) by (auto simp: bucket_def filter_empty_conv)
  then have "bucket_entries as = bucket_entries bs"
    by (simp add: bucket_entries_def bucket_eq_of_set [OF assms])
  then show ?thesis by (simp add: summaries_of_def)
qed

lemma log_ids:
  assumes "crypto_ok L" and "log_rel L base chan es s"
  shows "map env_id es = map (hex_encode L) (digests L es)" and "distinct (digests L es)"
    and "list_all (\<lambda>x. length x = 32) (digests L es)"
    and "env_id ` set es = hex_encode L ` set (digests L es)"
proof -
  have wf: "log_wf L chan es" using assms(2) by (simp add: log_rel_def)
  show m: "map env_id es = map (hex_encode L) (digests L es)"
    using verified_id(1) [OF assms(1)] log_wf_verified [OF wf]
    by (simp add: digests_def list_all_iff)
  then show "distinct (digests L es)"
    using wf by (metis distinct_map log_wf_def)
  show "list_all (\<lambda>x. length x = 32) (digests L es)"
    using digests_length [OF wf assms(1)] .
  show "env_id ` set es = hex_encode L ` set (digests L es)"
    using m by (metis list.set_map)
qed

text \<open>C24. Two nodes compute the same summary of a channel exactly when they hold the same set of messages:
  arrival order does not show in it, and a difference in even one message does (given that the hash
  does not collide on the buckets compared).\<close>

theorem summaries_compare_sets:
  assumes "envelope_json_ok L" and "crypto_ok L"
    and "log_rel L base chan es s" and "log_rel L base' chan' fs t"
    and "no_bucket_collision L (digests L es) (digests L fs)"
  shows "\<exists>cs ds s' t'. chunk_summaries L base chan s = (Inr cs, s')
    \<and> chunk_summaries L base' chan' t = (Inr ds, t')
    \<and> (cs = ds \<longleftrightarrow> env_id ` set es = env_id ` set fs)
    \<and> (cs = ds \<longleftrightarrow> (\<forall>k. summary_hash cs k = summary_hash ds k))"
proof -
  let ?A = "digests L es" and ?B = "digests L fs"
  have hex: "hex_ok L" using assms(2) by (simp add: crypto_ok_def)
  have inj: "inj (hex_encode L)" using hex by (auto simp: inj_def hex_encode_inj)
  note A = log_ids [OF assms(2,3)] and B = log_ids [OF assms(2,4)]
  have ids: "env_id ` set es = env_id ` set fs \<longleftrightarrow> set ?A = set ?B"
    unfolding A(4) B(4) using inj by (simp add: inj_image_eq_iff)
  have fwd: "set ?A = set ?B" if "\<forall>k. summary_hash (summaries_of L ?A) k = summary_hash (summaries_of L ?B) k"
  proof -
    have same: "set (bucket ?A (unat b)) = set (bucket ?B (unat b))" for b :: byte
      using bucket_agrees [OF hex A(3) B(3) assms(5), of "ucast b"] that byte_less_buckets by simp
    have "x \<in> set (bucket as i) \<Longrightarrow> x \<in> set as" for x as i by (simp add: bucket_def)
    then show ?thesis using same buckets_cover by blast
  qed
  have "summaries_of L ?A = summaries_of L ?B \<longleftrightarrow> set ?A = set ?B"
    using fwd summaries_eq_of_set [OF A(2) B(2)] by metis
  moreover have "summaries_of L ?A = summaries_of L ?B \<longleftrightarrow>
      (\<forall>k. summary_hash (summaries_of L ?A) k = summary_hash (summaries_of L ?B) k)"
    using fwd summaries_eq_of_set [OF A(2) B(2)] by metis
  ultimately show ?thesis
    using chunk_summaries_rel [OF assms(1-3)] chunk_summaries_rel [OF assms(1,2,4)] ids by metis
qed

end
