(* ===== verification/Channel_View.thy ===== *)
theory Channel_View
  imports Moderation_Store Log_Buckets
begin

text \<open>
  What users see of channels, from \<open>src/store.rs\<close>: creating and listing channels, the newest messages
  of a channel without the hidden ones (\<open>read_channel_tail\<close> and its variants), and signing a message
  for a channel, which encrypts it when the channel is private.
\<close>

section \<open>Channels\<close>

definition init_layout :: "string \<Rightarrow> unit io" where
  "init_layout base =
    bindS (ensure_dir base) (\<lambda>_.
    bindS (ensure_dir (path_join base ''keys'')) (\<lambda>_.
    ensure_dir (path_join base ''channels'')))"

definition create_channel :: "string \<Rightarrow> channel_ref \<Rightarrow> unit io" where
  "create_channel base chan =
    bindS (ensure_dir (channel_dir base chan)) (\<lambda>_.
    open_append (channel_dir base chan) (log_path base chan))"

text \<open>The channel whose log is the file \<open>p\<close> below the directory \<open>root\<close>.\<close>

definition channel_of_path :: "string \<Rightarrow> string \<Rightarrow> string option" where
  "channel_of_path root p =
    (case strip_prefix (root @ ''/'') p of
       None \<Rightarrow> None
     | Some q \<Rightarrow>
         if drop (length q - 11) q = ''/log.ndjson'' then Some (take (length q - 11) q) else None)"

definition collect_channels :: "string \<Rightarrow> node_fs \<Rightarrow> string list" where
  "collect_channels root s =
    filter valid_channel (List.map_filter (channel_of_path root) (tkeys (files s)))"

definition list_channels :: "string \<Rightarrow> node_fs \<Rightarrow> string list" where
  "list_channels base s =
    (let root = path_join base ''channels'' in
     if dir_exists root s then sort (collect_channels root s) else [])"

fun readable_channels ::
  "'x policy_lib_scheme \<Rightarrow> string \<Rightarrow> string option \<Rightarrow> node_fs \<Rightarrow> string list \<Rightarrow> string list result" where
  "readable_channels L base key s [] = Inr []"
| "readable_channels L base key s (name # names) =
    bindR (parse_channel name) (\<lambda>chan.
    bindR (read_channel_policy L base chan s) (\<lambda>p.
    bindR (readable_channels L base key s names) (\<lambda>rest.
      Inr (if (case key of None \<Rightarrow> visibility p = Public | Some k \<Rightarrow> policy_allows_read p k)
           then name # rest else rest))))"

definition list_readable_channels ::
  "'x policy_lib_scheme \<Rightarrow> string \<Rightarrow> string option \<Rightarrow> node_fs \<Rightarrow> string list result" where
  "list_readable_channels L base key s = readable_channels L base key s (list_channels base s)"

section \<open>The newest messages\<close>

fun collect_tail ::
  "'x proto_lib_scheme \<Rightarrow> bytes \<Rightarrow> channel_ref \<Rightarrow> nat \<Rightarrow> (string \<Rightarrow> bool)
    \<Rightarrow> (u64 \<times> u64 \<times> string) list \<Rightarrow> envelope list \<Rightarrow> envelope list result" where
  "collect_tail L bs chan n hidden [] acc = Inr acc"
| "collect_tail L bs chan n hidden ((offset, len, i) # rest) acc =
    (if hidden i then collect_tail L bs chan n hidden rest acc
     else bindR (read_indexed_envelope L bs chan i offset len) (\<lambda>e.
       if length (acc @ [e]) = n then Inr (acc @ [e])
       else collect_tail L bs chan n hidden rest (acc @ [e])))"

definition table_locations :: "index_db \<Rightarrow> (u64 \<times> u64 \<times> string) list result" where
  "table_locations db =
    mapR (\<lambda>(i, v). bindR (decode_location v) (\<lambda>(offset, len). Inr (offset, len, i))) (t_messages db)"

text \<open>\<open>sort_by_key(|(offset, _, _)| Reverse(offset))\<close>\<close>

definition by_offset_descending :: "(u64 \<times> u64 \<times> string) list \<Rightarrow> (u64 \<times> u64 \<times> string) list" where
  "by_offset_descending ls = sort_key (\<lambda>(offset, _, _). - int (unat offset)) ls"

definition read_channel_tail_with_options ::
  "'x moderation_lib_scheme \<Rightarrow> string \<Rightarrow> channel_ref \<Rightarrow> nat \<Rightarrow> bool \<Rightarrow> envelope list io" where
  "read_channel_tail_with_options L base chan n include_tombstoned =
    (if n = 0 then okS []
     else bindS (if include_tombstoned then okS [] else readS (moderation_state L base chan)) (\<lambda>moderation.
       bindS (open_indexed L base chan) (\<lambda>(bs, db).
       bindS (liftS (table_locations db)) (\<lambda>ls.
       bindS (liftS (collect_tail L bs chan n
           (\<lambda>i. \<not> include_tombstoned \<and> tget moderation i \<noteq> None) (by_offset_descending ls) [])) (\<lambda>envs.
       okS (rev envs))))))"

definition read_channel_tail ::
  "'x moderation_lib_scheme \<Rightarrow> string \<Rightarrow> channel_ref \<Rightarrow> nat \<Rightarrow> envelope list io" where
  "read_channel_tail L base chan n = read_channel_tail_with_options L base chan n False"

definition read_channel_tail_decrypted_with_options ::
  "'x moderation_lib_scheme \<Rightarrow> string \<Rightarrow> channel_ref \<Rightarrow> nat \<Rightarrow> bool \<Rightarrow> envelope list io" where
  "read_channel_tail_decrypted_with_options L base chan n include_tombstoned =
    bindS (read_channel_tail_with_options L base chan n include_tombstoned) (\<lambda>envs.
    readS (\<lambda>s. mapR (\<lambda>e. decrypt_envelope L base e s) envs))"

definition read_channel_tail_decrypted ::
  "'x moderation_lib_scheme \<Rightarrow> string \<Rightarrow> channel_ref \<Rightarrow> nat \<Rightarrow> envelope list io" where
  "read_channel_tail_decrypted L base chan n = read_channel_tail_decrypted_with_options L base chan n False"

section \<open>Signing for a channel\<close>

text \<open>\<open>raw\<close> and \<open>nonce\<close> are what the random source yields if a key is generated, and for the
  encryption.\<close>

definition sign_message_for_channel ::
  "'x policy_lib_scheme \<Rightarrow> bytes \<Rightarrow> bytes \<Rightarrow> string \<Rightarrow> channel_ref \<Rightarrow> keypair \<Rightarrow> message \<Rightarrow> envelope io" where
  "sign_message_for_channel L raw nonce base chan signer msg =
    bindS (readS (read_channel_policy L base chan)) (\<lambda>p.
    bindS (if visibility p = Private
           then bindS (readS (load_keys L base (full_name chan))) (\<lambda>keys.
             bindS (rotate_if L raw base chan (keys = [] \<and> owner p = Some (public_key signer))) (\<lambda>_.
             readS (encrypt_message L nonce base (full_name chan) msg)))
           else okS msg) (\<lambda>msg'.
    liftS (sign L signer (full_name chan) msg')))"

section \<open>Reading back the located records\<close>

fun located :: "'x proto_lib_scheme \<Rightarrow> nat \<Rightarrow> envelope list \<Rightarrow> (u64 \<times> u64 \<times> string) list" where
  "located L pos [] = []"
| "located L pos (e # es) =
    (word_of_nat pos, word_of_nat (record_len L e), env_id e) # located L (pos + record_len L e) es"

lemma locations_located:
  "locations L pos es = map (\<lambda>(offset, len, i). (i, encode_location offset len)) (located L pos es)"
  by (induction es arbitrary: pos) simp_all

lemma located_append:
  "located L pos (es @ fs) = located L pos es @ located L (pos + length (log_bytes L es)) fs"
  by (induction es arbitrary: pos) (simp_all add: add.assoc record_len_def)

lemma log_bytes_length: "length (log_bytes L (e # es)) = record_len L e + length (log_bytes L es)"
  by (simp add: record_len_def)

lemma located_offsets:
  "pos + length (log_bytes L es) < 2 ^ 64 \<Longrightarrow> x \<in> set (located L pos es) \<Longrightarrow>
    pos \<le> unat (fst x) \<and> unat (fst x) < pos + length (log_bytes L es)"
proof (induction es arbitrary: pos)
  case Nil
  then show ?case by simp
next
  case (Cons e es)
  have "unat (word_of_nat pos :: u64) = pos" using Cons.prems(1) by (simp add: unat_of_nat)
  then show ?case
    using Cons.prems Cons.IH [of "pos + record_len L e"] by (fastforce simp: record_len_def)
qed

lemma located_ascending:
  "pos + length (log_bytes L es) < 2 ^ 64 \<Longrightarrow>
    sorted_wrt (\<lambda>x y. unat (fst x) < unat (fst y)) (located L pos es)"
proof (induction es arbitrary: pos)
  case Nil
  then show ?case by simp
next
  case (Cons e es)
  have p: "unat (word_of_nat pos :: u64) = pos" using Cons.prems by (simp add: unat_of_nat)
  have b: "(pos + record_len L e) + length (log_bytes L es) < 2 ^ 64"
    using Cons.prems by (simp add: record_len_def)
  have "0 < record_len L e" by (simp add: record_len_def)
  then have "\<forall>y \<in> set (located L (pos + record_len L e) es). pos < unat (fst y)"
    using located_offsets [OF b] by fastforce
  then show ?case using Cons.IH [OF b] p by simp
qed

lemma sort_key_unique:
  assumes "mset xs = mset ys" and "sorted_wrt (\<lambda>x y. f x < f y) ys"
  shows "sort_key f xs = ys"
proof (rule properties_for_sort_key)
  show "mset ys = mset xs" using assms(1) by simp
  show "sorted (map f ys)"
    by (subst sorted_wrt_map, rule sorted_wrt_mono_rel [OF _ assms(2)]) simp
  fix k assume k: "k \<in> set ys"
  have only: "filter (\<lambda>x. f k = f x) ys = [k]"
    using assms(2) k
  proof (induction ys)
    case (Cons y ys)
    show ?case
    proof (cases "k = y")
      case True
      have "filter (\<lambda>x. f k = f x) ys = []"
        unfolding filter_empty_conv
      proof
        fix x assume "x \<in> set ys"
        then have "f y < f x" using Cons.prems(1) by simp
        then show "f k \<noteq> f x" using True by simp
      qed
      then show ?thesis using True by simp
    next
      case False
      then have "f y < f k" "k \<in> set ys" using Cons.prems by simp_all
      then have "f k \<noteq> f y" "filter (\<lambda>x. f k = f x) ys = [k]" using Cons.IH Cons.prems(1) by auto
      then show ?thesis by simp
    qed
  qed simp
  have "mset (filter (\<lambda>x. f k = f x) xs) = mset (filter (\<lambda>x. f k = f x) ys)"
    using assms(1) by (simp add: mset_filter)
  then show "filter (\<lambda>x. f k = f x) ys = filter (\<lambda>x. f k = f x) xs"
    unfolding only by (metis mset_single_iff mset_single_iff_right)
qed

lemma table_locations_perm:
  assumes "distinct (map env_id es)"
  shows "\<exists>ls. table_locations (index_of L es) = Inr ls \<and> mset ls = mset (located L 0 es)"
proof -
  define d where "d = (\<lambda>(i :: string, v). (fst (projr (decode_location v)), snd (projr (decode_location v)), i))"
  let ?t = "tfill (locations L 0 es)"
  have dk: "distinct (map fst (locations L 0 es))" using assms by (simp add: locations_keys)
  have "set ?t = set (locations L 0 es)" by (rule tfill_mem [OF dk])
  moreover have "distinct ?t" using tsorted_distinct [OF tfill_sorted] by (metis distinct_map)
  moreover have "distinct (locations L 0 es)" using dk by (metis distinct_map)
  ultimately have perm: "mset ?t = mset (locations L 0 es)"
    by (simp add: set_eq_iff_mset_eq_distinct)
  have "(\<lambda>(i, v). bindR (decode_location v) (\<lambda>(offset, len). Inr (offset, len, i))) x = Inr (d x)"
    if "x \<in> set ?t" for x
  proof -
    have "x \<in> set (locations L 0 es)" using that \<open>set ?t = _\<close> by simp
    then obtain o' l i where "x = (i, encode_location o' l)" by (auto simp: locations_located)
    then show ?thesis by (simp add: d_def)
  qed
  then have "table_locations (index_of L es) = Inr (map d ?t)"
    unfolding table_locations_def t_messages_index_of by (rule mapR_map_ok)
  moreover have "mset (map d ?t) = mset (map d (locations L 0 es))"
    using perm by simp
  moreover have "map d (locations L 0 es) = located L 0 es"
    by (auto simp: locations_located d_def comp_def case_prod_beta intro: map_idI)
  ultimately show ?thesis by auto
qed

lemma uint_less_unat: "uint (a :: u64) < uint (b :: u64) \<longleftrightarrow> unat a < unat b"
  using of_nat_less_iff [of "unat a" "unat b", where 'a = int] by simp

lemma newest_first:
  assumes "log_wf L chan es" and "length (log_bytes L es) < 2 ^ 64"
  shows "\<exists>ls. table_locations (index_of L es) = Inr ls \<and> by_offset_descending ls = rev (located L 0 es)"
proof -
  obtain ls where ls: "table_locations (index_of L es) = Inr ls" "mset ls = mset (located L 0 es)"
    using table_locations_perm assms(1) by (auto simp: log_wf_def)
  have "sorted_wrt (\<lambda>x y. unat (fst x) < unat (fst y)) (located L 0 es)"
    using located_ascending [of 0 L es] assms(2) by simp
  then have "sorted_wrt (\<lambda>y x. unat (fst x) < unat (fst y)) (rev (located L 0 es))"
    by (simp add: sorted_wrt_rev)
  then have "by_offset_descending ls = rev (located L 0 es)"
    unfolding by_offset_descending_def using ls(2)
    by (intro sort_key_unique) (auto simp: case_prod_beta uint_less_unat)
  then show ?thesis using ls(1) by blast
qed

section \<open>The tail\<close>

lemma collect_tail_located:
  assumes "envelope_json_ok L"
  shows "log_wf L chan (es @ ys) \<Longrightarrow> length (log_bytes L (es @ ys)) < 2 ^ 64 \<Longrightarrow> length acc < n \<Longrightarrow>
    collect_tail L (log_bytes L (es @ ys)) chan n hidden (rev (located L 0 es)) acc =
      Inr (acc @ take (n - length acc) (filter (\<lambda>e. \<not> hidden (env_id e)) (rev es)))"
proof (induction es arbitrary: ys acc rule: rev_induct)
  case Nil
  then show ?case by simp
next
  case (snoc e es)
  let ?bs = "log_bytes L ((es @ [e]) @ ys)"
  have wf: "log_wf L chan (es @ e # ys)" "length (log_bytes L (es @ e # ys)) < 2 ^ 64"
    using snoc.prems(1,2) by simp_all
  have loc: "rev (located L 0 (es @ [e])) =
      (word_of_nat (length (log_bytes L es)), word_of_nat (record_len L e), env_id e) # rev (located L 0 es)"
    by (simp add: located_append)
  have bs: "?bs = log_bytes L (es @ e # ys)" by simp
  show ?case
  proof (cases "hidden (env_id e)")
    case True
    then show ?thesis
      unfolding loc bs using snoc.IH [OF wf snoc.prems(3)] by simp
  next
    case False
    have r: "read_indexed_envelope L (log_bytes L (es @ e # ys)) chan (env_id e)
        (word_of_nat (length (log_bytes L es))) (word_of_nat (record_len L e)) = Inr e"
      by (rule read_indexed_written [OF assms wf])
    show ?thesis
    proof (cases "length (acc @ [e]) = n")
      case True
      then show ?thesis unfolding loc bs using r False by (auto simp: take_Cons')
    next
      case full: False
      then have "length (acc @ [e]) < n" using snoc.prems(3) by simp
      from snoc.IH [OF wf this] show ?thesis
        unfolding loc bs using r False full snoc.prems(3) by (simp add: take_Cons' Suc_diff_Suc)
    qed
  qed
qed

definition last_n :: "nat \<Rightarrow> 'a list \<Rightarrow> 'a list" where
  "last_n n xs = drop (length xs - n) xs"

lemma tail_result:
  assumes "envelope_json_ok L" and "crypto_ok L" and "log_rel L base chan msgs s"
    and "n > 0" and "hide \<longrightarrow> moderation_state L base chan s = Inr st"
  shows "\<exists>s'. read_channel_tail_with_options L base chan n (\<not> hide) s =
      (Inr (last_n n (filter (\<lambda>e. \<not> (hide \<and> tget st (env_id e) \<noteq> None)) msgs)), s')
    \<and> log_rel L base chan msgs s' \<and> files s' = files s"
proof -
  let ?hidden = "\<lambda>i. hide \<and> tget st i \<noteq> None"
  have wf: "log_wf L chan msgs" and len: "length (log_bytes L msgs) < 2 ^ 64"
    using assms(3) by (simp_all add: log_rel_def)
  obtain s' where s': "open_indexed L base chan s = (Inr (log_bytes L msgs, index_of L msgs), s')"
    "log_rel L base chan msgs s'" "files s' = files s"
    using open_indexed_rel [OF assms(1-3)] by blast
  obtain ls where ls: "table_locations (index_of L msgs) = Inr ls"
    "by_offset_descending ls = rev (located L 0 msgs)"
    using newest_first [OF wf len] by blast
  have "collect_tail L (log_bytes L msgs) chan n ?hidden (rev (located L 0 msgs)) [] =
      Inr (take n (filter (\<lambda>e. \<not> ?hidden (env_id e)) (rev msgs)))"
    using collect_tail_located [OF assms(1), of chan msgs "[]" "[]" n ?hidden] wf len assms(4) by simp
  moreover have "rev (take n (filter (\<lambda>e. \<not> ?hidden (env_id e)) (rev msgs))) =
      last_n n (filter (\<lambda>e. \<not> ?hidden (env_id e)) msgs)"
    by (simp only: rev_filter [symmetric] take_rev rev_rev_ident last_n_def)
  ultimately have "read_channel_tail_with_options L base chan n (\<not> hide) s =
      (Inr (last_n n (filter (\<lambda>e. \<not> ?hidden (env_id e)) msgs)), s')"
    using assms(4,5) ls
    by (cases hide) (simp_all add: read_channel_tail_with_options_def bindS_readS bindS_liftS okS_def
        bindS_step [where m = "open_indexed L base chan", OF s'(1)])
  then show ?thesis using s'(2,3) by blast
qed

text \<open>C31. The tail of a channel is the newest \<open>n\<close> of its visible messages in the order they arrived: every
  message of the log is listed unless the moderation state hides it, none is repeated, and neither the
  log nor any other file changes.\<close>

theorem read_channel_tail_newest_visible:
  assumes "envelope_json_ok L" and "crypto_ok L" and "log_rel L base chan msgs s"
    and "n > 0" and "moderation_state L base chan s = Inr st"
  shows "\<exists>s'. read_channel_tail L base chan n s =
      (Inr (last_n n (filter (\<lambda>e. tget st (env_id e) = None) msgs)), s')
    \<and> log_rel L base chan msgs s' \<and> files s' = files s"
  using tail_result [OF assms(1-4), of True st] assms(5) by (simp add: read_channel_tail_def)

section \<open>Private channels\<close>

lemma sign_fields:
  "sign L kf c m = Inr e \<Longrightarrow> env_msg e = m \<and> env_channel e = c \<and> env_from e = public_key kf"
  by (auto simp: sign_def Let_def bindR_ok)

lemma sign_private:
  assumes "read_channel_policy L base chan s = Inr p" and "visibility p = Private"
    and "sign_message_for_channel L raw nonce base chan signer m s = (Inr e, s')"
  shows "\<exists>key k. current_channel_key L base (full_name chan) s' = Inr key \<and> decode_key L key = Inr k
    \<and> sealed L (ck_id key) k nonce (full_name chan) m (env_msg e) \<and> sign L signer (full_name chan) (env_msg e) = Inr e"
proof -
  obtain m' where m': "encrypt_message L nonce base (full_name chan) m s' = Inr m'"
    "sign L signer (full_name chan) m' = Inr e"
    using assms by (auto simp: sign_message_for_channel_def runS_ok)
  then have "env_msg e = m'" using sign_fields by blast
  then show ?thesis using m' unfolding encrypt_message_sealed by auto
qed

text \<open>C29. What a private channel's envelope holds of the message: if the policy in force is private, an envelope
  is made only with the body sealed under the raw key of the channel's current key, with the given nonce and
  bound to the channel and the key's id; id and signature are those of the message so sealed. Title, tags,
  references and time stamp stay as they are, in the clear.\<close>

theorem private_messages_encrypted:
  assumes "read_channel_policy L base chan s = Inr p" and "visibility p = Private"
    and "sign_message_for_channel L raw nonce base chan signer m s = (Inr e, s')"
  shows "\<exists>key k t ct. current_channel_key L base (full_name chan) s' = Inr key \<and> decode_key L key = Inr k
    \<and> msg_body m = Text t
    \<and> aead_seal L k nonce (message_aad (full_name chan) (ck_id key)) (as_bytes t) = Some ct
    \<and> env_msg e = m\<lparr>msg_body := Encrypted (ck_id key) (b64_encode L nonce) (b64_encode L ct)\<rparr>
    \<and> sign L signer (full_name chan) (env_msg e) = Inr e \<and> body_text e = None"
  using sign_private [OF assms] unfolding sealed_def by (auto simp: body_text_def)

section \<open>Listing channels\<close>

lemma strip_prefix_Some: "strip_prefix p x = Some q \<longleftrightarrow> x = p @ q"
  by (auto simp: strip_prefix_def) (metis append_take_drop_id)

lemma strip_prefix_None: "strip_prefix p x = None \<longleftrightarrow> (\<forall>q. x \<noteq> p @ q)"
  by (metis strip_prefix_Some not_Some_eq)

lemma mem_map_filter: "y \<in> set (List.map_filter f xs) \<longleftrightarrow> (\<exists>x \<in> set xs. f x = Some y)"
  by (induction xs) (auto simp: map_filter_simps split: option.splits)

lemma channel_of_path_log:
  assumes "valid_channel c"
  shows "channel_of_path (path_join base ''channels'') p = Some c \<longleftrightarrow> p = log_path base \<lparr>full_name = c\<rparr>"
proof -
  have l: "log_path base \<lparr>full_name = c\<rparr> = path_join base ''channels'' @ ''/'' @ c @ ''/log.ndjson''"
    using channel_file_valid [OF assms plain_files(1), of base] by (simp add: log_path_def)
  have "drop (length q - 11) q = ''/log.ndjson'' \<and> take (length q - 11) q = c \<longleftrightarrow> q = c @ ''/log.ndjson''" for q
  proof
    assume "drop (length q - 11) q = ''/log.ndjson'' \<and> take (length q - 11) q = c"
    then show "q = c @ ''/log.ndjson''" by (metis append_take_drop_id)
  next
    assume q: "q = c @ ''/log.ndjson''"
    show "drop (length q - 11) q = ''/log.ndjson'' \<and> take (length q - 11) q = c"
      unfolding q by simp
  qed
  then have "channel_of_path root p = Some c \<longleftrightarrow> (\<exists>q. p = (root @ ''/'') @ q \<and> q = c @ ''/log.ndjson'')" for root
    by (auto simp: channel_of_path_def strip_prefix_Some strip_prefix_None split: option.splits if_splits)
  then show ?thesis unfolding l by simp
qed

text \<open>The listing of channels is complete and contains nothing else: a name is listed exactly when it
  is a valid channel name whose log file exists; the list is sorted and names every channel once.\<close>

theorem list_channels_exact:
  assumes "tsorted (files s)" and "dir_exists (path_join base ''channels'') s"
  shows "set (list_channels base s) =
      {c. valid_channel c \<and> file_exists (log_path base \<lparr>full_name = c\<rparr>) s}
    \<and> sorted (list_channels base s) \<and> distinct (list_channels base s)"
proof -
  let ?root = "path_join base ''channels''"
  have eq: "list_channels base s = sort (collect_channels ?root s)"
    using assms(2) by (simp add: list_channels_def)
  have mem: "c \<in> set (collect_channels ?root s) \<longleftrightarrow> valid_channel c \<and> file_exists (log_path base \<lparr>full_name = c\<rparr>) s" for c
    using channel_of_path_log [of c base] tget_keys [of "log_path base \<lparr>full_name = c\<rparr>" "files s"]
    by (auto simp: collect_channels_def mem_map_filter file_exists_def)
  have d: "distinct (tkeys (files s))"
    using tsorted_distinct [OF assms(1)] by (simp add: tkeys_def)
  have "distinct (filter valid_channel (List.map_filter (channel_of_path ?root) ks))" if "distinct ks" for ks
    using that
  proof (induction ks)
    case Nil
    then show ?case by (simp add: map_filter_simps)
  next
    case (Cons k ks)
    have "c \<notin> set (List.map_filter (channel_of_path ?root) ks)"
      if c: "channel_of_path ?root k = Some c" "valid_channel c" for c
    proof
      assume "c \<in> set (List.map_filter (channel_of_path ?root) ks)"
      then obtain k' where "k' \<in> set ks" "channel_of_path ?root k' = Some c"
        by (auto simp: mem_map_filter)
      then show False
        using c Cons.prems channel_of_path_log [OF c(2), of base k] channel_of_path_log [OF c(2), of base k']
        by simp
    qed
    then show ?case
      using Cons by (auto simp: map_filter_simps split: option.split)
  qed
  then show ?thesis using mem d unfolding eq by (auto simp: collect_channels_def)
qed

end
