(* ===== verification/Decimal.thy ===== *)
theory Decimal
  imports Rust_Std
begin

text \<open>
  Integers in text, as the protocol payloads and headers have them: \<open>Display\<close> and \<open>FromStr\<close> of
  \<open>i64\<close>, with the round trip, and the wrapping arithmetic of the age checks. The release profile of
  the program leaves overflow checks off, so \<open>abs\<close> and \<open>-\<close> wrap around.
\<close>

section \<open>Printing\<close>

definition digit :: "nat \<Rightarrow> char" where
  "digit n = char_of (48 + n)"

fun show_nat :: "nat \<Rightarrow> string" where
  "show_nat n = (if n < 10 then [digit n] else show_nat (n div 10) @ [digit (n mod 10)])"

declare show_nat.simps [simp del]

definition show_i64 :: "i64 \<Rightarrow> string" where
  "show_i64 w = (if sint w < 0 then CHR ''-'' # show_nat (nat (- sint w)) else show_nat (nat (sint w)))"

section \<open>Parsing\<close>

definition undigit :: "char \<Rightarrow> nat option" where
  "undigit c = (let n = of_char c in if 48 \<le> n \<and> n \<le> 57 then Some (n - 48) else None)"

fun digits_value :: "nat \<Rightarrow> string \<Rightarrow> nat option" where
  "digits_value acc [] = Some acc"
| "digits_value acc (c # cs) =
    (case undigit c of None \<Rightarrow> None | Some d \<Rightarrow> digits_value (10 * acc + d) cs)"

definition parse_i64 :: "string \<Rightarrow> i64 option" where
  "parse_i64 s =
    (let negative = (s \<noteq> [] \<and> hd s = CHR ''-'');
         digits = (if s \<noteq> [] \<and> (hd s = CHR ''-'' \<or> hd s = CHR ''+'') then tl s else s)
     in if digits = [] then None
        else case digits_value 0 digits of
          None \<Rightarrow> None
        | Some n \<Rightarrow>
            (let v = (if negative then - int n else int n) in
             if - (2 ^ 63) \<le> v \<and> v < 2 ^ 63 then Some (word_of_int v) else None))"

section \<open>Ages\<close>

definition abs_i64 :: "i64 \<Rightarrow> i64" where
  "abs_i64 w = (if sint w < 0 then - w else w)"

text \<open>\<open>(now - ts).abs() > 60\<close>\<close>

definition stale :: "i64 \<Rightarrow> i64 \<Rightarrow> bool" where
  "stale now ts \<longleftrightarrow> 60 < sint (abs_i64 (now - ts))"

section \<open>Lemmas\<close>

lemma undigit_digit [simp]: "n < 10 \<Longrightarrow> undigit (digit n) = Some n"
  by (simp add: undigit_def digit_def of_char_of)

lemma digits_value_append:
  "digits_value acc (xs @ ys) = (case digits_value acc xs of None \<Rightarrow> None | Some n \<Rightarrow> digits_value n ys)"
  by (induction acc xs rule: digits_value.induct) (auto split: option.split)

lemma digits_value_show: "digits_value 0 (show_nat n) = Some n"
proof (induction n rule: show_nat.induct)
  case (1 n)
  show ?case
  proof (cases "n < 10")
    case True
    then show ?thesis by (simp add: show_nat.simps)
  next
    case False
    then show ?thesis
      using 1 by (subst show_nat.simps) (simp add: digits_value_append)
  qed
qed

lemma show_nat_digits: "c \<in> set (show_nat n) \<Longrightarrow> undigit c \<noteq> None"
proof (induction n rule: show_nat.induct)
  case (1 n)
  then show ?case
    by (subst (asm) show_nat.simps) (auto split: if_splits)
qed

lemma show_nat_nonempty [simp]: "show_nat n \<noteq> []"
  by (subst show_nat.simps) simp

lemma undigit_marks [simp]: "undigit (CHR ''-'') = None" "undigit (CHR ''+'') = None" "undigit (CHR 10) = None"
  by code_simp+

lemma show_nat_head: "hd (show_nat n) \<noteq> CHR ''-''" "hd (show_nat n) \<noteq> CHR ''+''"
  using show_nat_digits [of "hd (show_nat n)" n] undigit_marks by auto

lemma sint_range: "- (2 ^ 63) \<le> sint (w :: i64)" "sint (w :: i64) < 2 ^ 63"
  using sint_greater_eq [of w] sint_less [of w] by simp_all

lemma parse_show_i64: "parse_i64 (show_i64 w) = Some w"
proof (cases "sint w < 0")
  case True
  then show ?thesis
    using sint_range [of w] by (simp add: parse_i64_def show_i64_def digits_value_show)
next
  case False
  then show ?thesis
    using sint_range [of w] show_nat_head by (simp add: parse_i64_def show_i64_def digits_value_show)
qed

lemma show_i64_inj [simp]: "show_i64 a = show_i64 b \<longleftrightarrow> a = b"
  by (metis parse_show_i64 option.inject)

lemma show_i64_no_newline: "CHR 10 \<notin> set (show_i64 w)"
  using show_nat_digits [of "CHR 10"] undigit_marks(3) by (auto simp: show_i64_def)

text \<open>The age check of a clock that shows a time between the epoch and \<open>2\<^sup>6\<^sup>2\<close>: it accepts exactly the time
  stamps within a minute, and the one \<open>2\<^sup>6\<^sup>3\<close> seconds in the past, where the subtraction and \<open>abs\<close> both wrap.\<close>

lemma sint_diff: "sint (a - b :: i64) = (sint a - sint b + 2 ^ 63) mod 2 ^ 64 - 2 ^ 63"
  by (simp add: sint_word_diff signed_take_bit_eq_take_bit_shift take_bit_eq_mod)

lemma sint_neg: "sint (- a :: i64) = (if sint a = - (2 ^ 63) then - (2 ^ 63) else - sint a)"
proof -
  have "sint (- a) = (- sint a + 2 ^ 63) mod 2 ^ 64 - 2 ^ 63"
    by (simp add: sint_word_minus signed_take_bit_eq_take_bit_shift take_bit_eq_mod)
  moreover have "(- sint a + 2 ^ 63) mod 2 ^ 64 = - sint a + 2 ^ 63" if "sint a \<noteq> - (2 ^ 63)"
    using that sint_range [of a] by (intro mod_pos_pos_trivial) auto
  ultimately show ?thesis by auto
qed

lemma sint_abs: "sint (abs_i64 w) = (if sint w = - (2 ^ 63) then - (2 ^ 63) else \<bar>sint w\<bar>)"
  by (simp add: abs_i64_def sint_neg)

lemma not_stale_iff:
  assumes "0 \<le> sint now" and "sint now < 2 ^ 62"
  shows "\<not> stale now ts \<longleftrightarrow> \<bar>sint now - sint ts\<bar> \<le> 60 \<or> sint ts = sint now - 2 ^ 63"
proof -
  let ?x = "sint now - sint ts"
  have r: "- (2 ^ 63) < ?x" "?x < 2 ^ 62 + 2 ^ 63 + 1"
    using assms sint_range [of ts] by auto
  have d: "sint (now - ts) = (if ?x < 2 ^ 63 then ?x else ?x - 2 ^ 64)"
  proof (cases "?x < 2 ^ 63")
    case True
    then have "(?x + 2 ^ 63) mod 2 ^ 64 = ?x + 2 ^ 63"
      using r by (intro mod_pos_pos_trivial) auto
    then show ?thesis using True by (simp add: sint_diff)
  next
    case False
    have "(?x + 2 ^ 63) mod 2 ^ 64 = (?x + 2 ^ 63 - 2 ^ 64) mod 2 ^ 64"
      by (simp only: minus_mod_self2)
    also have "\<dots> = ?x + 2 ^ 63 - 2 ^ 64"
      using r False by (intro mod_pos_pos_trivial) auto
    finally show ?thesis using False by (simp add: sint_diff)
  qed
  show ?thesis
    using r unfolding stale_def sint_abs d by auto
qed

lemma sint_add_60: "- (2 ^ 62) \<le> sint w \<Longrightarrow> sint w < 2 ^ 62 + 60 \<Longrightarrow> sint (w + 60 :: i64) = sint w + 60"
proof -
  assume r: "- (2 ^ 62) \<le> sint w" "sint w < 2 ^ 62 + 60"
  have "sint (w + 60) = (sint w + sint (60 :: i64) + 2 ^ 63) mod 2 ^ 64 - 2 ^ 63"
    by (simp add: sint_word_add signed_take_bit_eq_take_bit_shift take_bit_eq_mod)
  moreover have "(sint w + 60 + 2 ^ 63) mod 2 ^ 64 = sint w + 60 + 2 ^ 63"
    using r by (intro mod_pos_pos_trivial) auto
  ultimately show ?thesis by simp
qed

end
