(* ===== verification/Identity_File.thy ===== *)
theory Identity_File
  imports Proto Node_Files
begin

text \<open>
  The node's identity file \<open>keys/identity.json\<close>: \<open>KeypairFile::save\<close>, \<open>load\<close> and \<open>load_secure\<close> of
  \<open>src/proto.rs\<close>. A file is its bytes here, without a mode: that \<open>save\<close> creates it readable by its
  owner alone, and that \<open>load_secure\<close> takes group and other permissions away first, has no counterpart.
\<close>

definition identity_path :: "string \<Rightarrow> string" where
  "identity_path base = path_join base ''keys/identity.json''"

definition save :: "'x proto_lib_scheme \<Rightarrow> string \<Rightarrow> string \<Rightarrow> keypair \<Rightarrow> unit io" where
  "save L dir path kf = replace_file dir path (keypair_json L kf)"

definition load :: "'x proto_lib_scheme \<Rightarrow> string \<Rightarrow> node_fs \<Rightarrow> keypair result" where
  "load L path s =
    bindR (read_file path s) (\<lambda>bs. from_option (Decode NotJson) (keypair_of_json L bs))"

definition load_secure :: "'x proto_lib_scheme \<Rightarrow> string \<Rightarrow> node_fs \<Rightarrow> keypair result" where
  "load_secure L path s = load L path s"

definition keypair_json_ok :: "'x proto_lib_scheme \<Rightarrow> bool" where
  "keypair_json_ok L \<longleftrightarrow> (\<forall>kf. keypair_of_json L (keypair_json L kf) = Some kf)"

lemma load_after_save_identity:
  assumes "keypair_json_ok L" and "save L dir path kf s = (Inr (), s')"
  shows "load_secure L path s' = Inr kf"
  using assms by (auto simp: save_def load_secure_def load_def replace_file_def keypair_json_ok_def
      read_file_ok split: if_splits)

end
