(* ===== verification/Sync_Protocol.thy ===== *)
theory Sync_Protocol
  imports Peers Channel_View Decimal Identity_File
begin

text \<open>
  What both ends of the synchronization protocol of \<open>src/sync.rs\<close> share: the frames, the state of one
  end of a connection, the signed payloads and challenges of the authentication, and the checks on
  received frames. A text frame is its UTF-8 bytes; the JSON encodings of the frames and the order in
  which a \<open>HashSet\<close> is iterated are fields of \<open>sync_lib\<close>; clock readings and random bytes are arguments.
\<close>

section \<open>Limits and frames\<close>

definition sync_version :: u32 where "sync_version = 9"
definition max_differing_ids :: nat where "max_differing_ids = 100000"
definition max_policy_events :: nat where "max_policy_events = 10000"
definition max_moderation_events :: nat where "max_moderation_events = 100000"
definition max_key_offers :: nat where "max_key_offers = 4096"
definition max_discovered_channels :: nat where "max_discovered_channels = 10000"
definition max_status_bytes :: nat where "max_status_bytes = 1048576"

record auth_challenge =
  ac_type :: string
  ac_nonce :: string
  ac_responder :: string
  ac_expires :: i64
  ac_sig :: string

record peer_status =
  ps_ok :: bool
  ps_channels :: "string list"

record status_message =
  st_type :: string
  st_version :: u32
  st_channel :: string
  st_requester :: string
  st_auth_ts :: i64
  st_auth_sig :: string
  st_policy :: "policy_event list"
  st_moderation :: "moderation_event list"
  st_chunks :: "chunk_summary list"

record policy_sync =
  py_type :: string
  py_status :: string
  py_events :: "policy_event list"

record moderation_sync =
  my_type :: string
  my_status :: string
  my_events :: "moderation_event list"

record key_sync =
  ks_type :: string
  ks_identity :: string
  ks_offers :: "key_offer list"

record chunk_list =
  cl_index :: u64
  cl_ids :: "string list"

record chunk_diff =
  cd_type :: string
  cd_chunks :: "chunk_list list"
  cd_want :: "u64 list"

record chunk_batch =
  cb_type :: string
  cb_chunks :: "chunk_list list"

record want_message =
  wm_type :: string
  wm_ids :: "string list"

record sync_response =
  sr_type :: string
  sr_status :: string
  sr_sent :: "u64 option"
  sr_received :: "u64 option"
  sr_error :: "string option"

record sync_lib = peer_lib +
  challenge_json :: "auth_challenge \<Rightarrow> bytes"
  challenge_of_json :: "bytes \<Rightarrow> auth_challenge option"
  peer_status_of_json :: "bytes \<Rightarrow> peer_status option"
  status_json :: "status_message \<Rightarrow> bytes"
  status_of_json :: "bytes \<Rightarrow> status_message option"
  policy_sync_json :: "policy_sync \<Rightarrow> bytes"
  policy_sync_of_json :: "bytes \<Rightarrow> policy_sync option"
  moderation_sync_json :: "moderation_sync \<Rightarrow> bytes"
  moderation_sync_of_json :: "bytes \<Rightarrow> moderation_sync option"
  key_sync_json :: "key_sync \<Rightarrow> bytes"
  key_sync_of_json :: "bytes \<Rightarrow> key_sync option"
  chunk_diff_json :: "chunk_diff \<Rightarrow> bytes"
  chunk_diff_of_json :: "bytes \<Rightarrow> chunk_diff option"
  chunk_batch_json :: "chunk_batch \<Rightarrow> bytes"
  chunk_batch_of_json :: "bytes \<Rightarrow> chunk_batch option"
  want_json :: "want_message \<Rightarrow> bytes"
  want_of_json :: "bytes \<Rightarrow> want_message option"
  response_json :: "sync_response \<Rightarrow> bytes"
  response_of_json :: "bytes \<Rightarrow> sync_response option"
  hash_order :: "string list \<Rightarrow> string list"

definition complete :: "u64 \<Rightarrow> u64 \<Rightarrow> sync_response" where
  "complete sent received =
    \<lparr>sr_type = ''response'', sr_status = ''complete'', sr_sent = Some sent, sr_received = Some received,
     sr_error = None\<rparr>"

section \<open>One end of a connection\<close>

text \<open>The node's files, what the peer will have sent, what was sent to it, and how many more frames the
  transport takes before it fails. \<open>OtherFrame\<close> is a binary, ping, pong or close frame, \<open>BrokenFrame\<close> a
  read error.\<close>

datatype ws_message = TextFrame bytes | OtherFrame | BrokenFrame

record session =
  node :: node_fs
  inbox :: "ws_message list"
  outbox :: "bytes list"
  capacity :: nat

type_synonym 'a session_io = "session \<Rightarrow> 'a result \<times> session"

definition at_node :: "'a io \<Rightarrow> 'a session_io" where
  "at_node m s = (let (r, n) = m (node s) in (r, s\<lparr>node := n\<rparr>))"

definition query :: "(node_fs \<Rightarrow> 'a result) \<Rightarrow> 'a session_io" where
  "query f s = (f (node s), s)"

definition send :: "bytes \<Rightarrow> unit session_io" where
  "send frame s =
    (if capacity s = 0 then (Inl (Sync PeerClosed), s)
     else (Inr (), s\<lparr>outbox := outbox s @ [frame], capacity := capacity s - 1\<rparr>))"

text \<open>\<open>ws.next().await\<close>, with the end of the stream and a read error as errors.\<close>

definition next_frame :: "ws_message session_io" where
  "next_frame s =
    (case inbox s of
       [] \<Rightarrow> (Inl (Sync PeerClosed), s)
     | BrokenFrame # rest \<Rightarrow> (Inl (Sync PeerClosed), s\<lparr>inbox := rest\<rparr>)
     | m # rest \<Rightarrow> (Inr m, s\<lparr>inbox := rest\<rparr>))"

text \<open>The loops that skip everything but text.\<close>

fun skip_to_text :: "ws_message list \<Rightarrow> bytes result \<times> ws_message list" where
  "skip_to_text [] = (Inl (Sync PeerClosed), [])"
| "skip_to_text (TextFrame t # rest) = (Inr t, rest)"
| "skip_to_text (OtherFrame # rest) = skip_to_text rest"
| "skip_to_text (BrokenFrame # rest) = (Inl (Sync PeerClosed), rest)"

definition next_text :: "bytes session_io" where
  "next_text s = (let (r, rest) = skip_to_text (inbox s) in (r, s\<lparr>inbox := rest\<rparr>))"

fun mapS :: "('a \<Rightarrow> 's \<Rightarrow> 'b result \<times> 's) \<Rightarrow> 'a list \<Rightarrow> 's \<Rightarrow> 'b list result \<times> 's" where
  "mapS f [] = okS []"
| "mapS f (x # xs) = bindS (f x) (\<lambda>y. bindS (mapS f xs) (\<lambda>ys. okS (y # ys)))"

definition require :: "bool \<Rightarrow> error \<Rightarrow> 's \<Rightarrow> unit result \<times> 's" where
  "require ok e = liftS (guardR ok e)"

section \<open>Authentication\<close>

definition responder_challenge_payload :: "string \<Rightarrow> string \<Rightarrow> string \<Rightarrow> i64 \<Rightarrow> bytes" where
  "responder_challenge_payload target nonce responder expires =
    as_bytes (''embernet-responder-challenge-v1'' @ [CHR 10] @ target @ [CHR 10] @ nonce @ [CHR 10]
      @ responder @ [CHR 10] @ show_i64 expires)"

definition sync_auth_payload :: "i64 \<Rightarrow> string \<Rightarrow> string \<Rightarrow> string \<Rightarrow> bytes" where
  "sync_auth_payload timestamp channel nonce responder =
    as_bytes (''embernet-sync-auth-v2'' @ [CHR 10] @ show_i64 timestamp @ [CHR 10] @ channel @ [CHR 10]
      @ nonce @ [CHR 10] @ responder)"

definition discovery_auth_payload :: "i64 \<Rightarrow> string \<Rightarrow> string \<Rightarrow> bytes" where
  "discovery_auth_payload timestamp nonce responder =
    as_bytes (''embernet-discovery-v2'' @ [CHR 10] @ show_i64 timestamp @ [CHR 10] @ ''/status'' @ [CHR 10]
      @ nonce @ [CHR 10] @ responder)"

text \<open>\<open>raw\<close> is what \<open>rand::random\<close> yields, \<open>now\<close> the clock.\<close>

definition make_auth_challenge ::
  "'x crypto_lib_scheme \<Rightarrow> bytes \<Rightarrow> i64 \<Rightarrow> keypair \<Rightarrow> string \<Rightarrow> auth_challenge result" where
  "make_auth_challenge L raw now identity target =
    (let nonce = hex_encode L raw; expires = now + 60;
         payload = responder_challenge_payload target nonce (public_key identity) expires in
     bindR (sign_bytes L identity payload) (\<lambda>sig.
     Inr \<lparr>ac_type = ''challenge'', ac_nonce = nonce, ac_responder = public_key identity,
          ac_expires = expires, ac_sig = sig\<rparr>))"

definition verify_auth_challenge ::
  "'x crypto_lib_scheme \<Rightarrow> i64 \<Rightarrow> auth_challenge \<Rightarrow> string \<Rightarrow> string option \<Rightarrow> unit result" where
  "verify_auth_challenge L now challenge target expected =
    (if ac_type challenge \<noteq> ''challenge'' then Inl (Auth BadChallenge)
     else if sint (ac_expires challenge) < sint now \<or> sint (now + 60) < sint (ac_expires challenge)
     then Inl (Auth ExpiredChallenge)
     else bindR (hex_array L 32 (ac_nonce challenge)) (\<lambda>_.
       if (case expected of None \<Rightarrow> False | Some e \<Rightarrow> ac_responder challenge \<noteq> e) then Inl (Auth PinMismatch)
       else verify_bytes L (ac_responder challenge) (ac_sig challenge)
              (responder_challenge_payload target (ac_nonce challenge) (ac_responder challenge)
                 (ac_expires challenge))))"

section \<open>Checks on received data\<close>

text \<open>\<open>HashSet::remove\<close> of a requested id.\<close>

definition accept_requested_id :: "string list \<Rightarrow> string \<Rightarrow> string list result" where
  "accept_requested_id wanted i =
    (if list_ex (\<lambda>w. w = i) wanted then Inr (filter (\<lambda>w. w \<noteq> i) wanted)
     else Inl (Sync UnrequestedEnvelope))"

definition is_policy_prefix :: "policy_event list \<Rightarrow> policy_event list \<Rightarrow> bool" where
  "is_policy_prefix = id_prefix pe_id"

definition is_moderation_prefix :: "moderation_event list \<Rightarrow> moderation_event list \<Rightarrow> bool" where
  "is_moderation_prefix = id_prefix me_id"

definition validate_key_offers :: "key_sync \<Rightarrow> unit result" where
  "validate_key_offers sync =
    (if length (ks_offers sync) > max_key_offers then Inl (Sync TooMany)
     else if list_ex (\<lambda>offer. ko_sender offer \<noteq> ks_identity sync) (ks_offers sync)
     then Inl (Sync IdentityMismatch)
     else Inr ())"

definition read_status :: "'x sync_lib_scheme \<Rightarrow> status_message session_io" where
  "read_status L =
    bindS next_frame (\<lambda>m.
    case m of
      TextFrame text \<Rightarrow>
        bindS (liftS (from_option (Decode NotJson) (status_of_json L text))) (\<lambda>status.
        bindS (require (st_type status = ''status'') (Sync UnexpectedFrame)) (\<lambda>_.
        okS status))
    | _ \<Rightarrow> liftS (Inl (Sync UnexpectedFrame)))"

definition read_chunk_batch :: "'x sync_lib_scheme \<Rightarrow> chunk_batch session_io" where
  "read_chunk_batch L =
    bindS next_text (\<lambda>text.
    bindS (liftS (from_option (Decode NotJson) (chunk_batch_of_json L text))) (\<lambda>batch.
    bindS (require (cb_type batch = ''chunk_ids'') (Sync UnexpectedFrame)) (\<lambda>_.
    okS batch)))"

definition read_key_sync :: "'x sync_lib_scheme \<Rightarrow> key_sync session_io" where
  "read_key_sync L =
    bindS next_text (\<lambda>text.
    bindS (liftS (from_option (Decode NotJson) (key_sync_of_json L text))) (\<lambda>sync.
    bindS (require (ks_type sync = ''key_sync'') (Sync UnexpectedFrame)) (\<lambda>_.
    okS sync)))"

definition read_client_challenge :: "'x sync_lib_scheme \<Rightarrow> auth_challenge session_io" where
  "read_client_challenge L =
    bindS next_frame (\<lambda>m.
    case m of
      TextFrame text \<Rightarrow>
        bindS (liftS (from_option (Decode NotJson) (challenge_of_json L text))) (\<lambda>challenge.
        bindS (require (ac_type challenge = ''challenge'') (Auth BadChallenge)) (\<lambda>_.
        okS challenge))
    | _ \<Rightarrow> liftS (Inl (Sync UnexpectedFrame)))"

end
