(* ===== verification/Sync_Server.thy ===== *)
theory Sync_Server
  imports Sync_Protocol
begin

text \<open>
  The serving end of a synchronization, \<open>run_sync\<close> of \<open>src/sync.rs\<close>, as one function of the state of
  the connection, stage by stage: challenge, status and authentication, the two signed histories,
  channel keys, inventory, and the exchange of messages. The session runs alone on the node's files.
\<close>

text \<open>What one session draws from the random source and the clock: the challenge's nonce, the clock
  readings in order, and the nonces of its key offers.\<close>

record draws =
  challenge_raw :: bytes
  clock :: "nat \<Rightarrow> i64"
  offer_nonces :: "nat \<Rightarrow> bytes"

section \<open>Authentication\<close>

definition check_limits :: "status_message \<Rightarrow> unit result" where
  "check_limits st =
    (if st_version st \<noteq> sync_version then Inl (Sync BadSyncVersion)
     else if length (st_policy st) > max_policy_events then Inl (Sync TooMany)
     else if length (st_moderation st) > max_moderation_events then Inl (Sync TooMany)
     else if length (st_chunks st) > merkle_bucket_count
       \<or> list_ex (\<lambda>c. cs_index c \<ge> word_of_nat merkle_bucket_count) (st_chunks st)
     then Inl (Sync InvalidInventory)
     else Inr ())"

definition authenticate ::
  "'x sync_lib_scheme \<Rightarrow> draws \<Rightarrow> auth_challenge \<Rightarrow> status_message \<Rightarrow> channel_ref result" where
  "authenticate L d challenge st =
    bindR (check_limits st) (\<lambda>_.
    bindR (parse_channel (st_channel st)) (\<lambda>chan.
    if stale (clock d 1) (st_auth_ts st) then Inl (Auth Stale)
    else if sint (ac_expires challenge) < sint (clock d 2) then Inl (Auth ExpiredChallenge)
    else bindR (verify_bytes L (st_requester st) (st_auth_sig st)
           (sync_auth_payload (st_auth_ts st) (st_channel st) (ac_nonce challenge) (ac_responder challenge)))
         (\<lambda>_. Inr chan)))"

section \<open>The signed histories\<close>

definition send_policy :: "'x sync_lib_scheme \<Rightarrow> string \<Rightarrow> policy_event list \<Rightarrow> unit session_io" where
  "send_policy L status events =
    send (policy_sync_json L \<lparr>py_type = ''policy_sync'', py_status = status, py_events = events\<rparr>)"

definition send_moderation ::
  "'x sync_lib_scheme \<Rightarrow> string \<Rightarrow> moderation_event list \<Rightarrow> unit session_io" where
  "send_moderation L status events =
    send (moderation_sync_json L \<lparr>my_type = ''moderation_sync'', my_status = status, my_events = events\<rparr>)"

text \<open>The requester may read the channel under the policy in force.\<close>

definition require_member ::
  "'x sync_lib_scheme \<Rightarrow> string \<Rightarrow> channel_ref \<Rightarrow> string \<Rightarrow> channel_policy session_io" where
  "require_member L base chan requester =
    bindS (query (read_channel_policy L base chan)) (\<lambda>p.
    bindS (require (policy_allows_read p requester) (Sync NotAMember)) (\<lambda>_.
    okS p))"

definition serve_policy ::
  "'x sync_lib_scheme \<Rightarrow> string \<Rightarrow> channel_ref \<Rightarrow> status_message \<Rightarrow> unit session_io" where
  "serve_policy L base chan st =
    bindS (liftS (validate_policy_history L chan (st_policy st))) (\<lambda>_.
    bindS (query (read_policy_history L base chan)) (\<lambda>local.
    bindS (require_member L base chan (st_requester st)) (\<lambda>_.
    let local_prefix = is_policy_prefix local (st_policy st);
        remote_prefix = is_policy_prefix (st_policy st) local in
    if \<not> local_prefix \<and> \<not> remote_prefix then
      bindS (at_node (save_policy_conflict L base chan (st_policy st))) (\<lambda>_.
      bindS (send_policy L ''conflict'' local) (\<lambda>_.
      liftS (Inl (Sync PolicyFork))))
    else
      bindS (if local_prefix \<and> length (st_policy st) > length local
             then bindS (at_node (append_remote_policy_history L base chan (st_policy st))) (\<lambda>_. okS ())
             else okS ()) (\<lambda>_.
      bindS (require_member L base chan (st_requester st)) (\<lambda>_.
      bindS (query (read_policy_history L base chan)) (\<lambda>reconciled.
      send_policy L ''update'' reconciled))))))"

definition serve_moderation ::
  "'x sync_lib_scheme \<Rightarrow> string \<Rightarrow> channel_ref \<Rightarrow> status_message \<Rightarrow> unit session_io" where
  "serve_moderation L base chan st =
    bindS (query (validate_moderation_history L base chan (st_moderation st))) (\<lambda>_.
    bindS (query (read_moderation_history L base chan)) (\<lambda>local.
    let local_prefix = is_moderation_prefix local (st_moderation st);
        remote_prefix = is_moderation_prefix (st_moderation st) local in
    if \<not> local_prefix \<and> \<not> remote_prefix then
      bindS (at_node (save_moderation_conflict L base chan (st_moderation st))) (\<lambda>_.
      bindS (send_moderation L ''conflict'' local) (\<lambda>_.
      liftS (Inl (Sync ModerationFork))))
    else
      bindS (if local_prefix \<and> length (st_moderation st) > length local
             then bindS (at_node (append_remote_moderation_history L base chan (st_moderation st))) (\<lambda>_. okS ())
             else okS ()) (\<lambda>_.
      bindS (query (read_moderation_history L base chan)) (\<lambda>reconciled.
      send_moderation L ''update'' reconciled))))"

section \<open>Channel keys\<close>

text \<open>The identity that takes part in the key exchange: none for a public channel.\<close>

definition serving_identity ::
  "'x sync_lib_scheme \<Rightarrow> string \<Rightarrow> channel_policy \<Rightarrow> keypair option session_io" where
  "serving_identity L base p =
    (if visibility p = Private then
       bindS (query (load_secure L (identity_path base))) (\<lambda>identity.
       bindS (require (policy_allows_read p (public_key identity)) (Sync NotAMember)) (\<lambda>_.
       okS (Some identity)))
     else okS None)"

definition receive_keys ::
  "'x sync_lib_scheme \<Rightarrow> string \<Rightarrow> channel_ref \<Rightarrow> string \<Rightarrow> channel_policy \<Rightarrow> keypair option \<Rightarrow> unit session_io"
where
  "receive_keys L base chan requester p identity =
    bindS (read_key_sync L) (\<lambda>sync.
    bindS (require (ks_identity sync = requester) (Sync IdentityMismatch)) (\<lambda>_.
    bindS (require (visibility p = Private \<longrightarrow> policy_allows_read p (ks_identity sync)) (Sync NotAMember)) (\<lambda>_.
    bindS (liftS (validate_key_offers sync)) (\<lambda>_.
    case identity of
      Some kp \<Rightarrow>
        bindS (at_node (accept_key_offers L base (full_name chan) kp (ks_offers sync))) (\<lambda>_. okS ())
    | None \<Rightarrow> require (ks_offers sync = []) (Sync KeysForPublicChannel)))))"

definition serve_keys ::
  "'x sync_lib_scheme \<Rightarrow> draws \<Rightarrow> string \<Rightarrow> channel_ref \<Rightarrow> status_message \<Rightarrow> unit session_io" where
  "serve_keys L d base chan st =
    bindS (require_member L base chan (st_requester st)) (\<lambda>p.
    bindS (serving_identity L base p) (\<lambda>identity.
    bindS (case identity of
             None \<Rightarrow> okS []
           | Some kp \<Rightarrow> query (make_key_offers L (offer_nonces d) base (full_name chan) kp (st_requester st)))
      (\<lambda>offers.
    bindS (send (key_sync_json L \<lparr>ks_type = ''key_sync'',
             ks_identity = (case identity of None \<Rightarrow> [] | Some kp \<Rightarrow> public_key kp), ks_offers = offers\<rparr>)) (\<lambda>_.
    receive_keys L base chan (st_requester st) p identity))))"

section \<open>Inventories\<close>

text \<open>\<open>collect::<HashMap<..>>()\<close> of the summaries: a later entry for an index replaces an earlier one.\<close>

definition hash_at :: "chunk_summary list \<Rightarrow> u64 \<Rightarrow> string option" where
  "hash_at cs = map_of (rev (map (\<lambda>c. (cs_index c, cs_hash c)) cs))"

definition check_summaries :: "'x crypto_lib_scheme \<Rightarrow> chunk_summary list \<Rightarrow> unit result" where
  "check_summaries L cs =
    guardR (length (remdups (map cs_index cs)) = length cs
        \<and> list_all (\<lambda>c. is_ok (hex_array L 32 (cs_hash c))) cs)
      (Sync InvalidInventory)"

definition differing_chunks :: "chunk_summary list \<Rightarrow> chunk_summary list \<Rightarrow> u64 list" where
  "differing_chunks server client =
    sort (filter (\<lambda>i. hash_at server i \<noteq> hash_at client i) (remdups (map cs_index server @ map cs_index client)))"

definition check_batch :: "'x crypto_lib_scheme \<Rightarrow> u64 list \<Rightarrow> chunk_list list \<Rightarrow> unit result" where
  "check_batch L expected chunks =
    (let returned = remdups (map cl_index chunks) in
     if set returned \<noteq> set expected \<or> length returned \<noteq> length chunks then Inl (Sync InvalidInventory)
     else bindR (mapR (\<lambda>c. mapR (\<lambda>i.
            bindR (from_option (Decode NotHex) (hex_decode L i)) (\<lambda>bs.
            guardR (length bs = 32 \<and> ucast (hd bs) = cl_index c) (Sync InvalidInventory))) (cl_ids c)) chunks)
          (\<lambda>_. Inr ()))"

text \<open>The ids of some chunks as a set, without repetition.\<close>

definition chunk_set :: "chunk_list list \<Rightarrow> string list" where
  "chunk_set chunks = remdups (concat (map cl_ids chunks))"

definition own_chunk :: "'x sync_lib_scheme \<Rightarrow> string \<Rightarrow> channel_ref \<Rightarrow> u64 \<Rightarrow> chunk_list session_io" where
  "own_chunk L base chan i =
    bindS (at_node (chunk_ids L base chan i)) (\<lambda>ids. okS \<lparr>cl_index = i, cl_ids = ids\<rparr>)"

text \<open>The result: what to send to the client, and what to ask of it.\<close>

definition exchange_inventory ::
  "'x sync_lib_scheme \<Rightarrow> string \<Rightarrow> channel_ref \<Rightarrow> status_message \<Rightarrow> (string list \<times> string list) session_io" where
  "exchange_inventory L base chan st =
    bindS (at_node (chunk_summaries L base chan)) (\<lambda>server.
    bindS (liftS (check_summaries L (st_chunks st))) (\<lambda>_.
    let differing = differing_chunks server (st_chunks st) in
    bindS (mapS (own_chunk L base chan) differing) (\<lambda>own.
    bindS (send (chunk_diff_json L \<lparr>cd_type = ''chunk_diff'', cd_chunks = own, cd_want = differing\<rparr>)) (\<lambda>_.
    bindS (read_chunk_batch L) (\<lambda>batch.
    bindS (liftS (check_batch L differing (cb_chunks batch))) (\<lambda>_.
    let client_ids = chunk_set (cb_chunks batch); server_ids = chunk_set own in
    bindS (require (length client_ids \<le> max_differing_ids \<and> length server_ids \<le> max_differing_ids)
             (Sync TooMany)) (\<lambda>_.
    okS (hash_order L (filter (\<lambda>i. i \<notin> set client_ids) server_ids),
         hash_order L (filter (\<lambda>i. i \<notin> set server_ids) client_ids)))))))))"

section \<open>Messages\<close>

definition send_message :: "'x sync_lib_scheme \<Rightarrow> string \<Rightarrow> channel_ref \<Rightarrow> string \<Rightarrow> unit session_io" where
  "send_message L base chan i =
    bindS (at_node (read_message_by_id L base chan i)) (\<lambda>env. send (envelope_json L env))"

definition send_messages :: "'x sync_lib_scheme \<Rightarrow> string \<Rightarrow> channel_ref \<Rightarrow> string list \<Rightarrow> unit session_io" where
  "send_messages L base chan ids = bindS (mapS (send_message L base chan) ids) (\<lambda>_. okS ())"

text \<open>One uploaded envelope; the result is what is still wanted.\<close>

definition accept_upload ::
  "'x sync_lib_scheme \<Rightarrow> string \<Rightarrow> channel_ref \<Rightarrow> string list \<Rightarrow> bytes \<Rightarrow> string list io" where
  "accept_upload L base chan wanted text =
    bindS (liftS (from_option (Decode NotJson) (envelope_of_json L text))) (\<lambda>env.
    bindS (liftS (accept_requested_id wanted (env_id env))) (\<lambda>wanted'.
    bindS (require (env_channel env = full_name chan) (Log WrongChannel)) (\<lambda>_.
    bindS (liftS (verify L env)) (\<lambda>_.
    bindS (append_message L base chan env) (\<lambda>_.
    okS wanted')))))"

fun upload_loop ::
  "'x sync_lib_scheme \<Rightarrow> string \<Rightarrow> channel_ref \<Rightarrow> string list \<Rightarrow> u64 \<Rightarrow> ws_message list \<Rightarrow> u64 session_io"
where
  "upload_loop L base chan wanted received [] s =
    (if wanted = [] then (Inr received, s) else (Inl (Sync PeerClosed), s))"
| "upload_loop L base chan wanted received (m # rest) s =
    (if wanted = [] then (Inr received, s)
     else let s1 = s\<lparr>inbox := rest\<rparr> in
       case m of
         BrokenFrame \<Rightarrow> (Inl (Sync PeerClosed), s1)
       | OtherFrame \<Rightarrow> upload_loop L base chan wanted received rest s1
       | TextFrame text \<Rightarrow>
           (case at_node (accept_upload L base chan wanted text) s1 of
              (Inl e, s2) \<Rightarrow> (Inl e, s2)
            | (Inr wanted', s2) \<Rightarrow> upload_loop L base chan wanted' (received + 1) rest s2))"

definition receive_uploads ::
  "'x sync_lib_scheme \<Rightarrow> string \<Rightarrow> channel_ref \<Rightarrow> string list \<Rightarrow> u64 session_io" where
  "receive_uploads L base chan wanted s = upload_loop L base chan wanted 0 (inbox s) s"

section \<open>The session\<close>

definition serve_messages ::
  "'x sync_lib_scheme \<Rightarrow> string \<Rightarrow> channel_ref \<Rightarrow> status_message \<Rightarrow> unit session_io" where
  "serve_messages L base chan st =
    bindS (exchange_inventory L base chan st) (\<lambda>(to_client, wanted).
    bindS (send (want_json L \<lparr>wm_type = ''want'', wm_ids = wanted\<rparr>)) (\<lambda>_.
    bindS (send_messages L base chan to_client) (\<lambda>_.
    bindS (receive_uploads L base chan wanted) (\<lambda>received.
    send (response_json L (complete (word_of_nat (length to_client)) received))))))"

definition serve_channel ::
  "'x sync_lib_scheme \<Rightarrow> draws \<Rightarrow> string \<Rightarrow> channel_ref \<Rightarrow> status_message \<Rightarrow> unit session_io" where
  "serve_channel L d base chan st =
    bindS (serve_policy L base chan st) (\<lambda>_.
    bindS (serve_moderation L base chan st) (\<lambda>_.
    bindS (serve_keys L d base chan st) (\<lambda>_.
    serve_messages L base chan st)))"

definition run_sync ::
  "'x sync_lib_scheme \<Rightarrow> draws \<Rightarrow> string \<Rightarrow> keypair \<Rightarrow> unit session_io" where
  "run_sync L d base identity =
    bindS (liftS (make_auth_challenge L (challenge_raw d) (clock d 0) identity ''/sync'')) (\<lambda>challenge.
    bindS (send (challenge_json L challenge)) (\<lambda>_.
    bindS (read_status L) (\<lambda>st.
    bindS (liftS (authenticate L d challenge st)) (\<lambda>chan.
    serve_channel L d base chan st))))"

end
