(* ===== verification/Sync_Server_Proofs.thy ===== *)
theory Sync_Server_Proofs
  imports Sync_Server
begin

text \<open>
  What the serving end of a synchronization guarantees, whatever the peer sends: nothing but the
  challenge goes to a requester that has not proved its key or may not read the channel; channel keys
  are wrapped for and taken from that requester only; exactly the requested messages are stored; and
  the local signed history is only ever extended.
\<close>

section \<open>Steps\<close>

lemma bindS_query: "bindS (query g) f s = (case g (node s) of Inl e \<Rightarrow> (Inl e, s) | Inr x \<Rightarrow> f x s)"
  by (cases "g (node s)") (auto simp: bindS_def query_def)

lemma bindS_require: "bindS (require b e) f s = (if b then f () s else (Inl e, s))"
  by (auto simp: require_def bindS_liftS)

lemma bindS_at_node:
  "bindS (at_node m) f s = (case m (node s) of (Inl e, n) \<Rightarrow> (Inl e, s\<lparr>node := n\<rparr>)
    | (Inr x, n) \<Rightarrow> f x (s\<lparr>node := n\<rparr>))"
  by (auto simp: bindS_def at_node_def split: prod.split sum.split)

lemma bindS_send:
  "bindS (send frame) f s = (if capacity s = 0 then (Inl (Sync PeerClosed), s)
    else f () (s\<lparr>outbox := outbox s @ [frame], capacity := capacity s - 1\<rparr>))"
  by (simp add: bindS_def send_def)

lemma bindS_require_member:
  "bindS (require_member L base chan r) f s = (case read_channel_policy L base chan (node s) of
      Inl e \<Rightarrow> (Inl e, s)
    | Inr p \<Rightarrow> if policy_allows_read p r then f p s else (Inl (Sync NotAMember), s))"
  by (cases "read_channel_policy L base chan (node s)")
     (simp_all add: require_member_def bindS_def query_def require_def liftS_def guardR_def okS_def)

lemma bindS_serving_identity:
  "bindS (serving_identity L base p) f s =
    (if visibility p = Private
     then (case load_secure L (identity_path base) (node s) of
         Inl e \<Rightarrow> (Inl e, s)
       | Inr kp \<Rightarrow> if policy_allows_read p (public_key kp) then f (Some kp) s else (Inl (Sync NotAMember), s))
     else f None s)"
  by (cases "load_secure L (identity_path base) (node s)")
     (simp_all add: serving_identity_def bindS_def query_def require_def liftS_def guardR_def okS_def)

lemmas session_steps = bindS_query bindS_require bindS_at_node bindS_send bindS_require_member bindS_liftS

lemma query_ok: "query f s = (r, s') \<longleftrightarrow> r = f (node s) \<and> s' = s"
  by (auto simp: query_def)

section \<open>Nothing for strangers\<close>

lemma serve_policy_gate:
  assumes "serve_policy L base chan st s = (r, s')"
  shows "(s' = s \<and> \<not> is_ok r)
    \<or> (\<exists>p. read_channel_policy L base chan (node s) = Inr p \<and> policy_allows_read p (st_requester st))"
proof (cases "\<exists>p. read_channel_policy L base chan (node s) = Inr p \<and> policy_allows_read p (st_requester st)")
  case False
  then have "bindS (require_member L base chan (st_requester st)) f s = (case read_channel_policy L base chan (node s) of
      Inl e \<Rightarrow> (Inl e, s) | Inr p \<Rightarrow> (Inl (Sync NotAMember), s))" for f :: "channel_policy \<Rightarrow> unit session_io"
    by (auto simp: bindS_require_member split: sum.split)
  then show ?thesis
    using assms unfolding serve_policy_def bindS_liftS bindS_query
    by (auto split: sum.splits)
qed simp

lemma read_status_effect:
  assumes "read_status L s = (r, s')"
  shows "node s' = node s \<and> outbox s' = outbox s
    \<and> (\<forall>st. r = Inr st \<longrightarrow> (\<exists>text rest. inbox s = TextFrame text # rest \<and> inbox s' = rest
          \<and> status_of_json L text = Some st))"
  using assms
  by (cases "inbox s")
     (auto simp: read_status_def bindS_def next_frame_def liftS_def require_def okS_def from_option_def
       split: ws_message.splits prod.splits sum.splits option.splits)

text \<open>C3. A requester gets nothing but the challenge, and nothing on the node changes, unless its status frame
  is within all limits and names a valid channel, it has signed this session's nonce for that channel
  with its own key at a current time, and the policy in force lets it read the channel.\<close>

theorem sync_serves_members_only:
  assumes "run_sync L d base identity s = (r, s')"
    and "node s' \<noteq> node s \<or> length (outbox s') > length (outbox s) + 1 \<or> is_ok r"
  shows "\<exists>text rest st chan p. inbox s = TextFrame text # rest \<and> status_of_json L text = Some st
    \<and> check_limits st = Inr () \<and> parse_channel (st_channel st) = Inr chan
    \<and> \<not> stale (clock d 1) (st_auth_ts st)
    \<and> verify_bytes L (st_requester st) (st_auth_sig st)
        (sync_auth_payload (st_auth_ts st) (st_channel st) (hex_encode L (challenge_raw d)) (public_key identity)) = Inr ()
    \<and> read_channel_policy L base chan (node s) = Inr p \<and> policy_allows_read p (st_requester st)"
proof (cases "make_auth_challenge L (challenge_raw d) (clock d 0) identity ''/sync''")
  case (Inl e)
  then show ?thesis using assms by (auto simp: run_sync_def bindS_liftS)
next
  case (Inr ch)
  then have ch: "ac_nonce ch = hex_encode L (challenge_raw d)" "ac_responder ch = public_key identity"
    by (auto simp: make_auth_challenge_def Let_def bindR_ok)
  have cap: "capacity s \<noteq> 0"
    using assms Inr by (auto simp: run_sync_def bindS_liftS bindS_send split: if_splits)
  let ?s1 = "s\<lparr>outbox := outbox s @ [challenge_json L ch], capacity := capacity s - 1\<rparr>"
  obtain q s2 where rd: "read_status L ?s1 = (q, s2)" by (cases "read_status L ?s1")
  note eff = read_status_effect [OF rd]
  have run: "run_sync L d base identity s = bindS (\<lambda>_. (q, s2)) (\<lambda>st.
      bindS (liftS (authenticate L d ch st)) (\<lambda>chan. serve_channel L d base chan st)) ?s1"
    using Inr cap rd by (simp add: run_sync_def bindS_liftS bindS_send) (simp add: bindS_def)
  show ?thesis
  proof (cases q)
    case (Inl e)
    then show ?thesis using run assms eff by (simp add: bindS_def)
  next
    case q: (Inr st)
    show ?thesis
    proof (cases "authenticate L d ch st")
      case (Inl e)
      then show ?thesis using run assms eff q by (simp add: bindS_def liftS_def)
    next
      case (Inr chan)
      then have auth: "check_limits st = Inr ()" "parse_channel (st_channel st) = Inr chan"
        "\<not> stale (clock d 1) (st_auth_ts st)"
        "verify_bytes L (st_requester st) (st_auth_sig st)
          (sync_auth_payload (st_auth_ts st) (st_channel st) (ac_nonce ch) (ac_responder ch)) = Inr ()"
        by (auto simp: authenticate_def bindR_ok split: if_splits)
      have served: "serve_channel L d base chan st s2 = (r, s')"
        using run assms(1) q Inr by (simp add: bindS_def liftS_def)
      obtain r3 s3 where pol: "serve_policy L base chan st s2 = (r3, s3)"
        by (cases "serve_policy L base chan st s2")
      have "\<not> (s3 = s2 \<and> \<not> is_ok r3)"
      proof
        assume fail: "s3 = s2 \<and> \<not> is_ok r3"
        then obtain e where "r3 = Inl e" by (cases r3) auto
        then have "s' = s2" "\<not> is_ok r"
          using served pol fail by (auto simp: serve_channel_def bindS_def)
        then show False using assms(2) eff by simp
      qed
      then obtain p where "read_channel_policy L base chan (node s2) = Inr p" "policy_allows_read p (st_requester st)"
        using serve_policy_gate [OF pol] by blast
      then show ?thesis using eff q auth ch by auto
    qed
  qed
qed

section \<open>Channel keys\<close>

lemma read_key_sync_effect:
  assumes "read_key_sync L s = (r, s')"
  shows "node s' = node s \<and> outbox s' = outbox s"
  using assms
  by (auto simp: read_key_sync_def bindS_def next_text_def liftS_def require_def okS_def Let_def
       split: prod.splits sum.splits)

lemma validate_key_offers_ok:
  "validate_key_offers sync = Inr () \<longleftrightarrow> length (ks_offers sync) \<le> max_key_offers
    \<and> (\<forall>offer \<in> set (ks_offers sync). ko_sender offer = ks_identity sync)"
  by (auto simp: validate_key_offers_def list_ex_iff)

lemma receive_keys_effect:
  assumes "receive_keys L base chan requester p identity s = (r, s')"
  shows "outbox s' = outbox s
    \<and> (node s' = node s \<or> (\<exists>kp received res. identity = Some kp \<and> length received \<le> max_key_offers
        \<and> (\<forall>offer \<in> set received. ko_sender offer = requester)
        \<and> accept_key_offers L base (full_name chan) kp received (node s) = (res, node s')))"
proof -
  obtain q s1 where rd: "read_key_sync L s = (q, s1)" by (cases "read_key_sync L s")
  note eff = read_key_sync_effect [OF rd]
  show ?thesis
  proof (cases q)
    case (Inl e)
    then show ?thesis using assms rd eff by (simp add: receive_keys_def bindS_def)
  next
    case (Inr sync)
    have run: "receive_keys L base chan requester p identity s =
      bindS (require (ks_identity sync = requester) (Sync IdentityMismatch)) (\<lambda>_.
      bindS (require (visibility p = Private \<longrightarrow> policy_allows_read p (ks_identity sync)) (Sync NotAMember)) (\<lambda>_.
      bindS (liftS (validate_key_offers sync)) (\<lambda>_.
      case identity of
        Some kp \<Rightarrow> bindS (at_node (accept_key_offers L base (full_name chan) kp (ks_offers sync))) (\<lambda>_. okS ())
      | None \<Rightarrow> require (ks_offers sync = []) (Sync KeysForPublicChannel)))) s1"
      using rd Inr by (simp add: receive_keys_def bindS_step [where m = "read_key_sync L"])
    show ?thesis
    proof (cases "ks_identity sync = requester \<and> validate_key_offers sync = Inr ()")
      case False
      then have "s' = s1"
        using assms unfolding run bindS_require bindS_liftS by (auto split: if_splits sum.splits)
      then show ?thesis using eff by simp
    next
      case True
      then have ok: "length (ks_offers sync) \<le> max_key_offers"
        "\<forall>offer \<in> set (ks_offers sync). ko_sender offer = requester"
        by (auto simp: validate_key_offers_ok)
      show ?thesis
      proof (cases identity)
        case None
        then have "s' = s1"
          using assms unfolding run bindS_require bindS_liftS
          by (auto simp: require_def liftS_def split: if_splits sum.splits)
        then show ?thesis using eff by simp
      next
        case (Some kp)
        obtain res n where acc: "accept_key_offers L base (full_name chan) kp (ks_offers sync) (node s1) = (res, n)"
          by (cases "accept_key_offers L base (full_name chan) kp (ks_offers sync) (node s1)")
        have "s' = s1 \<or> s' = s1\<lparr>node := n\<rparr>"
          using assms Some acc unfolding run session_steps
          by (auto simp: okS_def split: if_splits sum.splits)
        then show ?thesis using eff acc Some ok by auto
      qed
    qed
  qed
qed

text \<open>C7. Channel keys go to the authenticated requester only, and come from it only: either nothing is sent
  and nothing stored, or the requester may read the channel and one frame is sent; for a private channel
  it holds offers wrapped for the requester, made by the node's own identity, which may read the channel
  too; and keys are stored only from offers the requester made.\<close>

theorem keys_shared_with_requester_only:
  assumes "serve_keys L d base chan st s = (r, s')"
  shows "(outbox s' = outbox s \<and> node s' = node s) \<or>
    (\<exists>p frame. read_channel_policy L base chan (node s) = Inr p \<and> policy_allows_read p (st_requester st)
      \<and> outbox s' = outbox s @ [frame]
      \<and> (visibility p = Public \<longrightarrow> node s' = node s
          \<and> frame = key_sync_json L \<lparr>ks_type = ''key_sync'', ks_identity = [], ks_offers = []\<rparr>)
      \<and> (visibility p = Private \<longrightarrow> (\<exists>kp offers. load_secure L (identity_path base) (node s) = Inr kp
          \<and> policy_allows_read p (public_key kp)
          \<and> make_key_offers L (offer_nonces d) base (full_name chan) kp (st_requester st) (node s) = Inr offers
          \<and> frame = key_sync_json L \<lparr>ks_type = ''key_sync'', ks_identity = public_key kp, ks_offers = offers\<rparr>
          \<and> (node s' = node s \<or> (\<exists>received res. length received \<le> max_key_offers
              \<and> (\<forall>offer \<in> set received. ko_sender offer = st_requester st)
              \<and> accept_key_offers L base (full_name chan) kp received (node s) = (res, node s'))))))"
proof (cases "\<exists>p. read_channel_policy L base chan (node s) = Inr p \<and> policy_allows_read p (st_requester st)")
  case False
  then show ?thesis
    using assms by (auto simp: serve_keys_def bindS_require_member split: sum.splits if_splits)
next
  case True
  then obtain p where p: "read_channel_policy L base chan (node s) = Inr p" "policy_allows_read p (st_requester st)"
    by blast
  let ?rest = "\<lambda>identity offers. bindS (send (key_sync_json L \<lparr>ks_type = ''key_sync'',
      ks_identity = (case identity of None \<Rightarrow> [] | Some kp \<Rightarrow> public_key kp), ks_offers = offers\<rparr>)) (\<lambda>_.
      receive_keys L base chan (st_requester st) p identity) s"
  show ?thesis
  proof (cases "visibility p")
    case Public
    then have run: "?rest None [] = (r, s')"
      using assms p by (simp add: serve_keys_def bindS_require_member serving_identity_def)
    then show ?thesis
      using p Public by (auto simp: bindS_send dest!: receive_keys_effect split: if_splits)
  next
    case Private
    show ?thesis
    proof (cases "\<exists>kp offers. load_secure L (identity_path base) (node s) = Inr kp \<and> policy_allows_read p (public_key kp)
        \<and> make_key_offers L (offer_nonces d) base (full_name chan) kp (st_requester st) (node s) = Inr offers")
      case False
      then have "s' = s"
        using assms p Private
        by (auto simp: serve_keys_def bindS_serving_identity bindS_require_member bindS_query
            split: sum.splits if_splits)
      then show ?thesis by simp
    next
      case True
      then obtain kp offers where k: "load_secure L (identity_path base) (node s) = Inr kp"
        "policy_allows_read p (public_key kp)"
        "make_key_offers L (offer_nonces d) base (full_name chan) kp (st_requester st) (node s) = Inr offers"
        by blast
      have run: "?rest (Some kp) offers = (r, s')"
        using assms p Private k
        by (simp add: serve_keys_def bindS_require_member bindS_serving_identity bindS_query)
      then show ?thesis
        using p Private k by (auto simp: bindS_send dest!: receive_keys_effect split: if_splits)
    qed
  qed
qed

section \<open>Uploads\<close>

text \<open>The envelopes among the frames still to come.\<close>

definition decoded :: "'x proto_lib_scheme \<Rightarrow> ws_message list \<Rightarrow> envelope list" where
  "decoded L frames =
    List.map_filter (\<lambda>m. case m of TextFrame t \<Rightarrow> envelope_of_json L t | _ \<Rightarrow> None) frames"

lemma decoded_simps [simp]:
  "decoded L [] = []"
  "decoded L (OtherFrame # rest) = decoded L rest"
  "decoded L (BrokenFrame # rest) = decoded L rest"
  "decoded L (TextFrame t # rest) = (case envelope_of_json L t of None \<Rightarrow> decoded L rest | Some e \<Rightarrow> e # decoded L rest)"
  by (simp_all add: decoded_def map_filter_simps split: option.split)

lemma log_bytes_append: "log_bytes L (es @ fs) = log_bytes L es @ log_bytes L fs"
  by (simp add: log_bytes_def write_lines_def)

lemma accept_requested_ok:
  "accept_requested_id wanted i = Inr w \<longleftrightarrow> i \<in> set wanted \<and> w = filter (\<lambda>x. x \<noteq> i) wanted"
  by (auto simp: accept_requested_id_def list_ex_iff)

lemma accept_upload_result:
  assumes "envelope_json_ok L" and "crypto_ok L" and "log_rel L base chan msgs n"
    and "\<And>e. envelope_of_json L text = Some e \<Longrightarrow> length (log_bytes L (msgs @ [e])) < 2 ^ 64"
    and "set wanted \<inter> env_id ` set msgs = {}"
    and "accept_upload L base chan wanted text n = (r, n')"
  shows "case r of
      Inl err \<Rightarrow> n' = n \<and> \<not> (\<exists>e. envelope_of_json L text = Some e \<and> env_id e \<in> set wanted
          \<and> env_channel e = full_name chan \<and> verify L e = Inr ()
          \<and> is_ok (authorize_append L base chan (env_from e) n))
    | Inr wanted' \<Rightarrow> \<exists>e. envelope_of_json L text = Some e \<and> env_id e \<in> set wanted
        \<and> wanted' = filter (\<lambda>x. x \<noteq> env_id e) wanted
        \<and> env_channel e = full_name chan \<and> verify L e = Inr ()
        \<and> is_ok (authorize_append L base chan (env_from e) n)
        \<and> log_rel L base chan (msgs @ [e]) n'
        \<and> (\<forall>a. authorize_append L base chan a n' = authorize_append L base chan a n)"
proof (cases "envelope_of_json L text")
  case None
  then show ?thesis using assms(6) by (auto simp: accept_upload_def bindS_liftS)
next
  case (Some e)
  show ?thesis
  proof (cases "env_id e \<in> set wanted \<and> env_channel e = full_name chan \<and> verify L e = Inr ()")
    case False
    then have "\<exists>err. accept_upload L base chan wanted text n = (Inl err, n)"
      using Some unfolding accept_upload_def bindS_liftS bindS_require
      by (auto simp: bindS_liftS bindS_require accept_requested_ok split: sum.split)
    then show ?thesis using assms(6) Some False by auto
  next
    case True
    obtain q n1 where app: "append_message L base chan e n = (q, n1)" by (cases "append_message L base chan e n")
    have id: "accept_requested_id wanted (env_id e) = Inr (filter (\<lambda>x. x \<noteq> env_id e) wanted)"
      using True by (simp add: accept_requested_ok)
    have run: "accept_upload L base chan wanted text n =
        (case q of Inl err \<Rightarrow> (Inl err, n1) | Inr i \<Rightarrow> (Inr (filter (\<lambda>x. x \<noteq> env_id e) wanted), n1))"
      using Some True app id
      by (simp add: accept_upload_def bindS_liftS bindS_require) (simp add: bindS_def okS_def split: sum.split)
    note res = append_message_result [OF assms(1-3) assms(4) [OF Some] app]
    have "log_append msgs e = msgs @ [e]" using True assms(5) by (auto simp: log_append_def)
    then show ?thesis
      using res run assms(6) True Some authorize_append_after [OF app] by (cases q) auto
  qed
qed

lemma upload_loop_result:
  assumes "envelope_json_ok L" and "crypto_ok L"
  shows "log_rel L base chan msgs (node s) \<Longrightarrow> length (log_bytes L (msgs @ decoded L frames)) < 2 ^ 64 \<Longrightarrow>
    distinct wanted \<Longrightarrow> set wanted \<inter> env_id ` set msgs = {} \<Longrightarrow>
    upload_loop L base chan wanted k frames s = (r, s') \<Longrightarrow>
    \<exists>new. log_rel L base chan (msgs @ new) (node s') \<and> outbox s' = outbox s
      \<and> set new \<subseteq> set (decoded L frames) \<and> env_id ` set new \<subseteq> set wanted
      \<and> (\<forall>e \<in> set new. verify L e = Inr () \<and> env_channel e = full_name chan
          \<and> is_ok (authorize_append L base chan (env_from e) (node s)))
      \<and> (\<forall>m. r = Inr m \<longrightarrow> env_id ` set new = set wanted \<and> m = k + word_of_nat (length new))"
proof (induction frames arbitrary: msgs s wanted k)
  case Nil
  then show ?case by (intro exI [of _ "[]"]) (auto split: if_splits)
next
  case (Cons m frames)
  show ?case
  proof (cases "wanted = []")
    case True
    then show ?thesis using Cons.prems by (intro exI [of _ "[]"]) auto
  next
    case False
    let ?s1 = "s\<lparr>inbox := frames\<rparr>"
    show ?thesis
    proof (cases m)
      case BrokenFrame
      then show ?thesis using Cons.prems False by (intro exI [of _ "[]"]) auto
    next
      case OtherFrame
      then have "upload_loop L base chan wanted k frames ?s1 = (r, s')"
        using Cons.prems(5) False by simp
      from Cons.IH [OF _ _ Cons.prems(3,4) this] show ?thesis
        using Cons.prems(1,2) OtherFrame by simp
    next
      case (TextFrame frame)
      obtain q n' where acc: "accept_upload L base chan wanted frame (node s) = (q, n')"
        by (cases "accept_upload L base chan wanted frame (node s)")
      have short: "length (log_bytes L (msgs @ [e])) < 2 ^ 64" if "envelope_of_json L frame = Some e" for e
        using Cons.prems(2) TextFrame that by (simp add: log_bytes_append)
      note res = accept_upload_result [OF assms Cons.prems(1) short Cons.prems(4) acc]
      show ?thesis
      proof (cases q)
        case (Inl err)
        then show ?thesis
          using Cons.prems False TextFrame acc res by (intro exI [of _ "[]"]) (auto simp: at_node_def)
      next
        case (Inr wanted')
        then obtain e where e: "envelope_of_json L frame = Some e" "env_id e \<in> set wanted"
          "wanted' = filter (\<lambda>x. x \<noteq> env_id e) wanted" "env_channel e = full_name chan" "verify L e = Inr ()"
          "is_ok (authorize_append L base chan (env_from e) (node s))" "log_rel L base chan (msgs @ [e]) n'"
          "\<forall>a. authorize_append L base chan a n' = authorize_append L base chan a (node s)"
          using res by auto
        let ?s2 = "?s1\<lparr>node := n'\<rparr>"
        have next_run: "upload_loop L base chan wanted' (k + 1) frames ?s2 = (r, s')"
          using Cons.prems(5) False TextFrame acc Inr by (simp add: at_node_def)
        have "distinct wanted'" "set wanted' \<inter> env_id ` set (msgs @ [e]) = {}"
          using Cons.prems(3,4) e(3) by auto
        from Cons.IH [OF _ _ this next_run] obtain new where new:
          "log_rel L base chan ((msgs @ [e]) @ new) (node s')" "outbox s' = outbox s"
          "set new \<subseteq> set (decoded L frames)" "env_id ` set new \<subseteq> set wanted'"
          "\<forall>e \<in> set new. verify L e = Inr () \<and> env_channel e = full_name chan
            \<and> is_ok (authorize_append L base chan (env_from e) n')"
          "\<forall>m. r = Inr m \<longrightarrow> env_id ` set new = set wanted' \<and> m = k + 1 + word_of_nat (length new)"
          using Cons.prems(2) TextFrame e(1,7) by auto
        then show ?thesis
          using e TextFrame by (intro exI [of _ "e # new"]) auto
      qed
    qed
  qed
qed

text \<open>C18. Receiving uploads stores exactly what was asked for: whatever the peer sends, the log gains only
  envelopes with requested ids, of this channel, verified, and by authors the policy lets write; it stops
  with success only when every requested id has arrived, with their number as the count.\<close>

theorem uploads_are_requested:
  assumes "envelope_json_ok L" and "crypto_ok L" and "log_rel L base chan msgs (node s)"
    and "length (log_bytes L (msgs @ decoded L (inbox s))) < 2 ^ 64"
    and "distinct wanted" and "set wanted \<inter> env_id ` set msgs = {}"
    and "receive_uploads L base chan wanted s = (r, s')"
  shows "\<exists>new. log_rel L base chan (msgs @ new) (node s') \<and> outbox s' = outbox s
    \<and> env_id ` set new \<subseteq> set wanted
    \<and> (\<forall>e \<in> set new. verify L e = Inr () \<and> env_channel e = full_name chan
        \<and> is_ok (authorize_append L base chan (env_from e) (node s)))
    \<and> (\<forall>m. r = Inr m \<longrightarrow> env_id ` set new = set wanted \<and> m = word_of_nat (length new))"
  using upload_loop_result [OF assms(1-6), of 0 r s'] assms(7) by (auto simp: receive_uploads_def)

text \<open>The frames a server reads while it waits for uploads.\<close>

definition text_frames :: "ws_message list \<Rightarrow> nat" where
  "text_frames ms = length (filter (\<lambda>m. case m of TextFrame _ \<Rightarrow> True | _ \<Rightarrow> False) ms)"

lemma accept_upload_shrinks:
  assumes "accept_upload L base chan wanted text n = (Inr wanted', n')" and "distinct wanted"
  shows "distinct wanted' \<and> Suc (length wanted') = length wanted"
proof -
  obtain e :: envelope where "accept_requested_id wanted (env_id e) = Inr wanted'"
    using assms(1) by (auto simp: accept_upload_def runS_ok)
  then have e: "wanted' = filter (\<lambda>w. w \<noteq> env_id e) wanted" "env_id e \<in> set wanted"
    by (auto simp: accept_requested_id_def list_ex_iff split: if_splits)
  have "wanted' = remove1 (env_id e) wanted"
    using assms(2) e(1) by (simp add: distinct_remove1_removeAll removeAll_filter_not_eq eq_commute [of "env_id e"])
  moreover have "0 < length wanted" using e(2) by (rule length_pos_if_in_set)
  ultimately show ?thesis using e(2) assms(2) by (simp add: length_remove1)
qed

lemma upload_loop_stops:
  assumes "distinct wanted" and "length wanted \<le> text_frames early"
  shows "\<exists>used unread r t. early = used @ unread \<and> text_frames used \<le> length wanted
    \<and> (\<forall>later. upload_loop L base chan wanted k (early @ later) (s\<lparr>inbox := early @ later\<rparr>)
        = (r, t\<lparr>inbox := unread @ later\<rparr>))"
  using assms
proof (induction early arbitrary: s wanted k)
  case Nil
  have "upload_loop L base chan wanted k later u = (Inr k, u)" for later u
    using Nil by (cases later) (simp_all add: text_frames_def)
  then show ?case by (intro exI [of _ "[]"]) (auto simp: text_frames_def)
next
  case (Cons m early)
  show ?case
  proof (cases "wanted = []")
    case True
    then show ?thesis by (intro exI [of _ "[]"] exI [of _ "m # early"]) (auto simp: text_frames_def)
  next
    case False
    show ?thesis
    proof (cases m)
      case BrokenFrame
      then show ?thesis using False by (intro exI [of _ "[m]"] exI [of _ early]) (auto simp: text_frames_def)
    next
      case OtherFrame
      then have "length wanted \<le> text_frames early" using Cons.prems(2) by (simp add: text_frames_def)
      from Cons.IH [OF Cons.prems(1) this, of k s] obtain used unread r t where "early = used @ unread"
        "text_frames used \<le> length wanted"
        "\<forall>later. upload_loop L base chan wanted k (early @ later) (s\<lparr>inbox := early @ later\<rparr>) = (r, t\<lparr>inbox := unread @ later\<rparr>)"
        by blast
      then show ?thesis
        using OtherFrame False
        by (intro exI [of _ "m # used"] exI [of _ unread] exI [of _ r] exI [of _ t]) (simp add: text_frames_def)
    next
      case (TextFrame frame)
      obtain q n' where acc: "accept_upload L base chan wanted frame (node s) = (q, n')"
        by (cases "accept_upload L base chan wanted frame (node s)")
      show ?thesis
      proof (cases q)
        case (Inl err)
        then have "upload_loop L base chan wanted k ((m # early) @ later) (s\<lparr>inbox := (m # early) @ later\<rparr>)
            = (Inl err, s\<lparr>inbox := early @ later, node := n'\<rparr>)" for later
          using False TextFrame acc by (simp add: at_node_def)
        then show ?thesis
          using False TextFrame
          by (intro exI [of _ "[m]"] exI [of _ early] exI [of _ "Inl err"] exI [of _ "s\<lparr>node := n'\<rparr>"])
            (cases wanted; simp add: text_frames_def)
      next
        case (Inr wanted')
        note shrink = accept_upload_shrinks [OF acc [unfolded Inr] Cons.prems(1)]
        have step: "upload_loop L base chan wanted k ((m # early) @ later) (s\<lparr>inbox := (m # early) @ later\<rparr>)
            = upload_loop L base chan wanted' (k + 1) (early @ later) (s\<lparr>node := n'\<rparr>\<lparr>inbox := early @ later\<rparr>)" for later
        proof -
          have "s\<lparr>node := n'\<rparr>\<lparr>inbox := early @ later\<rparr> = s\<lparr>inbox := early @ later\<rparr>\<lparr>node := n'\<rparr>" by simp
          then show ?thesis using False TextFrame acc Inr by (simp only:) (simp add: at_node_def)
        qed
        have "distinct wanted'" "length wanted' \<le> text_frames early"
          using shrink Cons.prems(2) TextFrame by (simp_all add: text_frames_def)
        from Cons.IH [OF this, of "k + 1" "s\<lparr>node := n'\<rparr>"] obtain used unread r t where "early = used @ unread"
          "text_frames used \<le> length wanted'"
          "\<forall>later. upload_loop L base chan wanted' (k + 1) (early @ later) (s\<lparr>node := n', inbox := early @ later\<rparr>)
            = (r, t\<lparr>inbox := unread @ later\<rparr>)"
          by blast
        then show ?thesis
          using shrink TextFrame unfolding step
          by (intro exI [of _ "m # used"] exI [of _ unread] exI [of _ r] exI [of _ t]) (simp add: text_frames_def)
      qed
    qed
  qed
qed

lemma other_frames_skipped:
  "wanted \<noteq> [] \<Longrightarrow> upload_loop L base chan wanted k (replicate j OtherFrame @ frames) (s\<lparr>inbox := replicate j OtherFrame @ frames\<rparr>)
    = upload_loop L base chan wanted k frames (s\<lparr>inbox := frames\<rparr>)"
  by (induction j) simp_all


section \<open>Time stamps\<close>

lemma verify_bytes_not_stale: "verify_bytes L key sig m \<noteq> Inl (Auth Stale)"
  by (auto simp: verify_bytes_def verifying_key_def hex_array_def from_option_def bindR_def guardR_def
      split: option.splits sum.splits if_splits)

text \<open>C21. The age check of the authentication, on a clock between the epoch and \<open>2\<^sup>6\<^sup>2\<close>: a status frame is
  refused as stale exactly when it is within the limits, names a valid channel, and its time stamp is more
  than a minute away and not the one \<open>2\<^sup>6\<^sup>3\<close> seconds back, for which the subtraction and \<open>abs\<close> wrap around.\<close>

theorem authentication_window:
  assumes "0 \<le> sint (clock d 1)" and "sint (clock d 1) < 2 ^ 62"
  shows "authenticate L d challenge st = Inl (Auth Stale) \<longleftrightarrow>
    is_ok (check_limits st) \<and> valid_channel (st_channel st)
    \<and> 60 < \<bar>sint (clock d 1) - sint (st_auth_ts st)\<bar>
    \<and> sint (st_auth_ts st) \<noteq> sint (clock d 1) - 2 ^ 63"
proof -
  have lim: "check_limits st \<noteq> Inl (Auth Stale)" by (auto simp: check_limits_def)
  have stale: "stale (clock d 1) (st_auth_ts st) \<longleftrightarrow>
      60 < \<bar>sint (clock d 1) - sint (st_auth_ts st)\<bar> \<and> sint (st_auth_ts st) \<noteq> sint (clock d 1) - 2 ^ 63"
    using not_stale_iff [OF assms, of "st_auth_ts st"] by auto
  show ?thesis
    using lim verify_bytes_not_stale unfolding stale [symmetric]
    by (auto simp: authenticate_def bindR_def parse_channel_def is_ok_def split: sum.splits)
qed

section \<open>Histories\<close>

lemma history_dir: "read_policy_history L base chan s = Inr es \<Longrightarrow> dir_exists (channel_dir base chan) s"
  by (auto simp: read_policy_history_def open_history_lock_def bindR_ok guardR_ok)

lemma id_prefix_append: "id_prefix eid xs (xs @ ys)"
  by (simp add: id_prefix_map)

lemma saved_conflict_history:
  assumes "policy_json_ok L" and "hex_alphabet L" and "read_policy_history L base chan n = Inr loc"
    and "events \<noteq> []" and "is_ok (derive_policy L chan events)"
    and "save_policy_conflict L base chan events n = (r, n')"
  shows "r = Inr (pe_id (last events)) \<and> read_policy_conflict L base chan (pe_id (last events)) n' = Inr events
    \<and> read_policy_history L base chan n' = Inr loc"
proof -
  have dir: "dir_exists (channel_dir base chan) n" using history_dir [OF assms(3)] .
  have r: "r = Inr (pe_id (last events))"
    using save_conflict_result [OF assms(6)] assms(4,5) by (cases r) auto
  have "extends_outside {conflict_file (policy_conflict_dir base chan) (pe_id (last events))} n n'"
    using save_conflict_result [OF assms(6)] r by simp
  then have "dir_exists (channel_dir base chan) n'" using dir by (rule extends_outside_dir)
  then show ?thesis
    using saved_conflict [OF assms(1,2) dir assms(6)] r assms(3) dir
    by (simp add: read_policy_history_def open_history_lock_def)
qed

lemma last_step_node:
  "bindS (require_member L base chan q) (\<lambda>_. bindS (query f) (\<lambda>es. send_policy L x es)) s = (r, s') \<Longrightarrow>
    node s' = node s"
  by (auto simp: bindS_require_member bindS_query send_policy_def send_def split: sum.splits if_splits)

text \<open>C8. Serving never rewrites the node's policy history: whatever the peer presents, the history read
  afterwards continues the one before it, and on success it has the ids of the longer of the two. A fork leaves it
  as it was and ends the session with an error; if the peer's history is valid and the requester may read the channel,
  that history is kept and can be read back by its head, and otherwise nothing changes on the node.\<close>

theorem serve_policy_only_extends:
  assumes "policy_json_ok L" and "hex_alphabet L" and "policy_log_complete base chan (node s)"
    and "read_policy_history L base chan (node s) = Inr loc" and "no_policy_collision L loc (st_policy st)"
    and "serve_policy L base chan st s = (r, s')"
  shows "\<exists>after. read_policy_history L base chan (node s') = Inr after \<and> id_prefix pe_id loc after
    \<and> (is_ok r \<longrightarrow> map pe_id after = map pe_id (if length (st_policy st) > length loc then st_policy st else loc))
    \<and> (\<not> id_prefix pe_id loc (st_policy st) \<and> \<not> id_prefix pe_id (st_policy st) loc \<longrightarrow> after = loc \<and> \<not> is_ok r
        \<and> (if is_ok (derive_policy L chan (st_policy st))
              \<and> (\<exists>p. read_channel_policy L base chan (node s) = Inr p \<and> policy_allows_read p (st_requester st))
           then read_policy_conflict L base chan (pe_id (last (st_policy st))) (node s') = Inr (st_policy st)
           else node s' = node s))"
proof -
  let ?remote = "st_policy st"
  let ?tail = "bindS (require_member L base chan (st_requester st)) (\<lambda>_.
      bindS (query (read_policy_history L base chan)) (\<lambda>es. send_policy L ''update'' es))"
  show ?thesis
  proof (cases "is_ok (derive_policy L chan ?remote)
      \<and> (\<exists>p. read_channel_policy L base chan (node s) = Inr p \<and> policy_allows_read p (st_requester st))")
    case False
    then have "s' = s \<and> \<not> is_ok r"
      using assms(4,6) by (cases "derive_policy L chan ?remote")
        (auto simp: serve_policy_def validate_policy_history_def bindS_liftS bindS_query bindS_require_member
          split: sum.splits if_splits)
    then show ?thesis unfolding if_not_P [OF False] using assms(4) by simp
  next
    case True
    then have run: "serve_policy L base chan st s =
      (if \<not> is_policy_prefix loc ?remote \<and> \<not> is_policy_prefix ?remote loc then
         bindS (at_node (save_policy_conflict L base chan ?remote)) (\<lambda>_.
         bindS (send_policy L ''conflict'' loc) (\<lambda>_. liftS (Inl (Sync PolicyFork)))) s
       else bindS (if is_policy_prefix loc ?remote \<and> length ?remote > length loc
             then bindS (at_node (append_remote_policy_history L base chan ?remote)) (\<lambda>_. okS ())
             else okS ()) (\<lambda>_. ?tail) s)"
      using assms(4)
      by (auto simp: serve_policy_def validate_policy_history_def bindS_liftS bindS_query bindS_require_member
          Let_def is_ok_iff)
    show ?thesis
    proof (cases "\<not> id_prefix pe_id loc ?remote \<and> \<not> id_prefix pe_id ?remote loc")
      case fork: True
      have ne: "?remote \<noteq> []" using fork by (auto simp: id_prefix_def)
      obtain q n' where sv: "save_policy_conflict L base chan ?remote (node s) = (q, n')"
        by (cases "save_policy_conflict L base chan ?remote (node s)")
      note kept = saved_conflict_history [OF assms(1,2,4) ne conjunct1 [OF True] sv]
      have "node s' = n' \<and> \<not> is_ok r"
        using assms(6) fork sv kept unfolding run
        by (auto simp: is_policy_prefix_def bindS_at_node send_policy_def bindS_send liftS_def split: if_splits)
      then show ?thesis using kept fork True by simp
    next
      case False
      show ?thesis
      proof (cases "id_prefix pe_id loc ?remote \<and> length ?remote > length loc")
        case grow: True
        obtain q n' where ap: "append_remote_policy_history L base chan ?remote (node s) = (q, n')"
          by (cases "append_remote_policy_history L base chan ?remote (node s)")
        have res: "case q of Inl err \<Rightarrow> n' = node s | Inr p \<Rightarrow>
            read_policy_history L base chan n' = Inr (loc @ drop (length loc) ?remote)
            \<and> map pe_id (loc @ drop (length loc) ?remote) = map pe_id ?remote"
          using append_remote_result [OF assms(1,3) _ ap] assms(4,5)
          by (cases q) (auto simp: policy_written_def)
        show ?thesis
        proof (cases q)
          case (Inl e)
          then have "node s' = node s \<and> \<not> is_ok r"
            using assms(6) False grow ap res unfolding run
            by (auto simp: is_policy_prefix_def bindS_at_node bindS_def [of _ "\<lambda>_. ?tail"] at_node_def)
          then show ?thesis using assms(4) False by auto
        next
          case (Inr p)
          then have "?tail (s\<lparr>node := n'\<rparr>) = (r, s')"
            using assms(6) False grow ap unfolding run
            by (simp add: is_policy_prefix_def bindS_def [of "bindS _ _"] bindS_def [of "at_node _"]
                at_node_def okS_def)
          then have "node s' = n'" by (auto dest: last_step_node)
          then show ?thesis using res Inr grow False id_prefix_append by auto
        qed
      next
        case same: False
        then have "?tail s = (r, s')"
          using assms(6) False unfolding run by (auto simp: is_policy_prefix_def)
        then have "node s' = node s" by (rule last_step_node)
        moreover have "\<not> length ?remote > length loc" using same False by (auto simp: id_prefix_def)
        ultimately show ?thesis using assms(4) False by auto
      qed
    qed
  qed
qed

end
