(* ===== verification/Sync_Inventory.thy ===== *)
theory Sync_Inventory
  imports Sync_Server_Proofs
begin

text \<open>
  The inventory comparison of a synchronization: with an honest client the server computes exactly the
  two set differences of the logs, whatever order and whatever index state the two ends have.
\<close>

definition hash_order_ok :: "'x sync_lib_scheme \<Rightarrow> bool" where
  "hash_order_ok L \<longleftrightarrow> (\<forall>xs. distinct xs \<longrightarrow> distinct (hash_order L xs) \<and> set (hash_order L xs) = set xs)"

definition bucket_ids :: "'x proto_lib_scheme \<Rightarrow> envelope list \<Rightarrow> u64 \<Rightarrow> string list" where
  "bucket_ids L es k =
    map (hex_encode L) (sort (if unat k < merkle_bucket_count then bucket (digests L es) (unat k) else []))"

definition chunk_of :: "'x proto_lib_scheme \<Rightarrow> envelope list \<Rightarrow> u64 \<Rightarrow> chunk_list" where
  "chunk_of L es k = \<lparr>cl_index = k, cl_ids = bucket_ids L es k\<rparr>"

lemma own_chunks:
  assumes "envelope_json_ok L" and "crypto_ok L"
  shows "log_rel L base chan es (node s) \<Longrightarrow>
    \<exists>s'. mapS (own_chunk L base chan) ks s = (Inr (map (chunk_of L es) ks), s')
      \<and> log_rel L base chan es (node s') \<and> inbox s' = inbox s \<and> outbox s' = outbox s \<and> capacity s' = capacity s"
proof (induction ks arbitrary: s)
  case Nil
  then show ?case by (simp add: okS_def)
next
  case (Cons k ks)
  obtain n where n: "chunk_ids L base chan k (node s) = (Inr (bucket_ids L es k), n)" "log_rel L base chan es n"
    using chunk_ids_rel [OF assms Cons.prems, of k] unfolding bucket_ids_def by blast
  have one: "own_chunk L base chan k s = (Inr (chunk_of L es k), s\<lparr>node := n\<rparr>)"
    using n(1) by (simp add: own_chunk_def bindS_at_node okS_def chunk_of_def)
  obtain s' where s': "mapS (own_chunk L base chan) ks (s\<lparr>node := n\<rparr>) = (Inr (map (chunk_of L es) ks), s')"
    "log_rel L base chan es (node s')" "inbox s' = inbox s" "outbox s' = outbox s" "capacity s' = capacity s"
    using Cons.IH [of "s\<lparr>node := n\<rparr>"] n(2) by auto
  have "mapS (own_chunk L base chan) (k # ks) s = (Inr (map (chunk_of L es) (k # ks)), s')"
    by (simp add: bindS_step [where m = "own_chunk L base chan k", OF one]
        bindS_step [where m = "mapS (own_chunk L base chan) ks", OF s'(1)] okS_def)
  then show ?case using s'(2-5) by blast
qed

section \<open>What differs\<close>

lemma summaries_index_distinct: "distinct (map cs_index (summaries_of L ids))"
  using bucket_entries_distinct [of ids] by (simp add: summaries_of_def comp_def case_prod_beta)

lemma hash_at_summaries: "hash_at (summaries_of L ids) k = summary_hash (summaries_of L ids) k"
proof -
  let ?kv = "map (\<lambda>c. (cs_index c, cs_hash c)) (summaries_of L ids)"
  have "distinct (map fst ?kv)" "distinct (map fst (rev ?kv))"
    using summaries_index_distinct [of L ids] by (simp_all add: comp_def rev_map [symmetric])
  then have "map_of (rev ?kv) = map_of ?kv" by (simp add: map_of_inject_set)
  then show ?thesis by (simp add: hash_at_def summary_hash_def)
qed

lemma summary_hash_index: "summary_hash cs k \<noteq> None \<longleftrightarrow> k \<in> set (map cs_index cs)"
  by (auto simp: summary_hash_def map_of_eq_None_iff image_image)

lemma differing_iff:
  "k \<in> set (differing_chunks (summaries_of L as) (summaries_of L bs)) \<longleftrightarrow>
    summary_hash (summaries_of L as) k \<noteq> summary_hash (summaries_of L bs) k"
proof -
  have "summary_hash (summaries_of L as) k \<noteq> None \<or> summary_hash (summaries_of L bs) k \<noteq> None"
    if "summary_hash (summaries_of L as) k \<noteq> summary_hash (summaries_of L bs) k"
    using that by metis
  then show ?thesis
    unfolding summary_hash_index by (auto simp: differing_chunks_def hash_at_summaries)
qed

lemma differing_small:
  "k \<in> set (differing_chunks (summaries_of L as) (summaries_of L bs)) \<Longrightarrow> unat k < merkle_bucket_count"
  by (auto simp: differing_iff summary_hash_of split: if_splits)

lemma differing_distinct: "distinct (differing_chunks as bs)"
  by (simp add: differing_chunks_def)

lemma chunk_set_of:
  assumes "\<And>k. k \<in> set ks \<Longrightarrow> unat k < merkle_bucket_count"
  shows "set (chunk_set (map (chunk_of L es) ks)) =
    hex_encode L ` {x \<in> set (digests L es). \<exists>k \<in> set ks. unat (hd x) = unat k}"
  using assms by (auto simp: chunk_set_def chunk_of_def bucket_ids_def bucket_def image_iff)

lemma difference_exact:
  assumes "crypto_ok L" and "log_rel L base chan ours n" and "log_rel L base' chan' theirs n'"
    and "no_bucket_collision L (digests L ours) (digests L theirs)"
    and "ks = differing_chunks (summaries_of L (digests L ours)) (summaries_of L (digests L theirs))"
  shows "set (chunk_set (map (chunk_of L ours) ks)) - set (chunk_set (map (chunk_of L theirs) ks)) =
      env_id ` set ours - env_id ` set theirs"
    and "set (chunk_set (map (chunk_of L theirs) ks)) - set (chunk_set (map (chunk_of L ours) ks)) =
      env_id ` set theirs - env_id ` set ours"
proof -
  have hex: "hex_ok L" using assms(1) by (simp add: crypto_ok_def)
  note A = log_ids [OF assms(1,2)] and B = log_ids [OF assms(1,3)]
  have small: "\<And>k. k \<in> set ks \<Longrightarrow> unat k < merkle_bucket_count" using assms(5) differing_small by blast
  have sets: "set (chunk_set (map (chunk_of L es) ks)) =
      hex_encode L ` {x \<in> set (digests L es). \<exists>k \<in> set ks. unat (hd x) = unat k}" for es
    by (rule chunk_set_of) (rule small)
  have in_diff: "\<exists>k \<in> set ks. unat (hd x) = unat k"
    if "x \<in> set (digests L ours) \<longleftrightarrow> x \<notin> set (digests L theirs)" for x
  proof -
    have k: "unat (ucast (hd x) :: u64) = unat (hd x)" "unat (ucast (hd x) :: u64) < merkle_bucket_count"
      using byte_less_buckets by simp_all
    have "set (bucket (digests L ours) (unat (hd x))) \<noteq> set (bucket (digests L theirs) (unat (hd x)))"
      using that by (auto simp: bucket_def)
    then have "ucast (hd x) \<in> set ks"
      using bucket_agrees [OF hex A(3) B(3) assms(4) k(2)] assms(5) k(1) differing_iff by metis
    then show ?thesis using k(1) by metis
  qed
  have inj: "inj (hex_encode L)" using hex by (auto simp: inj_def hex_encode_inj)
  have "{x \<in> set (digests L ours). \<exists>k \<in> set ks. unat (hd x) = unat k}
      - {x \<in> set (digests L theirs). \<exists>k \<in> set ks. unat (hd x) = unat k} = set (digests L ours) - set (digests L theirs)"
    "{x \<in> set (digests L theirs). \<exists>k \<in> set ks. unat (hd x) = unat k}
      - {x \<in> set (digests L ours). \<exists>k \<in> set ks. unat (hd x) = unat k} = set (digests L theirs) - set (digests L ours)"
    using in_diff by auto
  then show "set (chunk_set (map (chunk_of L ours) ks)) - set (chunk_set (map (chunk_of L theirs) ks)) =
      env_id ` set ours - env_id ` set theirs"
    "set (chunk_set (map (chunk_of L theirs) ks)) - set (chunk_set (map (chunk_of L ours) ks)) =
      env_id ` set theirs - env_id ` set ours"
    unfolding sets A(4) B(4) by (simp_all add: image_set_diff [OF inj, symmetric])
qed

section \<open>The exchange\<close>

lemma check_batch_honest:
  assumes "crypto_ok L" and "log_rel L base chan es n"
    and "\<And>k. k \<in> set ks \<Longrightarrow> unat k < merkle_bucket_count" and "distinct ks"
  shows "check_batch L ks (map (chunk_of L es) ks) = Inr ()"
proof -
  have hex: "hex_ok L" using assms(1) by (simp add: crypto_ok_def)
  have len: "list_all (\<lambda>x. length x = 32) (digests L es)" using log_ids(3) [OF assms(1,2)] .
  have idx: "map cl_index (map (chunk_of L es) ks) = ks" by (simp add: chunk_of_def comp_def)
  have one: "mapR (\<lambda>i. bindR (from_option (Decode NotHex) (hex_decode L i)) (\<lambda>bs.
      guardR (length bs = 32 \<and> ucast (hd bs) = k) (Sync InvalidInventory))) (bucket_ids L es k) =
      Inr (map (\<lambda>_. ()) (bucket_ids L es k))" if "k \<in> set ks" for k
  proof (rule mapR_map_ok)
    fix i assume "i \<in> set (bucket_ids L es k)"
    then obtain x where x: "i = hex_encode L x" "x \<in> set (digests L es)" "unat (hd x) = unat k"
      using assms(3) that by (auto simp: bucket_ids_def bucket_def)
    have "unat (ucast (hd x) :: u64) = unat k" using x(3) by simp
    then have "ucast (hd x) = k" by (simp only: word_unat_eq_iff)
    then show "bindR (from_option (Decode NotHex) (hex_decode L i)) (\<lambda>bs.
      guardR (length bs = 32 \<and> ucast (hd bs) = k) (Sync InvalidInventory)) = Inr ()"
      using hex x len by (simp add: hex_ok_def list_all_iff)
  qed
  have "mapR (\<lambda>c. mapR (\<lambda>i. bindR (from_option (Decode NotHex) (hex_decode L i)) (\<lambda>bs.
      guardR (length bs = 32 \<and> ucast (hd bs) = cl_index c) (Sync InvalidInventory))) (cl_ids c))
      (map (chunk_of L es) ks) = Inr (map (\<lambda>c. map (\<lambda>_. ()) (cl_ids c)) (map (chunk_of L es) ks))"
    by (rule mapR_map_ok) (auto simp: chunk_of_def one)
  then show ?thesis
    using assms(4) unfolding check_batch_def idx by (simp add: Let_def distinct_remdups_id)
qed

lemma check_summaries_honest:
  assumes "crypto_ok L"
  shows "check_summaries L (summaries_of L ids) = Inr ()"
proof -
  have "list_all (\<lambda>c. is_ok (hex_array L 32 (cs_hash c))) (summaries_of L ids)"
    using assms by (auto simp: summaries_of_def list_all_iff crypto_ok_def hex_array_encode hash_ok_def)
  then show ?thesis
    using summaries_index_distinct [of L ids] by (simp add: check_summaries_def guardR_ok distinct_remdups_id)
qed

text \<open>The ids of \<open>ours\<close>, in the chunks \<open>ks\<close>, that \<open>theirs\<close> lacks there, in the order of iteration.\<close>

definition missing_ids :: "'x sync_lib_scheme \<Rightarrow> u64 list \<Rightarrow> envelope list \<Rightarrow> envelope list \<Rightarrow> string list" where
  "missing_ids L ks ours theirs =
    hash_order L (filter (\<lambda>i. i \<notin> set (chunk_set (map (chunk_of L theirs) ks))) (chunk_set (map (chunk_of L ours) ks)))"

lemma missing_ids_exact:
  assumes "crypto_ok L" and "hash_order_ok L" and "log_rel L base chan ours n" and "log_rel L base' chan' theirs n'"
    and "no_bucket_collision L (digests L ours) (digests L theirs)"
    and "ks = differing_chunks (summaries_of L (digests L ours)) (summaries_of L (digests L theirs))"
  shows "distinct (missing_ids L ks ours theirs) \<and> set (missing_ids L ks ours theirs) = env_id ` set ours - env_id ` set theirs"
    and "distinct (missing_ids L ks theirs ours) \<and> set (missing_ids L ks theirs ours) = env_id ` set theirs - env_id ` set ours"
proof -
  have order: "distinct (hash_order L (filter (\<lambda>i. i \<notin> set ys) xs))
      \<and> set (hash_order L (filter (\<lambda>i. i \<notin> set ys) xs)) = set xs - set ys" if "distinct xs" for xs ys
  proof -
    have "distinct (filter (\<lambda>i. i \<notin> set ys) xs)" using that by simp
    then have "distinct (hash_order L (filter (\<lambda>i. i \<notin> set ys) xs))
        \<and> set (hash_order L (filter (\<lambda>i. i \<notin> set ys) xs)) = set (filter (\<lambda>i. i \<notin> set ys) xs)"
      using assms(2) unfolding hash_order_ok_def by blast
    then show ?thesis by auto
  qed
  have d: "distinct (chunk_set cs)" for cs by (simp add: chunk_set_def)
  show "distinct (missing_ids L ks ours theirs) \<and> set (missing_ids L ks ours theirs) = env_id ` set ours - env_id ` set theirs"
    "distinct (missing_ids L ks theirs ours) \<and> set (missing_ids L ks theirs ours) = env_id ` set theirs - env_id ` set ours"
    using order [OF d] difference_exact [OF assms(1,3-6)] unfolding missing_ids_def by simp_all
qed

text \<open>Neither log has more ids in the chunks that differ than the server takes.\<close>

definition few_differing :: "'x proto_lib_scheme \<Rightarrow> envelope list \<Rightarrow> envelope list \<Rightarrow> bool" where
  "few_differing L ours theirs \<longleftrightarrow>
    (let ks = differing_chunks (summaries_of L (digests L ours)) (summaries_of L (digests L theirs)) in
     length (chunk_set (map (chunk_of L theirs) ks)) \<le> max_differing_ids
     \<and> length (chunk_set (map (chunk_of L ours) ks)) \<le> max_differing_ids)"

lemma few_differing_short:
  assumes "length ours \<le> max_differing_ids" and "length theirs \<le> max_differing_ids"
  shows "few_differing L ours theirs"
proof -
  let ?ks = "differing_chunks (summaries_of L (digests L ours)) (summaries_of L (digests L theirs))"
  have "length (chunk_set (map (chunk_of L es) ?ks)) \<le> length es" for es
  proof -
    have "length (chunk_set (map (chunk_of L es) ?ks)) = card (set (chunk_set (map (chunk_of L es) ?ks)))"
      by (simp add: chunk_set_def length_remdups_card_conv)
    also have "\<dots> \<le> card (set (digests L es))"
    proof -
      have "set (chunk_set (map (chunk_of L es) ?ks)) \<subseteq> hex_encode L ` set (digests L es)"
        by (subst chunk_set_of) (auto simp: differing_small)
      then show ?thesis by (metis card_image_le card_mono finite_imageI finite_set le_trans)
    qed
    also have "\<dots> \<le> length es" using card_length [of "digests L es"] by (simp add: digests_def)
    finally show ?thesis .
  qed
  then show ?thesis using assms unfolding few_differing_def Let_def by (meson le_trans)
qed

text \<open>What an honest client with the log \<open>theirs\<close> sends: the summaries of its log, and its ids in the chunks
  asked for.\<close>

lemma exchange_inventory_honest:
  assumes "envelope_json_ok L" and "crypto_ok L" and "hash_order_ok L"
    and "log_rel L base chan ours (node s)" and "log_rel L base' chan' theirs n'"
    and "no_bucket_collision L (digests L ours) (digests L theirs)"
    and "st_chunks st = summaries_of L (digests L theirs)"
    and "ks = differing_chunks (summaries_of L (digests L ours)) (summaries_of L (digests L theirs))"
    and "chunk_batch_of_json L text = Some \<lparr>cb_type = ''chunk_ids'', cb_chunks = map (chunk_of L theirs) ks\<rparr>"
    and "inbox s = TextFrame text # rest" and "capacity s \<noteq> 0"
  shows "\<exists>s'. exchange_inventory L base chan st s =
      (if few_differing L ours theirs then Inr (missing_ids L ks ours theirs, missing_ids L ks theirs ours)
       else Inl (Sync TooMany), s')
    \<and> log_rel L base chan ours (node s') \<and> inbox s' = rest \<and> capacity s' = capacity s - 1
    \<and> outbox s' = outbox s @ [chunk_diff_json L \<lparr>cd_type = ''chunk_diff'', cd_chunks = map (chunk_of L ours) ks, cd_want = ks\<rparr>]"
proof -
  have small: "\<And>k. k \<in> set ks \<Longrightarrow> unat k < merkle_bucket_count" using assms(8) differing_small by blast
  obtain n1 where n1: "chunk_summaries L base chan (node s) = (Inr (summaries_of L (digests L ours)), n1)"
    "log_rel L base chan ours n1"
    using chunk_summaries_rel [OF assms(1,2,4)] by blast
  obtain s2 where s2: "mapS (own_chunk L base chan) ks (s\<lparr>node := n1\<rparr>) = (Inr (map (chunk_of L ours) ks), s2)"
    "log_rel L base chan ours (node s2)" "inbox s2 = inbox s" "outbox s2 = outbox s" "capacity s2 = capacity s"
    using own_chunks [OF assms(1,2), of base chan ours "s\<lparr>node := n1\<rparr>" ks] n1(2) by auto
  have limits: "length (chunk_set (map (chunk_of L theirs) ks)) \<le> max_differing_ids
      \<and> length (chunk_set (map (chunk_of L ours) ks)) \<le> max_differing_ids \<longleftrightarrow> few_differing L ours theirs"
    using assms(8) by (simp add: few_differing_def Let_def)
  let ?frame = "chunk_diff_json L \<lparr>cd_type = ''chunk_diff'', cd_chunks = map (chunk_of L ours) ks, cd_want = ks\<rparr>"
  let ?s3 = "s2\<lparr>outbox := outbox s @ [?frame], capacity := capacity s - 1\<rparr>"
  let ?s4 = "?s3\<lparr>inbox := rest\<rparr>"
  let ?to = "missing_ids L ks ours theirs" and ?wanted = "missing_ids L ks theirs ours"
  have batch: "read_chunk_batch L ?s3 = (Inr \<lparr>cb_type = ''chunk_ids'', cb_chunks = map (chunk_of L theirs) ks\<rparr>, ?s4)"
    using assms(9,10) s2(3) by (simp add: read_chunk_batch_def bindS_def next_text_def liftS_def require_def okS_def)
  have diff: "differing_chunks (summaries_of L (digests L ours)) (st_chunks st) = ks"
    using assms(7,8) by simp
  have sends: "bindS (send ?frame) f s2 = f () ?s3" for f :: "unit \<Rightarrow> (string list \<times> string list) session_io"
    using assms(11) s2(4,5) by (simp add: bindS_send)
  have checks: "check_summaries L (st_chunks st) = Inr ()" "check_batch L ks (map (chunk_of L theirs) ks) = Inr ()"
    using check_summaries_honest [OF assms(2)] check_batch_honest [OF assms(2,5) small] differing_distinct
    unfolding assms(7,8) by blast+
  have "exchange_inventory L base chan st s =
      (if few_differing L ours theirs then Inr (?to, ?wanted) else Inl (Sync TooMany), ?s4)"
    unfolding exchange_inventory_def missing_ids_def
    by (cases "few_differing L ours theirs") (simp_all only: bindS_at_node n1(1) prod.case sum.case bindS_liftS checks Let_def diff
        bindS_step [where m = "mapS (own_chunk L base chan) ks", OF s2(1)] sends
        bindS_step [where m = "read_chunk_batch L", OF batch] bindS_require limits if_True if_False okS_def
        chunk_batch.simps simp_thms)
  then show ?thesis using s2(2,3) assms(10) by simp
qed

end
