(* ===== verification/Sync_Client.thy ===== *)
theory Sync_Client
  imports Sync_Server
begin

text \<open>
  The requesting end of a synchronization, \<open>sync_from_peer_inner\<close> of \<open>src/sync.rs\<close>: the frames of the
  server are handled one by one until it reports completion. Then channel discovery and the
  synchronization of every discovered channel (\<open>discover_peer_channels\<close>, \<open>sync_all_from_peer\<close>). The
  connection and the HTTP exchange are arguments: what the peer sends. The overall time limit is not
  represented.
\<close>

section \<open>Handling a frame\<close>

datatype outcome = Handled | Downloaded | Completed

definition handle_policy_sync ::
  "'x sync_lib_scheme \<Rightarrow> string \<Rightarrow> channel_ref \<Rightarrow> policy_sync \<Rightarrow> unit session_io" where
  "handle_policy_sync L datadir chan policy =
    (if py_status policy = ''conflict'' then
       bindS (at_node (save_policy_conflict L datadir chan (py_events policy))) (\<lambda>_.
       liftS (Inl (Sync PolicyFork)))
     else if py_status policy \<noteq> ''update'' then liftS (Inl (Sync UnexpectedFrame))
     else bindS (at_node (append_remote_policy_history L datadir chan (py_events policy))) (\<lambda>_. okS ()))"

definition handle_moderation_sync ::
  "'x sync_lib_scheme \<Rightarrow> string \<Rightarrow> channel_ref \<Rightarrow> moderation_sync \<Rightarrow> unit session_io" where
  "handle_moderation_sync L datadir chan moderation =
    (if my_status moderation = ''conflict'' then
       bindS (at_node (save_moderation_conflict L datadir chan (my_events moderation))) (\<lambda>_.
       liftS (Inl (Sync ModerationFork)))
     else if my_status moderation \<noteq> ''update'' then liftS (Inl (Sync UnexpectedFrame))
     else bindS (at_node (append_remote_moderation_history L datadir chan (my_events moderation))) (\<lambda>_. okS ()))"

text \<open>\<open>nonces\<close> are drawn for the offers of this exchange.\<close>

definition handle_key_sync ::
  "'x sync_lib_scheme \<Rightarrow> (nat \<Rightarrow> bytes) \<Rightarrow> string \<Rightarrow> channel_ref \<Rightarrow> keypair \<Rightarrow> key_sync \<Rightarrow> unit session_io" where
  "handle_key_sync L nonces datadir chan identity sync =
    bindS (liftS (validate_key_offers sync)) (\<lambda>_.
    bindS (query (read_channel_policy L datadir chan)) (\<lambda>p.
    bindS (require (visibility p = Private \<longrightarrow> policy_allows_read p (ks_identity sync)) (Sync NotAMember)) (\<lambda>_.
    bindS (if visibility p = Private
           then bindS (at_node (accept_key_offers L datadir (full_name chan) identity (ks_offers sync))) (\<lambda>_. okS ())
           else require (ks_offers sync = []) (Sync KeysForPublicChannel)) (\<lambda>_.
    bindS (if visibility p = Private
           then query (make_key_offers L nonces datadir (full_name chan) identity (ks_identity sync))
           else okS []) (\<lambda>offers.
    send (key_sync_json L \<lparr>ks_type = ''key_sync'', ks_identity = public_key identity, ks_offers = offers\<rparr>))))))"

definition handle_chunk_diff ::
  "'x sync_lib_scheme \<Rightarrow> string \<Rightarrow> channel_ref \<Rightarrow> chunk_diff \<Rightarrow> unit session_io" where
  "handle_chunk_diff L datadir chan diff =
    bindS (mapS (own_chunk L datadir chan) (cd_want diff)) (\<lambda>chunks.
    send (chunk_batch_json L \<lparr>cb_type = ''chunk_ids'', cb_chunks = chunks\<rparr>))"

definition handle_want ::
  "'x sync_lib_scheme \<Rightarrow> string \<Rightarrow> channel_ref \<Rightarrow> want_message \<Rightarrow> unit session_io" where
  "handle_want L datadir chan want = send_messages L datadir chan (wm_ids want)"

definition handle_envelope ::
  "'x sync_lib_scheme \<Rightarrow> string \<Rightarrow> channel_ref \<Rightarrow> bytes \<Rightarrow> unit session_io" where
  "handle_envelope L datadir chan text =
    bindS (liftS (from_option (Decode NotJson) (envelope_of_json L text))) (\<lambda>env.
    bindS (require (env_channel env = full_name chan) (Log WrongChannel)) (\<lambda>_.
    bindS (liftS (verify L env)) (\<lambda>_.
    bindS (at_node (append_message L datadir chan env)) (\<lambda>_.
    okS ()))))"

text \<open>A parsed frame counts only with the type that belongs to it (\<open>if let Ok(x) = .. && x.msg_type == ..\<close>).\<close>

definition typed :: "('a \<Rightarrow> string) \<Rightarrow> string \<Rightarrow> 'a option \<Rightarrow> 'a option" where
  "typed type_of name x = (case x of None \<Rightarrow> None | Some y \<Rightarrow> if type_of y = name then Some y else None)"

definition dispatch ::
  "'x sync_lib_scheme \<Rightarrow> (nat \<Rightarrow> bytes) \<Rightarrow> string \<Rightarrow> channel_ref \<Rightarrow> keypair \<Rightarrow> bytes \<Rightarrow> outcome session_io" where
  "dispatch L nonces datadir chan identity text =
    (case typed py_type ''policy_sync'' (policy_sync_of_json L text) of
       Some policy \<Rightarrow> bindS (handle_policy_sync L datadir chan policy) (\<lambda>_. okS Handled)
     | None \<Rightarrow>
    (case typed my_type ''moderation_sync'' (moderation_sync_of_json L text) of
       Some moderation \<Rightarrow> bindS (handle_moderation_sync L datadir chan moderation) (\<lambda>_. okS Handled)
     | None \<Rightarrow>
    (case typed ks_type ''key_sync'' (key_sync_of_json L text) of
       Some sync \<Rightarrow> bindS (handle_key_sync L nonces datadir chan identity sync) (\<lambda>_. okS Handled)
     | None \<Rightarrow>
    (case typed cd_type ''chunk_diff'' (chunk_diff_of_json L text) of
       Some diff \<Rightarrow> bindS (handle_chunk_diff L datadir chan diff) (\<lambda>_. okS Handled)
     | None \<Rightarrow>
    (case typed wm_type ''want'' (want_of_json L text) of
       Some want \<Rightarrow> bindS (handle_want L datadir chan want) (\<lambda>_. okS Handled)
     | None \<Rightarrow> bindS (handle_envelope L datadir chan text) (\<lambda>_. okS Downloaded))))))"

text \<open>A response is recognised by its status alone, whatever its type.\<close>

definition handle_frame ::
  "'x sync_lib_scheme \<Rightarrow> (nat \<Rightarrow> bytes) \<Rightarrow> string \<Rightarrow> channel_ref \<Rightarrow> keypair \<Rightarrow> bytes \<Rightarrow> outcome session_io" where
  "handle_frame L nonces datadir chan identity text =
    (case response_of_json L text of
       None \<Rightarrow> dispatch L nonces datadir chan identity text
     | Some response \<Rightarrow>
         if sr_status response = ''complete'' then okS Completed
         else if sr_status response = ''error'' then liftS (Inl (Sync PeerReported))
         else dispatch L nonces datadir chan identity text)"

section \<open>The session\<close>

text \<open>\<open>nonces i\<close> are the nonces drawn while the frame with \<open>i\<close> frames after it is handled.\<close>

fun client_loop ::
  "'x sync_lib_scheme \<Rightarrow> (nat \<Rightarrow> nat \<Rightarrow> bytes) \<Rightarrow> string \<Rightarrow> channel_ref \<Rightarrow> keypair \<Rightarrow> u64 \<Rightarrow> ws_message list
    \<Rightarrow> u64 session_io"
where
  "client_loop L nonces datadir chan identity received [] s = (Inl (Sync PeerClosed), s)"
| "client_loop L nonces datadir chan identity received (m # rest) s =
    (let s1 = s\<lparr>inbox := rest\<rparr> in
     case m of
       BrokenFrame \<Rightarrow> (Inl (Sync PeerClosed), s1)
     | OtherFrame \<Rightarrow> client_loop L nonces datadir chan identity received rest s1
     | TextFrame text \<Rightarrow>
         (case handle_frame L (nonces (length rest)) datadir chan identity text s1 of
            (Inl e, s2) \<Rightarrow> (Inl e, s2)
          | (Inr Completed, s2) \<Rightarrow> (Inr received, s2)
          | (Inr Handled, s2) \<Rightarrow> client_loop L nonces datadir chan identity received rest s2
          | (Inr Downloaded, s2) \<Rightarrow> client_loop L nonces datadir chan identity (received + 1) rest s2))"

definition receive_frames ::
  "'x sync_lib_scheme \<Rightarrow> (nat \<Rightarrow> nat \<Rightarrow> bytes) \<Rightarrow> string \<Rightarrow> channel_ref \<Rightarrow> keypair \<Rightarrow> u64 session_io" where
  "receive_frames L nonces datadir chan identity s =
    client_loop L nonces datadir chan identity 0 (inbox s) s"

text \<open>\<open>auth_ts\<close> is the clock before the connection, \<open>now\<close> when the challenge is checked; \<open>connected\<close>
  whether the connection was established.\<close>

definition sync_from_peer ::
  "'x sync_lib_scheme \<Rightarrow> i64 \<Rightarrow> i64 \<Rightarrow> (nat \<Rightarrow> nat \<Rightarrow> bytes) \<Rightarrow> bool \<Rightarrow> string \<Rightarrow> string \<Rightarrow> string \<Rightarrow> u64 session_io"
where
  "sync_from_peer L auth_ts now nonces connected datadir peer channel =
    bindS (liftS (parse_channel channel)) (\<lambda>chan.
    bindS (at_node (chunk_summaries L datadir chan)) (\<lambda>chunks.
    bindS (query (read_policy_history L datadir chan)) (\<lambda>policy_events.
    bindS (query (read_moderation_history L datadir chan)) (\<lambda>moderation_events.
    bindS (query (load_secure L (identity_path datadir))) (\<lambda>identity.
    bindS (require connected (Sync PeerClosed)) (\<lambda>_.
    bindS (read_client_challenge L) (\<lambda>challenge.
    bindS (query (expected_peer_key L datadir peer)) (\<lambda>expected.
    bindS (liftS (verify_auth_challenge L now challenge ''/sync'' expected)) (\<lambda>_.
    bindS (liftS (sign_bytes L identity
             (sync_auth_payload auth_ts channel (ac_nonce challenge) (ac_responder challenge)))) (\<lambda>auth_sig.
    bindS (send (status_json L \<lparr>st_type = ''status'', st_version = sync_version, st_channel = channel,
             st_requester = public_key identity, st_auth_ts = auth_ts, st_auth_sig = auth_sig,
             st_policy = policy_events, st_moderation = moderation_events, st_chunks = chunks\<rparr>)) (\<lambda>_.
    receive_frames L nonces datadir chan identity)))))))))))"

section \<open>Discovery\<close>

text \<open>The URL of an endpoint of the peer: \<open>http\<close> for \<open>ws\<close>, \<open>https\<close> for \<open>wss\<close>.\<close>

definition endpoint_url :: "'x peer_lib_scheme \<Rightarrow> string \<Rightarrow> string \<Rightarrow> string result" where
  "endpoint_url L peer path =
    bindR (from_option (Decode NotUrl) (url_parse L peer)) (\<lambda>u.
    bindR (if url_scheme u = ''ws'' then Inr ''http''
           else if url_scheme u = ''wss'' then Inr ''https''
           else Inl (Peer UnsupportedScheme)) (\<lambda>scheme.
    Inr (url_to_string L (u\<lparr>url_scheme := scheme, url_path := path, url_query := None, url_fragment := None\<rparr>))))"

record status_request =
  rq_url :: string
  rq_key :: string
  rq_timestamp :: string
  rq_signature :: string
  rq_nonce :: string

text \<open>The two HTTP requests: \<open>http_challenge url\<close> and \<open>http_status request\<close> are the bodies answered with
  success; \<open>announced\<close> is the length the second answer declares.\<close>

definition channels_of_status :: "'x sync_lib_scheme \<Rightarrow> u64 option \<Rightarrow> bytes \<Rightarrow> string list result" where
  "channels_of_status L announced body =
    (if (case announced of None \<Rightarrow> False | Some n \<Rightarrow> unat n > max_status_bytes) then Inl (Sync TooMany)
     else if length body > max_status_bytes then Inl (Sync TooMany)
     else bindR (from_option (Decode NotJson) (peer_status_of_json L body)) (\<lambda>status.
       if \<not> ps_ok status then Inl (Sync PeerReported)
       else if length (ps_channels status) > max_discovered_channels then Inl (Sync TooMany)
       else Inr (remdups_adj (sort (filter (\<lambda>c. is_ok (parse_channel c)) (ps_channels status))))))"

definition status_request_for ::
  "'x sync_lib_scheme \<Rightarrow> i64 \<Rightarrow> keypair \<Rightarrow> auth_challenge \<Rightarrow> string \<Rightarrow> status_request result" where
  "status_request_for L timestamp identity challenge url =
    bindR (sign_bytes L identity
             (discovery_auth_payload timestamp (ac_nonce challenge) (ac_responder challenge))) (\<lambda>signature.
    Inr \<lparr>rq_url = url, rq_key = public_key identity, rq_timestamp = show_i64 timestamp,
         rq_signature = signature, rq_nonce = ac_nonce challenge\<rparr>)"

definition discover_peer_channels ::
  "'x sync_lib_scheme \<Rightarrow> i64 \<Rightarrow> i64 \<Rightarrow> (string \<Rightarrow> bytes result) \<Rightarrow> (status_request \<Rightarrow> (u64 option \<times> bytes) result)
    \<Rightarrow> string \<Rightarrow> string \<Rightarrow> node_fs \<Rightarrow> string list result"
where
  "discover_peer_channels L now timestamp http_challenge http_status datadir peer s =
    bindR (endpoint_url L peer ''/status'') (\<lambda>status_url.
    bindR (load_secure L (identity_path datadir) s) (\<lambda>identity.
    bindR (endpoint_url L peer ''/challenge'') (\<lambda>challenge_url.
    bindR (http_challenge challenge_url) (\<lambda>text.
    bindR (from_option (Decode NotJson) (challenge_of_json L text)) (\<lambda>challenge.
    bindR (expected_peer_key L datadir peer s) (\<lambda>expected.
    bindR (verify_auth_challenge L now challenge ''/status'' expected) (\<lambda>_.
    bindR (status_request_for L timestamp identity challenge status_url) (\<lambda>request.
    bindR (http_status request) (\<lambda>(announced, body).
    channels_of_status L announced body)))))))))"

text \<open>Every discovered channel is created and synchronized; \<open>sessions c\<close> is the connection opened for
  the channel \<open>c\<close>, run on the files as they are then.\<close>

fun sync_channels ::
  "'x sync_lib_scheme \<Rightarrow> (string \<Rightarrow> u64 session_io) \<Rightarrow> (string \<Rightarrow> session) \<Rightarrow> string \<Rightarrow> string list \<Rightarrow> u64 \<Rightarrow> u64 io"
where
  "sync_channels L sync sessions datadir [] received = okS received"
| "sync_channels L sync sessions datadir (c # cs) received =
    bindS (liftS (parse_channel c)) (\<lambda>chan.
    bindS (create_channel datadir chan) (\<lambda>_.
    bindS (\<lambda>n. (case sync c ((sessions c)\<lparr>node := n\<rparr>) of (r, s) \<Rightarrow> (r, node s))) (\<lambda>k.
    sync_channels L sync sessions datadir cs (received + k))))"

definition sync_all_from_peer ::
  "'x sync_lib_scheme \<Rightarrow> i64 \<Rightarrow> i64 \<Rightarrow> (string \<Rightarrow> bytes result) \<Rightarrow> (status_request \<Rightarrow> (u64 option \<times> bytes) result)
    \<Rightarrow> (string \<Rightarrow> u64 session_io) \<Rightarrow> (string \<Rightarrow> session) \<Rightarrow> string \<Rightarrow> string \<Rightarrow> (nat \<times> u64) io"
where
  "sync_all_from_peer L now timestamp http_challenge http_status sync sessions datadir peer =
    bindS (readS (discover_peer_channels L now timestamp http_challenge http_status datadir peer)) (\<lambda>channels.
    bindS (sync_channels L sync sessions datadir channels 0) (\<lambda>received.
    okS (length channels, received)))"

end
