(* ===== verification/Sync_Convergence.thy ===== *)
theory Sync_Convergence
  imports Sync_Inventory Sync_Client
begin

text \<open>
  Both ends of a synchronization together: when an honest client and an honest server talk to each
  other, the message phase completes and leaves both logs with the union of the two sets of messages.
\<close>

section \<open>Frames are told apart\<close>

text \<open>What serde does with the frames of the message phase: a frame parses back to what it was, and an
  object that lacks a required field of another frame does not parse as that frame.\<close>

definition frames_ok :: "'x sync_lib_scheme \<Rightarrow> bool" where
  "frames_ok L \<longleftrightarrow>
    (\<forall>r. response_of_json L (response_json L r) = Some r)
    \<and> (\<forall>b. chunk_batch_of_json L (chunk_batch_json L b) = Some b)
    \<and> (\<forall>x. \<forall>t \<in> {chunk_diff_json L x}. response_of_json L t = None \<and> policy_sync_of_json L t = None
        \<and> moderation_sync_of_json L t = None \<and> key_sync_of_json L t = None \<and> chunk_diff_of_json L t = Some x)
    \<and> (\<forall>x. \<forall>t \<in> {want_json L x}. response_of_json L t = None \<and> policy_sync_of_json L t = None
        \<and> moderation_sync_of_json L t = None \<and> key_sync_of_json L t = None \<and> chunk_diff_of_json L t = None
        \<and> want_of_json L t = Some x)
    \<and> (\<forall>x. \<forall>t \<in> {envelope_json L x}. response_of_json L t = None \<and> policy_sync_of_json L t = None
        \<and> moderation_sync_of_json L t = None \<and> key_sync_of_json L t = None \<and> chunk_diff_of_json L t = None
        \<and> want_of_json L t = None)"

section \<open>Sending messages\<close>

definition message_of :: "envelope list \<Rightarrow> string \<Rightarrow> envelope" where
  "message_of es i = the (List.find (\<lambda>e. env_id e = i) es)"

lemma message_of_mem: "i \<in> env_id ` set es \<Longrightarrow> message_of es i \<in> set es \<and> env_id (message_of es i) = i"
proof -
  assume "i \<in> env_id ` set es"
  then obtain e where "List.find (\<lambda>e. env_id e = i) es = Some e"
    by (cases "List.find (\<lambda>e. env_id e = i) es") (auto simp: find_None_iff)
  moreover from this have "e \<in> set es" "env_id e = i" by (auto simp: find_Some_iff)
  ultimately show ?thesis by (simp add: message_of_def)
qed

lemma messages_of_ids: "set ids \<subseteq> env_id ` set es \<Longrightarrow> map env_id (map (message_of es) ids) = ids"
  using message_of_mem by (induction ids) auto

lemma send_message_ok:
  assumes "envelope_json_ok L" and "crypto_ok L" and "log_rel L base chan es (node s)"
    and "i \<in> env_id ` set es" and "capacity s \<noteq> 0"
  shows "\<exists>s'. send_message L base chan i s = (Inr (), s') \<and> log_rel L base chan es (node s')
    \<and> files (node s') = files (node s) \<and> same_outside {index_path base chan} (node s) (node s')
    \<and> inbox s' = inbox s \<and> outbox s' = outbox s @ [envelope_json L (message_of es i)] \<and> capacity s' = capacity s - 1"
proof -
  obtain n where n: "read_message_by_id L base chan i (node s) =
      (from_option (Log NotIndexed) (List.find (\<lambda>e. env_id e = i) es), n)"
    "log_rel L base chan es n" "files n = files (node s)" "same_outside {index_path base chan} (node s) n"
    using read_by_id_result [OF assms(1-3)] by blast
  obtain e where e: "List.find (\<lambda>e. env_id e = i) es = Some e"
    using assms(4) by (cases "List.find (\<lambda>e. env_id e = i) es") (auto simp: find_None_iff)
  then have "send_message L base chan i s = (Inr (), s\<lparr>node := n, outbox := outbox s @ [envelope_json L (message_of es i)],
      capacity := capacity s - 1\<rparr>)"
    using n(1) assms(5) by (simp add: send_message_def bindS_at_node send_def message_of_def)
  then show ?thesis using n(2-4) by simp
qed

lemma send_messages_ok:
  assumes "envelope_json_ok L" and "crypto_ok L"
  shows "log_rel L base chan es (node s) \<Longrightarrow> set ids \<subseteq> env_id ` set es \<Longrightarrow> length ids \<le> capacity s \<Longrightarrow>
    \<exists>s'. send_messages L base chan ids s = (Inr (), s') \<and> log_rel L base chan es (node s')
      \<and> same_outside {index_path base chan} (node s) (node s') \<and> inbox s' = inbox s
      \<and> outbox s' = outbox s @ map (\<lambda>i. envelope_json L (message_of es i)) ids
      \<and> capacity s' = capacity s - length ids"
proof (induction ids arbitrary: s)
  case Nil
  then show ?case by (simp add: send_messages_def okS_def)
next
  case (Cons i ids)
  have "i \<in> env_id ` set es" "capacity s \<noteq> 0" using Cons.prems(2,3) by auto
  then obtain s1 where s1: "send_message L base chan i s = (Inr (), s1)" "log_rel L base chan es (node s1)"
    "same_outside {index_path base chan} (node s) (node s1)" "inbox s1 = inbox s"
    "outbox s1 = outbox s @ [envelope_json L (message_of es i)]" "capacity s1 = capacity s - 1"
    using send_message_ok [OF assms Cons.prems(1)] by blast
  have "set ids \<subseteq> env_id ` set es" "length ids \<le> capacity s1" using Cons.prems(2,3) s1(6) by auto
  then obtain s2 where s2: "send_messages L base chan ids s1 = (Inr (), s2)" "log_rel L base chan es (node s2)"
    "same_outside {index_path base chan} (node s1) (node s2)" "inbox s2 = inbox s1"
    "outbox s2 = outbox s1 @ map (\<lambda>i. envelope_json L (message_of es i)) ids" "capacity s2 = capacity s1 - length ids"
    using Cons.IH [OF s1(2)] by blast
  obtain us where "mapS (send_message L base chan) ids s1 = (Inr us, s2)"
    using s2(1) by (auto simp: send_messages_def bindS_ok okS_ok)
  then have "send_messages L base chan (i # ids) s = (Inr (), s2)"
    using s1(1) by (simp add: send_messages_def bindS_def okS_def)
  then show ?case using s1 s2 same_outside_trans [OF s1(3) s2(3)] by auto
qed

section \<open>Receiving messages\<close>

lemma upload_honest:
  assumes "envelope_json_ok L" and "crypto_ok L"
  shows "log_rel L base chan msgs (node s) \<Longrightarrow> length (log_bytes L (msgs @ new)) < 2 ^ 64 \<Longrightarrow>
    distinct wanted \<Longrightarrow> distinct (map env_id new) \<Longrightarrow> set wanted = env_id ` set new \<Longrightarrow>
    set wanted \<inter> env_id ` set msgs = {} \<Longrightarrow>
    (\<And>e. e \<in> set new \<Longrightarrow> verify L e = Inr () \<and> env_channel e = full_name chan
      \<and> is_ok (authorize_append L base chan (env_from e) (node s))) \<Longrightarrow>
    \<exists>s'. upload_loop L base chan wanted k (map (\<lambda>e. TextFrame (envelope_json L e)) new) s =
        (Inr (k + word_of_nat (length new)), s')
      \<and> log_rel L base chan (msgs @ new) (node s') \<and> outbox s' = outbox s \<and> capacity s' = capacity s"
proof (induction new arbitrary: msgs s wanted k)
  case Nil
  then show ?case by simp
next
  case (Cons e new)
  have dec: "envelope_of_json L (envelope_json L e) = Some e"
    using assms(1) by (simp add: envelope_json_ok_def)
  have short: "length (log_bytes L (msgs @ [e'])) < 2 ^ 64" if "envelope_of_json L (envelope_json L e) = Some e'" for e'
    using Cons.prems(2) that dec by (simp add: log_bytes_append)
  obtain q n' where acc: "accept_upload L base chan wanted (envelope_json L e) (node s) = (q, n')"
    by (cases "accept_upload L base chan wanted (envelope_json L e) (node s)")
  note res = accept_upload_result [OF assms Cons.prems(1) short Cons.prems(6) acc]
  have good: "env_id e \<in> set wanted" "verify L e = Inr ()" "env_channel e = full_name chan"
    "is_ok (authorize_append L base chan (env_from e) (node s))"
    using Cons.prems(5,7) by auto
  then obtain wanted' where q: "q = Inr wanted'" using res dec by (cases q) auto
  then have r: "wanted' = filter (\<lambda>x. x \<noteq> env_id e) wanted" "log_rel L base chan (msgs @ [e]) n'"
    "\<forall>a. authorize_append L base chan a n' = authorize_append L base chan a (node s)"
    using res dec by auto
  let ?s2 = "s\<lparr>inbox := map (\<lambda>e. TextFrame (envelope_json L e)) new, node := n'\<rparr>"
  have "wanted \<noteq> []" using good(1) by auto
  then have step: "upload_loop L base chan wanted k (map (\<lambda>e. TextFrame (envelope_json L e)) (e # new)) s =
      upload_loop L base chan wanted' (k + 1) (map (\<lambda>e. TextFrame (envelope_json L e)) new) ?s2"
    using acc q by (simp add: at_node_def)
  have side: "distinct wanted'" "distinct (map env_id new)" "set wanted' = env_id ` set new"
    "set wanted' \<inter> env_id ` set (msgs @ [e]) = {}"
    using Cons.prems(3-6) r(1) by (auto simp: image_iff)
  have "length (log_bytes L ((msgs @ [e]) @ new)) < 2 ^ 64" using Cons.prems(2) by simp
  from Cons.IH [of "msgs @ [e]" ?s2 wanted' "k + 1", OF _ this side] show ?case
    unfolding step using r(2,3) Cons.prems(7) by (auto simp: add.assoc)
qed

lemma client_envelopes:
  assumes "envelope_json_ok L" and "crypto_ok L" and "frames_ok L"
  shows "log_rel L base chan msgs (node s) \<Longrightarrow> length (log_bytes L (msgs @ new)) < 2 ^ 64 \<Longrightarrow>
    distinct (map env_id new) \<Longrightarrow> env_id ` set new \<inter> env_id ` set msgs = {} \<Longrightarrow>
    (\<And>e. e \<in> set new \<Longrightarrow> verify L e = Inr () \<and> env_channel e = full_name chan
      \<and> is_ok (authorize_append L base chan (env_from e) (node s))) \<Longrightarrow>
    \<exists>s'. client_loop L nonces base chan identity k (map (\<lambda>e. TextFrame (envelope_json L e)) new @ rest) s =
        client_loop L nonces base chan identity (k + word_of_nat (length new)) rest s'
      \<and> log_rel L base chan (msgs @ new) (node s') \<and> outbox s' = outbox s \<and> capacity s' = capacity s"
proof (induction new arbitrary: msgs s k)
  case Nil
  then show ?case by auto
next
  case (Cons e new)
  have dec: "envelope_of_json L (envelope_json L e) = Some e"
    using assms(1) by (simp add: envelope_json_ok_def)
  obtain q n' where app: "append_message L base chan e (node s) = (q, n')"
    by (cases "append_message L base chan e (node s)")
  have short: "length (log_bytes L (msgs @ [e])) < 2 ^ 64"
    using Cons.prems(2) by (simp add: log_bytes_append)
  have good: "verify L e = Inr ()" "env_channel e = full_name chan"
    "is_ok (authorize_append L base chan (env_from e) (node s))" "log_append msgs e = msgs @ [e]"
    using Cons.prems(4,5) by (auto simp: log_append_def)
  then obtain i where q: "q = Inr i" "log_rel L base chan (msgs @ [e]) n'"
    using append_message_result [OF assms(1,2) Cons.prems(1) short app] by (cases q) auto
  let ?rest = "map (\<lambda>e. TextFrame (envelope_json L e)) new @ rest"
  let ?s2 = "s\<lparr>inbox := ?rest, node := n'\<rparr>"
  have "handle_frame L (nonces (length ?rest)) base chan identity (envelope_json L e) (s\<lparr>inbox := ?rest\<rparr>) =
      (Inr Downloaded, ?s2)"
    using assms(3) dec good(1,2) app q(1)
    by (simp add: handle_frame_def dispatch_def frames_ok_def typed_def handle_envelope_def bindS_def liftS_def
        require_def at_node_def okS_def)
  then have step: "client_loop L nonces base chan identity k (map (\<lambda>e. TextFrame (envelope_json L e)) (e # new) @ rest) s =
      client_loop L nonces base chan identity (k + 1) ?rest ?s2"
    by simp
  have "\<forall>a. authorize_append L base chan a n' = authorize_append L base chan a (node s)"
    using authorize_append_after [OF app] by blast
  moreover have "length (log_bytes L ((msgs @ [e]) @ new)) < 2 ^ 64" using Cons.prems(2) by simp
  moreover have "distinct (map env_id new)" "env_id ` set new \<inter> env_id ` set (msgs @ [e]) = {}"
    using Cons.prems(3,4) by auto
  ultimately show ?case
    unfolding step using Cons.IH [of "msgs @ [e]" ?s2 "k + 1"] q(2) Cons.prems(5) by (auto simp: add.assoc)
qed

section \<open>Both ends\<close>

lemma log_bytes_subset:
  assumes "distinct new" and "distinct es" and "set new \<subseteq> set es"
  shows "length (log_bytes L new) \<le> length (log_bytes L es)"
proof -
  have len: "length (log_bytes L xs) = sum_list (map (record_len L) xs)" for xs
    by (induction xs) (simp_all add: record_len_def)
  show ?thesis
    unfolding len using assms by (simp add: sum_list_distinct_conv_sum_set sum_mono2)
qed

text \<open>One message's author may write here.\<close>

definition admits :: "'x policy_lib_scheme \<Rightarrow> string \<Rightarrow> channel_ref \<Rightarrow> envelope list \<Rightarrow> node_fs \<Rightarrow> bool" where
  "admits L base chan es n \<longleftrightarrow> (\<forall>e \<in> set es. is_ok (authorize_append L base chan (env_from e) n))"

lemma authorize_outside_index:
  assumes "same_outside {index_path base chan} n n'"
  shows "authorize_append L base chan a n' = authorize_append L base chan a n"
  using index_log_distinct [of base chan]
  by (simp add: authorize_append_def same_outside_policy [OF assms] not_sym)

lemma picked_messages:
  assumes "log_wf L chan es" and "distinct ids" and "set ids \<subseteq> env_id ` set es"
  shows "map env_id (map (message_of es) ids) = ids" and "distinct (map (message_of es) ids)"
    and "set (map (message_of es) ids) = {e \<in> set es. env_id e \<in> set ids}"
    and "\<And>e. e \<in> set (map (message_of es) ids) \<Longrightarrow> verify L e = Inr () \<and> env_channel e = full_name chan"
proof -
  show ids: "map env_id (map (message_of es) ids) = ids" by (rule messages_of_ids [OF assms(3)])
  then show "distinct (map (message_of es) ids)" using assms(2) by (metis distinct_map)
  have inj: "inj_on env_id (set es)" using assms(1) by (simp add: log_wf_def distinct_map)
  have sub: "message_of es i \<in> set es \<and> env_id (message_of es i) = i" if "i \<in> set ids" for i
    using that assms(3) message_of_mem by blast
  have "e = message_of es (env_id e)" if "e \<in> set es" "env_id e \<in> set ids" for e
    using sub [OF that(2)] that(1) inj by (metis inj_onD)
  then show eq: "set (map (message_of es) ids) = {e \<in> set es. env_id e \<in> set ids}"
    using sub by fastforce
  fix e assume "e \<in> set (map (message_of es) ids)"
  then have "e \<in> set es" unfolding eq by simp
  then show "verify L e = Inr () \<and> env_channel e = full_name chan"
    using assms(1) by (simp add: log_wf_def list_all_iff)
qed

lemma own_chunks_outside:
  assumes "envelope_json_ok L" and "crypto_ok L"
  shows "log_rel L base chan es (node s) \<Longrightarrow>
    same_outside {index_path base chan} (node s) (node (snd (mapS (own_chunk L base chan) ks s)))"
proof (induction ks arbitrary: s)
  case Nil
  then show ?case by (simp add: okS_def)
next
  case (Cons k ks)
  obtain n where n: "chunk_ids L base chan k (node s) = (Inr (bucket_ids L es k), n)" "log_rel L base chan es n"
    "same_outside {index_path base chan} (node s) n"
    using chunk_ids_rel [OF assms Cons.prems, of k] unfolding bucket_ids_def by blast
  then show ?case
    using Cons.IH [of "s\<lparr>node := n\<rparr>"]
    by (auto simp: own_chunk_def bindS_def at_node_def okS_def split: prod.split sum.split
        intro: same_outside_trans)
qed

lemma exchange_inventory_outside:
  assumes "envelope_json_ok L" and "crypto_ok L" and "log_rel L base chan es (node s)"
    and "exchange_inventory L base chan st s = (Inr x, s')"
  shows "same_outside {index_path base chan} (node s) (node s')"
proof -
  obtain n1 where n1: "chunk_summaries L base chan (node s) = (Inr (summaries_of L (digests L es)), n1)"
    "log_rel L base chan es n1" "same_outside {index_path base chan} (node s) n1"
    using chunk_summaries_rel [OF assms(1-3)] by blast
  let ?s1 = "s\<lparr>node := n1\<rparr>"
  obtain ks own s2 where s2: "mapS (own_chunk L base chan) ks ?s1 = (Inr own, s2)"
    and rest: "node s' = node s2"
    using assms(4) n1(1)
    by (auto simp: exchange_inventory_def Let_def runS_ok bindS_at_node send_def require_def
        read_chunk_batch_def next_text_def split: if_splits prod.splits)
  have "same_outside {index_path base chan} n1 (node s2)"
    using own_chunks_outside [OF assms(1,2), of base chan es ?s1 ks] n1(2) s2 by simp
  then show ?thesis using same_outside_trans [OF n1(3)] rest by simp
qed

lemma server_completes:
  assumes "envelope_json_ok L" and "crypto_ok L" and "hash_order_ok L"
    and "log_rel L base chan ours (node s)" and "log_rel L base' chan theirs n'"
    and "no_bucket_collision L (digests L ours) (digests L theirs)"
    and "st_chunks st = summaries_of L (digests L theirs)"
    and "ks = differing_chunks (summaries_of L (digests L ours)) (summaries_of L (digests L theirs))"
    and "to_client = missing_ids L ks ours theirs" and "wanted = missing_ids L ks theirs ours"
    and "chunk_batch_of_json L batch = Some \<lparr>cb_type = ''chunk_ids'', cb_chunks = map (chunk_of L theirs) ks\<rparr>"
    and "few_differing L ours theirs"
    and "length ours + 3 \<le> capacity s" and "length (log_bytes L (ours @ theirs)) < 2 ^ 64"
    and "admits L base chan theirs (node s)"
    and "inbox s = TextFrame batch # map (\<lambda>e. TextFrame (envelope_json L e)) (map (message_of theirs) wanted)"
  shows "\<exists>s'. serve_messages L base chan st s = (Inr (), s')
      \<and> log_rel L base chan (ours @ map (message_of theirs) wanted) (node s')
      \<and> outbox s' = outbox s
          @ [chunk_diff_json L \<lparr>cd_type = ''chunk_diff'', cd_chunks = map (chunk_of L ours) ks, cd_want = ks\<rparr>,
             want_json L \<lparr>wm_type = ''want'', wm_ids = wanted\<rparr>]
          @ map (\<lambda>i. envelope_json L (message_of ours i)) to_client
          @ [response_json L (complete (word_of_nat (length to_client)) (word_of_nat (length wanted)))]"
proof -
  let ?up = "map (message_of theirs) wanted"
  let ?want = "want_json L \<lparr>wm_type = ''want'', wm_ids = wanted\<rparr>"
  have ids: "distinct to_client" "set to_client = env_id ` set ours - env_id ` set theirs"
    "distinct wanted" "set wanted = env_id ` set theirs - env_id ` set ours"
    using missing_ids_exact [OF assms(2-6,8)] by (simp_all add: assms(9,10))
  have theirs_wf: "log_wf L chan theirs" using assms(5) by (simp add: log_rel_def)
  have sub: "set wanted \<subseteq> env_id ` set theirs" using ids(4) by blast
  note up = picked_messages [OF theirs_wf ids(3) sub]
  have few: "length to_client \<le> length ours"
  proof -
    have "length to_client = card (set to_client)" using ids(1) by (simp add: distinct_card)
    also have "\<dots> \<le> card (env_id ` set ours)" using ids(2) by (intro card_mono) auto
    also have "\<dots> \<le> length ours" by (metis card_image_le card_length finite_set le_trans)
    finally show ?thesis .
  qed
  have cap: "capacity s \<noteq> 0" using assms(13) by simp
  obtain s1 where s1: "exchange_inventory L base chan st s = (Inr (to_client, wanted), s1)"
    "log_rel L base chan ours (node s1)" "inbox s1 = map (\<lambda>e. TextFrame (envelope_json L e)) ?up"
    "capacity s1 = capacity s - 1"
    "outbox s1 = outbox s @ [chunk_diff_json L \<lparr>cd_type = ''chunk_diff'', cd_chunks = map (chunk_of L ours) ks, cd_want = ks\<rparr>]"
    using exchange_inventory_honest [OF assms(1-8,11,16) cap] assms(9,10,12) by auto
  have out1: "same_outside {index_path base chan} (node s) (node s1)"
    by (rule exchange_inventory_outside [OF assms(1,2,4) s1(1)])
  let ?s2 = "s1\<lparr>outbox := outbox s1 @ [?want], capacity := capacity s1 - 1\<rparr>"
  have want: "send ?want s1 = (Inr (), ?s2)" using s1(4) assms(13) by (simp add: send_def)
  have "log_rel L base chan ours (node ?s2)" "set to_client \<subseteq> env_id ` set ours" "length to_client \<le> capacity ?s2"
    using s1(2,4) ids(2) few assms(13) by auto
  from send_messages_ok [OF assms(1,2) this] obtain s3 where s3:
    "send_messages L base chan to_client ?s2 = (Inr (), s3)" "log_rel L base chan ours (node s3)"
    "same_outside {index_path base chan} (node s1) (node s3)" "inbox s3 = inbox s1"
    "outbox s3 = outbox ?s2 @ map (\<lambda>i. envelope_json L (message_of ours i)) to_client"
    "capacity s3 = capacity ?s2 - length to_client"
    by auto
  have auth: "authorize_append L base chan a (node s3) = authorize_append L base chan a (node s)" for a
    by (simp add: authorize_outside_index [OF out1] authorize_outside_index [OF s3(3)])
  have size: "length (log_bytes L (ours @ ?up)) < 2 ^ 64"
  proof -
    have "distinct theirs" using theirs_wf by (auto simp: log_wf_def distinct_map)
    moreover have "set ?up \<subseteq> set theirs" unfolding up(3) by blast
    ultimately have "length (log_bytes L ?up) \<le> length (log_bytes L theirs)" using log_bytes_subset up(2) by blast
    then show ?thesis using assms(14) by (simp add: log_bytes_append)
  qed
  have good: "verify L e = Inr () \<and> env_channel e = full_name chan \<and> is_ok (authorize_append L base chan (env_from e) (node s3))"
    if "e \<in> set ?up" for e
    using up(4) [OF that] that assms(15) unfolding auth admits_def up(3) by blast
  have "set wanted = env_id ` set ?up" "set wanted \<inter> env_id ` set ours = {}" "distinct (map env_id ?up)"
    using up(1) ids(3,4) by (metis list.set_map, blast, simp only: up(1))
  then obtain s4 where s4: "upload_loop L base chan wanted 0 (inbox s3) s3 = (Inr (word_of_nat (length wanted)), s4)"
    "log_rel L base chan (ours @ ?up) (node s4)" "outbox s4 = outbox s3" "capacity s4 = capacity s3"
    using upload_honest [OF assms(1,2) s3(2) size ids(3) _ _ _ good, of 0] s1(3) s3(4) by auto
  let ?done = "response_json L (complete (word_of_nat (length to_client)) (word_of_nat (length wanted)))"
  let ?s5 = "s4\<lparr>outbox := outbox s4 @ [?done], capacity := capacity s4 - 1\<rparr>"
  have "capacity s4 \<noteq> 0" using s4(4) s3(6) s1(4) few assms(13) by simp
  then have fin: "send ?done s4 = (Inr (), ?s5)" by (simp add: send_def)
  have "serve_messages L base chan st s = (Inr (), ?s5)"
    unfolding serve_messages_def
    by (simp only: bindS_step [where m = "exchange_inventory L base chan st", OF s1(1)] prod.case
        bindS_step [where m = "send ?want", OF want] bindS_step [where m = "send_messages L base chan to_client", OF s3(1)]
        bindS_step [where m = "receive_uploads L base chan wanted", OF s4(1) [folded receive_uploads_def]] fin)
  then show ?thesis using s4(2,3) s3(5) s1(5) by simp
qed

lemma client_completes:
  assumes "envelope_json_ok L" and "crypto_ok L" and "frames_ok L" and "hash_order_ok L"
    and "log_rel L base chan theirs (node c)" and "log_rel L base' chan ours n'"
    and "no_bucket_collision L (digests L ours) (digests L theirs)"
    and "ks = differing_chunks (summaries_of L (digests L ours)) (summaries_of L (digests L theirs))"
    and "to_client = missing_ids L ks ours theirs" and "wanted = missing_ids L ks theirs ours"
    and "length theirs + 1 \<le> capacity c" and "length (log_bytes L (theirs @ ours)) < 2 ^ 64"
    and "admits L base chan ours (node c)"
    and "inbox c =
      [TextFrame (chunk_diff_json L \<lparr>cd_type = ''chunk_diff'', cd_chunks = map (chunk_of L ours) ks, cd_want = ks\<rparr>),
       TextFrame (want_json L \<lparr>wm_type = ''want'', wm_ids = wanted\<rparr>)]
      @ map (\<lambda>e. TextFrame (envelope_json L e)) (map (message_of ours) to_client)
      @ [TextFrame (response_json L (complete a b))]"
  shows "\<exists>c'. receive_frames L nonces base chan identity c = (Inr (word_of_nat (length to_client)), c')
      \<and> log_rel L base chan (theirs @ map (message_of ours) to_client) (node c')
      \<and> outbox c' = outbox c
          @ chunk_batch_json L \<lparr>cb_type = ''chunk_ids'', cb_chunks = map (chunk_of L theirs) ks\<rparr>
          # map (\<lambda>i. envelope_json L (message_of theirs i)) wanted"
proof -
  let ?diff = "\<lparr>cd_type = ''chunk_diff'', cd_chunks = map (chunk_of L ours) ks, cd_want = ks\<rparr>"
  let ?want = "\<lparr>wm_type = ''want'', wm_ids = wanted\<rparr>"
  let ?batch = "chunk_batch_json L \<lparr>cb_type = ''chunk_ids'', cb_chunks = map (chunk_of L theirs) ks\<rparr>"
  let ?down = "map (message_of ours) to_client"
  let ?last = "[TextFrame (response_json L (complete a b))]"
  define tail where "tail = map (\<lambda>e. TextFrame (envelope_json L e)) ?down @ ?last"
  have ids: "distinct to_client" "set to_client = env_id ` set ours - env_id ` set theirs"
    "distinct wanted" "set wanted = env_id ` set theirs - env_id ` set ours"
    using missing_ids_exact [OF assms(2,4,6,5,7,8)] by (simp_all add: assms(9,10))
  have ours_wf: "log_wf L chan ours" using assms(6) by (simp add: log_rel_def)
  have sub: "set to_client \<subseteq> env_id ` set ours" using ids(2) by blast
  note down = picked_messages [OF ours_wf ids(1) sub]
  have few: "length wanted \<le> length theirs"
  proof -
    have "length wanted = card (set wanted)" using ids(3) by (simp add: distinct_card)
    also have "\<dots> \<le> card (env_id ` set theirs)" using ids(4) by (intro card_mono) auto
    also have "\<dots> \<le> length theirs" by (metis card_image_le card_length finite_set le_trans)
    finally show ?thesis .
  qed
  let ?c0 = "c\<lparr>inbox := TextFrame (want_json L ?want) # tail\<rparr>"
  obtain c1 where c1: "mapS (own_chunk L base chan) ks ?c0 = (Inr (map (chunk_of L theirs) ks), c1)"
    "log_rel L base chan theirs (node c1)" "inbox c1 = inbox ?c0" "outbox c1 = outbox c" "capacity c1 = capacity c"
    using own_chunks [OF assms(1,2), of base chan theirs ?c0 ks] assms(5) by auto
  have o1: "same_outside {index_path base chan} (node c) (node c1)"
    using own_chunks_outside [OF assms(1,2), of base chan theirs ?c0 ks] assms(5) c1(1) by simp
  let ?c2 = "c1\<lparr>outbox := outbox c1 @ [?batch], capacity := capacity c1 - 1\<rparr>"
  have f1: "handle_frame L (nonces k) base chan identity (chunk_diff_json L ?diff) ?c0 = (Inr Handled, ?c2)" for k
    using assms(3,11) c1(1,5)
    by (simp add: handle_frame_def dispatch_def frames_ok_def typed_def handle_chunk_diff_def send_def
        bindS_def okS_def)
  let ?c3 = "?c2\<lparr>inbox := tail\<rparr>"
  have "log_rel L base chan theirs (node ?c3)" "set wanted \<subseteq> env_id ` set theirs" "length wanted \<le> capacity ?c3"
    using c1(2,5) ids(4) few assms(11) by auto
  from send_messages_ok [OF assms(1,2) this] obtain c4 where c4:
    "send_messages L base chan wanted ?c3 = (Inr (), c4)" "log_rel L base chan theirs (node c4)"
    "same_outside {index_path base chan} (node c1) (node c4)" "inbox c4 = tail"
    "outbox c4 = outbox ?c2 @ map (\<lambda>i. envelope_json L (message_of theirs i)) wanted"
    by auto
  have f2: "handle_frame L (nonces k) base chan identity (want_json L ?want) ?c3 = (Inr Handled, c4)" for k
    using assms(3) c4(1)
    by (simp add: handle_frame_def dispatch_def frames_ok_def typed_def handle_want_def bindS_def okS_def)
  have auth: "authorize_append L base chan x (node c4) = authorize_append L base chan x (node c)" for x
    by (simp add: authorize_outside_index [OF o1] authorize_outside_index [OF c4(3)])
  have size: "length (log_bytes L (theirs @ ?down)) < 2 ^ 64"
  proof -
    have "distinct ours" using ours_wf by (auto simp: log_wf_def distinct_map)
    moreover have "set ?down \<subseteq> set ours" unfolding down(3) by blast
    ultimately have "length (log_bytes L ?down) \<le> length (log_bytes L ours)" using log_bytes_subset down(2) by blast
    then show ?thesis using assms(12) by (simp add: log_bytes_append)
  qed
  have good: "verify L e = Inr () \<and> env_channel e = full_name chan \<and> is_ok (authorize_append L base chan (env_from e) (node c4))"
    if "e \<in> set ?down" for e
    using down(4) [OF that] that assms(13) unfolding auth admits_def down(3) by blast
  have fresh: "distinct (map env_id ?down)" "env_id ` set ?down \<inter> env_id ` set theirs = {}"
    using ids(1) by (simp only: down(1), unfold down(3)) (use ids(2) in auto)
  obtain c5 where c5: "client_loop L nonces base chan identity 0 tail c4 =
      client_loop L nonces base chan identity (word_of_nat (length to_client)) ?last c5"
    "log_rel L base chan (theirs @ ?down) (node c5)" "outbox c5 = outbox c4"
    using client_envelopes [OF assms(1-3) c4(2) size fresh good, of nonces identity 0 ?last]
    unfolding tail_def by auto
  have f3: "client_loop L nonces base chan identity n ?last c5 = (Inr n, c5\<lparr>inbox := []\<rparr>)" for n
    using assms(3) by (simp add: handle_frame_def frames_ok_def okS_def complete_def)
  have inb: "inbox c = TextFrame (chunk_diff_json L ?diff) # TextFrame (want_json L ?want) # tail"
    unfolding assms(14) tail_def by (simp only: append_Cons append_Nil)
  have "receive_frames L nonces base chan identity c = client_loop L nonces base chan identity 0 tail c4"
    unfolding receive_frames_def inb using f1 f2 c1(3) by (simp add: Let_def)
  then show ?thesis using c5 f3 c4(5) c1(4) by simp
qed

lemma server_refuses:
  assumes "envelope_json_ok L" and "crypto_ok L" and "frames_ok L" and "hash_order_ok L"
    and "log_rel L base chan ours (node s)" and "log_rel L base' chan theirs n'"
    and "no_bucket_collision L (digests L ours) (digests L theirs)"
    and "st_chunks st = summaries_of L (digests L theirs)"
    and "ks = differing_chunks (summaries_of L (digests L ours)) (summaries_of L (digests L theirs))"
    and "\<not> few_differing L ours theirs" and "length ours + 3 \<le> capacity s"
  shows "\<exists>s'. serve_messages L base chan st
      (s\<lparr>inbox := TextFrame (chunk_batch_json L \<lparr>cb_type = ''chunk_ids'', cb_chunks = map (chunk_of L theirs) ks\<rparr>) # rest\<rparr>)
        = (Inl (Sync TooMany), s') \<and> log_rel L base chan ours (node s')"
proof -
  let ?text = "chunk_batch_json L \<lparr>cb_type = ''chunk_ids'', cb_chunks = map (chunk_of L theirs) ks\<rparr>"
  let ?s = "s\<lparr>inbox := TextFrame ?text # rest\<rparr>"
  have dec: "chunk_batch_of_json L ?text = Some \<lparr>cb_type = ''chunk_ids'', cb_chunks = map (chunk_of L theirs) ks\<rparr>"
    using assms(3) by (simp add: frames_ok_def)
  have start: "log_rel L base chan ours (node ?s)" "inbox ?s = TextFrame ?text # rest" "capacity ?s \<noteq> 0"
    using assms(5,11) by simp_all
  from exchange_inventory_honest [OF assms(1,2,4) start(1) assms(6-9) dec start(2,3)] assms(10)
  obtain s' where "exchange_inventory L base chan st ?s = (Inl (Sync TooMany), s')" "log_rel L base chan ours (node s')"
    by auto
  then show ?thesis by (simp add: serve_messages_def bindS_def [where m = "exchange_inventory L base chan st"])
qed

lemma both_complete:
  assumes "envelope_json_ok L" and "crypto_ok L" and "frames_ok L" and "hash_order_ok L"
    and "log_rel L base chan ours (node s)" and "log_rel L base' chan theirs (node c)"
    and "no_bucket_collision L (digests L ours) (digests L theirs)"
    and "st_chunks st = summaries_of L (digests L theirs)"
    and "few_differing L ours theirs"
    and "length ours + 3 \<le> capacity s" and "length theirs + 1 \<le> capacity c"
    and "length (log_bytes L (ours @ theirs)) < 2 ^ 64"
    and "admits L base chan theirs (node s)" and "admits L base' chan ours (node c)"
  shows "\<exists>from_server from_client up down s' c'.
    serve_messages L base chan st (s\<lparr>inbox := map TextFrame from_client\<rparr>) = (Inr (), s')
    \<and> outbox s' = outbox s @ from_server
    \<and> receive_frames L nonces base' chan identity (c\<lparr>inbox := map TextFrame from_server\<rparr>)
        = (Inr (word_of_nat (length down)), c')
    \<and> outbox c' = outbox c @ from_client
    \<and> log_rel L base chan (ours @ up) (node s') \<and> log_rel L base' chan (theirs @ down) (node c')
    \<and> set up = {e \<in> set theirs. env_id e \<notin> env_id ` set ours}
    \<and> set down = {e \<in> set ours. env_id e \<notin> env_id ` set theirs}"
proof -
  define ks where "ks = differing_chunks (summaries_of L (digests L ours)) (summaries_of L (digests L theirs))"
  define to_client where "to_client = missing_ids L ks ours theirs"
  define wanted where "wanted = missing_ids L ks theirs ours"
  let ?up = "map (message_of theirs) wanted" and ?down = "map (message_of ours) to_client"
  let ?batch = "chunk_batch_json L \<lparr>cb_type = ''chunk_ids'', cb_chunks = map (chunk_of L theirs) ks\<rparr>"
  let ?client = "?batch # map (\<lambda>i. envelope_json L (message_of theirs i)) wanted"
  let ?server = "[chunk_diff_json L \<lparr>cd_type = ''chunk_diff'', cd_chunks = map (chunk_of L ours) ks, cd_want = ks\<rparr>,
      want_json L \<lparr>wm_type = ''want'', wm_ids = wanted\<rparr>]
    @ map (\<lambda>i. envelope_json L (message_of ours i)) to_client
    @ [response_json L (complete (word_of_nat (length to_client)) (word_of_nat (length wanted)))]"
  have ids: "set to_client = env_id ` set ours - env_id ` set theirs" "distinct to_client"
    "set wanted = env_id ` set theirs - env_id ` set ours" "distinct wanted"
    using missing_ids_exact [OF assms(2,4-7) ks_def] by (simp_all add: to_client_def wanted_def)
  have batch: "chunk_batch_of_json L ?batch = Some \<lparr>cb_type = ''chunk_ids'', cb_chunks = map (chunk_of L theirs) ks\<rparr>"
    using assms(3) by (simp add: frames_ok_def)
  let ?s = "s\<lparr>inbox := map TextFrame ?client\<rparr>" and ?c = "c\<lparr>inbox := map TextFrame ?server\<rparr>"
  have s_in: "inbox ?s = TextFrame ?batch # map (\<lambda>e. TextFrame (envelope_json L e)) ?up" by simp
  obtain s' where s': "serve_messages L base chan st ?s = (Inr (), s')"
    "log_rel L base chan (ours @ ?up) (node s')" "outbox s' = outbox s @ ?server"
    using server_completes [OF assms(1,2,4) _ assms(6-8) ks_def to_client_def wanted_def batch assms(9) _ assms(12) _ s_in]
      assms(5,10,13) by auto
  have c_in: "inbox ?c =
      [TextFrame (chunk_diff_json L \<lparr>cd_type = ''chunk_diff'', cd_chunks = map (chunk_of L ours) ks, cd_want = ks\<rparr>),
       TextFrame (want_json L \<lparr>wm_type = ''want'', wm_ids = wanted\<rparr>)]
      @ map (\<lambda>e. TextFrame (envelope_json L e)) ?down
      @ [TextFrame (response_json L (complete (word_of_nat (length to_client)) (word_of_nat (length wanted))))]"
    by simp
  have size: "length (log_bytes L (theirs @ ours)) < 2 ^ 64" using assms(12) by (simp add: log_bytes_append)
  have prem: "log_rel L base' chan theirs (node ?c)" "length theirs + 1 \<le> capacity ?c"
    "admits L base' chan ours (node ?c)"
    using assms(6,11,14) by simp_all
  obtain c' where c': "receive_frames L nonces base' chan identity ?c = (Inr (word_of_nat (length to_client)), c')"
    "log_rel L base' chan (theirs @ ?down) (node c')" "outbox c' = outbox ?c @ ?client"
    using client_completes [OF assms(1-4) prem(1) assms(5,7) ks_def to_client_def wanted_def prem(2) size
        prem(3) c_in, of nonces identity]
    by (elim exE conjE) (rule that; assumption)
  have wf: "log_wf L chan ours" "log_wf L chan theirs" using assms(5,6) by (simp_all add: log_rel_def)
  have sets: "set ?up = {e \<in> set theirs. env_id e \<notin> env_id ` set ours}"
    "set ?down = {e \<in> set ours. env_id e \<notin> env_id ` set theirs}"
    using picked_messages(3) [OF wf(2) ids(4)] picked_messages(3) [OF wf(1) ids(2)] ids(1,3) by auto
  show ?thesis
  proof (intro exI conjI)
    show "serve_messages L base chan st ?s = (Inr (), s')" by (rule s'(1))
    show "outbox s' = outbox s @ ?server" by (rule s'(3))
    show "receive_frames L nonces base' chan identity ?c = (Inr (word_of_nat (length ?down)), c')"
      using c'(1) by (simp only: length_map)
    show "outbox c' = outbox c @ ?client" using c'(3) by simp
    show "log_rel L base chan (ours @ ?up) (node s')" by (rule s'(2))
    show "log_rel L base' chan (theirs @ ?down) (node c')" by (rule c'(2))
    show "set ?up = {e \<in> set theirs. env_id e \<notin> env_id ` set ours}" by (rule sets(1))
    show "set ?down = {e \<in> set ours. env_id e \<notin> env_id ` set theirs}" by (rule sets(2))
  qed
qed


end
