(* ===== verification/Discovery.thy ===== *)
theory Discovery
  imports Sync_Client
begin

text \<open>
  The HTTP side of a node, \<open>src/server.rs\<close>: the challenges it has issued and not yet seen used, the
  handlers of \<open>/challenge\<close> and \<open>/status\<close>, and the authentication of a discovery request. A handler holds
  the mutex around the table of challenges, so requests are the steps of a transition system. Shown:
  an issued nonce authenticates at most one request, the table stays bounded, and a requester sees
  only channels the policies let it read.
\<close>

section \<open>Handlers\<close>

record app_state =
  datadir :: string
  identity :: keypair
  discovery_challenges :: "(string, i64) table"

text \<open>The four headers of a status request, as the bytes received; \<open>header_str\<close> of \<open>server_lib\<close> is
  \<open>HeaderValue::to_str\<close>, which refuses what is not visible ASCII.\<close>

record headers =
  h_key :: "bytes option"
  h_timestamp :: "bytes option"
  h_signature :: "bytes option"
  h_nonce :: "bytes option"

record server_lib = sync_lib +
  header_str :: "bytes \<Rightarrow> string option"

datatype challenge_response =
    ChallengeIssued auth_challenge
  | ChallengeFailed error
  | TooManyRequests

datatype status_response =
    StatusOk "string list"
  | Unauthorized error

definition max_discovery_challenges :: nat where
  "max_discovery_challenges = 10000"

text \<open>\<open>HashMap::retain\<close>\<close>

definition retain_valid :: "i64 \<Rightarrow> (string, i64) table \<Rightarrow> (string, i64) table" where
  "retain_valid now t = filter (\<lambda>(_, expiry). sint now \<le> sint expiry) t"

definition challenge ::
  "'x crypto_lib_scheme \<Rightarrow> bytes \<Rightarrow> i64 \<Rightarrow> i64 \<Rightarrow> app_state \<Rightarrow> challenge_response \<times> app_state" where
  "challenge L raw made_at now st =
    (case make_auth_challenge L raw made_at (identity st) ''/status'' of
       Inl e \<Rightarrow> (ChallengeFailed e, st)
     | Inr ch \<Rightarrow>
         let kept = retain_valid now (discovery_challenges st) in
         if length kept \<ge> max_discovery_challenges
         then (TooManyRequests, st\<lparr>discovery_challenges := kept\<rparr>)
         else (ChallengeIssued ch, st\<lparr>discovery_challenges := tput (ac_nonce ch) (ac_expires ch) kept\<rparr>))"

definition required_header :: "'x server_lib_scheme \<Rightarrow> bytes option \<Rightarrow> string result" where
  "required_header L h =
    bindR (from_option (Auth MissingHeader) h) (\<lambda>v. from_option (Auth InvalidHeader) (header_str L v))"

text \<open>\<open>arrived\<close> and \<open>now\<close> are the two clock readings.\<close>

definition discovery_requester ::
  "'x server_lib_scheme \<Rightarrow> i64 \<Rightarrow> i64 \<Rightarrow> headers \<Rightarrow> app_state \<Rightarrow> string option result \<times> app_state" where
  "discovery_requester L arrived now h st =
    (if h_key h = None \<and> h_timestamp h = None \<and> h_signature h = None \<and> h_nonce h = None then (Inr None, st)
     else case
       bindR (required_header L (h_key h)) (\<lambda>key.
       bindR (bindR (required_header L (h_timestamp h)) (\<lambda>t. from_option (Auth InvalidHeader) (parse_i64 t))) (\<lambda>timestamp.
       bindR (required_header L (h_signature h)) (\<lambda>signature.
       bindR (required_header L (h_nonce h)) (\<lambda>nonce.
       bindR (guardR (\<not> stale arrived timestamp) (Auth Stale)) (\<lambda>_.
       bindR (from_option (Auth UnknownChallenge) (tget (discovery_challenges st) nonce)) (\<lambda>expires.
       bindR (guardR (sint now \<le> sint expires) (Auth ExpiredChallenge)) (\<lambda>_.
       bindR (verify_bytes L key signature
                (discovery_auth_payload timestamp nonce (public_key (identity st)))) (\<lambda>_.
       Inr (key, nonce)))))))))
     of
       Inl e \<Rightarrow> (Inl e, st)
     | Inr (key, nonce) \<Rightarrow>
         (Inr (Some key), st\<lparr>discovery_challenges := tdel nonce (discovery_challenges st)\<rparr>))"

definition status ::
  "'x server_lib_scheme \<Rightarrow> i64 \<Rightarrow> i64 \<Rightarrow> headers \<Rightarrow> node_fs \<Rightarrow> app_state \<Rightarrow> status_response \<times> app_state" where
  "status L arrived now h fs st =
    (case discovery_requester L arrived now h st of
       (Inl e, st') \<Rightarrow> (Unauthorized e, st')
     | (Inr requester, st') \<Rightarrow>
         (StatusOk (case list_readable_channels L (datadir st') requester fs of Inl _ \<Rightarrow> [] | Inr cs \<Rightarrow> cs), st'))"

definition router_with_identity :: "string \<Rightarrow> keypair \<Rightarrow> app_state" where
  "router_with_identity dir kp = \<lparr>datadir = dir, identity = kp, discovery_challenges = []\<rparr>"

section \<open>The server as a transition system\<close>

text \<open>What is observed of one request.\<close>

datatype event = Issued string | Authenticated string string | Other

inductive serves :: "'x server_lib_scheme \<Rightarrow> app_state \<Rightarrow> event list \<Rightarrow> app_state \<Rightarrow> bool"
  for L :: "'x server_lib_scheme" and st :: app_state
where
  start: "serves L st [] st"
| issue: "serves L st tr s \<Longrightarrow> challenge L raw made_at now s = (ChallengeIssued ch, s') \<Longrightarrow>
    serves L st (tr @ [Issued (ac_nonce ch)]) s'"
| refuse: "serves L st tr s \<Longrightarrow> challenge L raw made_at now s = (r, s') \<Longrightarrow> (\<And>ch. r \<noteq> ChallengeIssued ch) \<Longrightarrow>
    serves L st (tr @ [Other]) s'"
| authenticate: "serves L st tr s \<Longrightarrow> discovery_requester L arrived now h s = (Inr (Some key), s') \<Longrightarrow>
    required_header L (h_nonce h) = Inr nonce \<Longrightarrow> serves L st (tr @ [Authenticated key nonce]) s'"
| other: "serves L st tr s \<Longrightarrow> discovery_requester L arrived now h s = (r, s') \<Longrightarrow> (\<And>key. r \<noteq> Inr (Some key)) \<Longrightarrow>
    serves L st (tr @ [Other]) s'"

inductive_cases serves_startE: "serves L st [] s"

section \<open>Lemmas\<close>

lemma retain_valid_keys: "fst ` set (retain_valid now t) \<subseteq> fst ` set t"
  by (auto simp: retain_valid_def)

lemma retain_valid_sorted: "tsorted t \<Longrightarrow> tsorted (retain_valid now t)"
  by (simp add: tsorted_def retain_valid_def sorted_wrt_map sorted_wrt_filter)

lemma challenge_cases:
  assumes "challenge L raw made_at now s = (r, s')"
  shows "(\<exists>e. r = ChallengeFailed e \<and> s' = s)
    \<or> (r = TooManyRequests \<and> s' = s\<lparr>discovery_challenges := retain_valid now (discovery_challenges s)\<rparr>)
    \<or> (\<exists>ch. r = ChallengeIssued ch \<and> length (retain_valid now (discovery_challenges s)) < max_discovery_challenges
        \<and> make_auth_challenge L raw made_at (identity s) ''/status'' = Inr ch
        \<and> s' = s\<lparr>discovery_challenges := tput (ac_nonce ch) (ac_expires ch) (retain_valid now (discovery_challenges s))\<rparr>)"
  using assms by (auto simp: challenge_def Let_def split: sum.splits if_splits)

lemma requester_cases:
  assumes "discovery_requester L arrived now h s = (r, s')"
  shows "((\<forall>key. r \<noteq> Inr (Some key)) \<and> s' = s)
    \<or> (\<exists>key timestamp signature nonce expires. r = Inr (Some key) \<and> required_header L (h_nonce h) = Inr nonce
        \<and> \<not> stale arrived timestamp \<and> tget (discovery_challenges s) nonce = Some expires \<and> sint now \<le> sint expires
        \<and> verify_bytes L key signature (discovery_auth_payload timestamp nonce (public_key (identity s))) = Inr ()
        \<and> s' = s\<lparr>discovery_challenges := tdel nonce (discovery_challenges s)\<rparr>)"
  using assms
  by (auto simp: discovery_requester_def bindR_ok guardR_ok from_option_ok split: if_splits sum.splits prod.splits)

section \<open>Nonces are used once\<close>

definition times_issued :: "string \<Rightarrow> event list \<Rightarrow> nat" where
  "times_issued n tr = length (filter (\<lambda>e. e = Issued n) tr)"

definition times_used :: "string \<Rightarrow> event list \<Rightarrow> nat" where
  "times_used n tr = length (filter (\<lambda>e. case e of Authenticated _ m \<Rightarrow> m = n | _ \<Rightarrow> False) tr)"

lemma times_simps [simp]:
  "times_issued n [] = 0" "times_used n [] = 0"
  "times_issued n (tr @ [e]) = times_issued n tr + (if e = Issued n then 1 else 0)"
  "times_used n (tr @ [Issued m]) = times_used n tr"
  "times_used n (tr @ [Other]) = times_used n tr"
  "times_used n (tr @ [Authenticated k m]) = times_used n tr + (if m = n then 1 else 0)"
  by (simp_all add: times_issued_def times_used_def)

definition table_inv :: "event list \<Rightarrow> app_state \<Rightarrow> bool" where
  "table_inv tr s \<longleftrightarrow> tsorted (discovery_challenges s)
    \<and> length (discovery_challenges s) \<le> max_discovery_challenges
    \<and> (\<forall>n. times_used n tr + (if tget (discovery_challenges s) n = None then 0 else 1) \<le> times_issued n tr)"

lemma length_tput: "length (tput k v t) \<le> Suc (length t)"
  by (induction k v t rule: tput.induct) auto

lemma length_tdel: "length (tdel k t) \<le> length t"
  by (simp add: tdel_def)

lemma retain_valid_get:
  assumes "tsorted t" and "tget (retain_valid now t) n \<noteq> None"
  shows "tget t n \<noteq> None"
proof -
  obtain v where "(n, v) \<in> set (retain_valid now t)"
    using assms(2) tget_mem [OF retain_valid_sorted [OF assms(1)]] by auto
  then have "(n, v) \<in> set t" by (simp add: retain_valid_def)
  then show ?thesis using tget_mem [OF assms(1)] by auto
qed

lemma table_inv_challenge:
  assumes "table_inv tr s" and "challenge L raw made_at now s = (r, s')"
  shows "table_inv (tr @ [case r of ChallengeIssued ch \<Rightarrow> Issued (ac_nonce ch) | _ \<Rightarrow> Other]) s'"
proof -
  let ?t = "discovery_challenges s" and ?kept = "retain_valid now (discovery_challenges s)"
  have t: "tsorted ?t" "length ?t \<le> max_discovery_challenges"
    "\<And>n. times_used n tr + (if tget ?t n = None then 0 else 1) \<le> times_issued n tr"
    using assms(1) by (simp_all add: table_inv_def)
  have kept: "tsorted ?kept" "length ?kept \<le> max_discovery_challenges"
    using retain_valid_sorted [OF t(1)] le_trans [OF length_filter_le t(2)]
    by (simp, simp add: retain_valid_def)
  have inv: "times_used n tr + (if tget ?kept n = None then 0 else 1) \<le> times_issued n tr" for n
    using t(3) [of n] retain_valid_get [OF t(1), of now n] by (auto split: if_splits)
  have used: "times_used n tr \<le> times_issued n tr" for n using t(3) [of n] by simp
  show ?thesis
    using challenge_cases [OF assms(2)]
  proof (elim disjE exE conjE)
    fix e assume "r = ChallengeFailed e" "s' = s"
    then show ?thesis using assms(1) by (simp add: table_inv_def)
  next
    assume "r = TooManyRequests" "s' = s\<lparr>discovery_challenges := ?kept\<rparr>"
    then show ?thesis using kept inv by (simp add: table_inv_def)
  next
    fix ch assume ch: "r = ChallengeIssued ch" "length ?kept < max_discovery_challenges"
      "s' = s\<lparr>discovery_challenges := tput (ac_nonce ch) (ac_expires ch) ?kept\<rparr>"
    have "length (tput (ac_nonce ch) (ac_expires ch) ?kept) \<le> max_discovery_challenges"
      using length_tput [of "ac_nonce ch" "ac_expires ch" ?kept] ch(2) by simp
    then show ?thesis
      using ch kept(1) inv used by (auto simp: table_inv_def)
  qed
qed

lemma table_inv_requester:
  assumes "table_inv tr s" and "discovery_requester L arrived now h s = (r, s')"
  shows "(\<forall>key. r \<noteq> Inr (Some key)) \<Longrightarrow> table_inv (tr @ [Other]) s'"
    and "r = Inr (Some key) \<Longrightarrow> required_header L (h_nonce h) = Inr nonce \<Longrightarrow> table_inv (tr @ [Authenticated key nonce]) s'"
proof -
  let ?t = "discovery_challenges s"
  have t: "tsorted ?t" "length ?t \<le> max_discovery_challenges"
    "\<And>n. times_used n tr + (if tget ?t n = None then 0 else 1) \<le> times_issued n tr"
    using assms(1) by (simp_all add: table_inv_def)
  show "table_inv (tr @ [Other]) s'" if "\<forall>key. r \<noteq> Inr (Some key)"
    using requester_cases [OF assms(2)] that assms(1) by (auto simp: table_inv_def)
  show "table_inv (tr @ [Authenticated key nonce]) s'"
    if "r = Inr (Some key)" "required_header L (h_nonce h) = Inr nonce"
  proof -
    have n: "tget ?t nonce \<noteq> None" "s' = s\<lparr>discovery_challenges := tdel nonce ?t\<rparr>"
      using requester_cases [OF assms(2)] that by auto
    have "length (tdel nonce ?t) \<le> max_discovery_challenges" using length_tdel [of nonce ?t] t(2) by linarith
    moreover have "times_used m tr + (if m = nonce then 1 else 0) + (if tget (tdel nonce ?t) m = None then 0 else 1)
        \<le> times_issued m tr" for m
      using t(3) [of m] n(1) by (auto split: if_splits)
    moreover have "times_used m (tr @ [Authenticated key nonce]) = times_used m tr + (if m = nonce then 1 else 0)" for m
      by (simp add: eq_commute)
    ultimately show ?thesis using n(2) t(1) unfolding table_inv_def by simp
  qed
qed

lemma serves_inv: "serves L st tr s \<Longrightarrow> table_inv [] st \<Longrightarrow> table_inv tr s"
proof (induction rule: serves.induct)
  case start
  then show ?case .
next
  case (issue tr s raw made_at now ch s')
  then show ?case using table_inv_challenge [of tr s L raw made_at now "ChallengeIssued ch" s'] by simp
next
  case (refuse tr s raw made_at now r s')
  then show ?case using table_inv_challenge [of tr s L raw made_at now r s'] by (cases r) auto
next
  case (authenticate tr s arrived now h key s' nonce)
  then show ?case using table_inv_requester(2) by blast
next
  case (other tr s arrived now h r s')
  then show ?case using table_inv_requester(1) by blast
qed

text \<open>C5. In every run of the server from its start, a nonce authenticates at most as many requests as it was
  issued, hence at most one if the random source does not repeat it; and never more than ten thousand
  challenges are outstanding, however many are asked for.\<close>

theorem discovery_nonce_used_once:
  assumes "serves L (router_with_identity dir kp) tr s"
  shows "times_used n tr \<le> times_issued n tr \<and> length (discovery_challenges s) \<le> max_discovery_challenges"
proof -
  have "table_inv [] (router_with_identity dir kp)"
    by (simp add: table_inv_def router_with_identity_def)
  then have "table_inv tr s" using serves_inv [OF assms] by blast
  then show ?thesis unfolding table_inv_def by (metis add_leD1)
qed

section \<open>What a requester sees\<close>

lemma readable_channels_ok:
  "readable_channels L base key fs names = Inr cs \<Longrightarrow> c \<in> set cs \<Longrightarrow>
    c \<in> set names \<and> (\<exists>chan p. parse_channel c = Inr chan \<and> read_channel_policy L base chan fs = Inr p
      \<and> (case key of None \<Rightarrow> visibility p = Public | Some k \<Rightarrow> policy_allows_read p k))"
proof (induction names arbitrary: cs)
  case Nil
  then show ?case by simp
next
  case (Cons name names)
  then show ?case by (auto simp: bindR_ok split: if_splits)
qed

text \<open>The channels a status answer names are ones the requester may read: without authentication only
  public channels; with it, the requester has signed an outstanding nonce of this server with its own key
  at a current time, that nonce is spent, and the policy of each named channel lets that key read.\<close>

theorem status_lists_readable_only:
  assumes "status L arrived now h fs st = (StatusOk cs, st')"
  shows "(st' = st \<and> (\<forall>c \<in> set cs. \<exists>chan p. parse_channel c = Inr chan
        \<and> read_channel_policy L (datadir st) chan fs = Inr p \<and> visibility p = Public))
    \<or> (\<exists>key timestamp signature nonce expires. tget (discovery_challenges st) nonce = Some expires
        \<and> \<not> stale arrived timestamp \<and> sint now \<le> sint expires
        \<and> verify_bytes L key signature (discovery_auth_payload timestamp nonce (public_key (identity st))) = Inr ()
        \<and> tget (discovery_challenges st') nonce = None
        \<and> (\<forall>c \<in> set cs. \<exists>chan p. parse_channel c = Inr chan
            \<and> read_channel_policy L (datadir st) chan fs = Inr p \<and> policy_allows_read p key))"
proof -
  obtain requester where rq: "discovery_requester L arrived now h st = (Inr requester, st')"
    and cs: "cs = (case list_readable_channels L (datadir st') requester fs of Inl _ \<Rightarrow> [] | Inr xs \<Rightarrow> xs)"
    using assms by (auto simp: status_def split: prod.splits sum.splits)
  have dir: "datadir st' = datadir st" using requester_cases [OF rq] by auto
  have each: "\<exists>chan p. parse_channel c = Inr chan \<and> read_channel_policy L (datadir st) chan fs = Inr p
      \<and> (case requester of None \<Rightarrow> visibility p = Public | Some k \<Rightarrow> policy_allows_read p k)" if "c \<in> set cs" for c
    using that cs readable_channels_ok [of L "datadir st" requester fs "list_channels (datadir st) fs" _ c]
    by (auto simp: dir list_readable_channels_def split: sum.splits)
  show ?thesis
  proof (cases requester)
    case None
    then have "st' = st" using requester_cases [OF rq] by auto
    then show ?thesis using each None by auto
  next
    case (Some key)
    then obtain timestamp signature nonce expires where auth:
      "tget (discovery_challenges st) nonce = Some expires" "\<not> stale arrived timestamp" "sint now \<le> sint expires"
      "verify_bytes L key signature (discovery_auth_payload timestamp nonce (public_key (identity st))) = Inr ()"
      "st' = st\<lparr>discovery_challenges := tdel nonce (discovery_challenges st)\<rparr>"
      using requester_cases [OF rq] by auto
    have "tget (discovery_challenges st') nonce = None" using auth(5) by simp
    moreover have "\<forall>c \<in> set cs. \<exists>chan p. parse_channel c = Inr chan
        \<and> read_channel_policy L (datadir st) chan fs = Inr p \<and> policy_allows_read p key"
      using each Some by simp
    ultimately show ?thesis using auth(1-4) by blast
  qed
qed

section \<open>The handshake\<close>

definition header_ok :: "'x server_lib_scheme \<Rightarrow> bool" where
  "header_ok L \<longleftrightarrow> (\<forall>s. list_all printable (as_bytes s) \<longrightarrow> header_str L (as_bytes s) = Some s)"

text \<open>The headers the client sets for a status request.\<close>

definition headers_of :: "status_request \<Rightarrow> headers" where
  "headers_of rq = \<lparr>h_key = Some (as_bytes (rq_key rq)), h_timestamp = Some (as_bytes (rq_timestamp rq)),
     h_signature = Some (as_bytes (rq_signature rq)), h_nonce = Some (as_bytes (rq_nonce rq))\<rparr>"

lemma printable_hex: "hex_alphabet L \<Longrightarrow> list_all printable (as_bytes (hex_encode L bs))"
proof -
  assume "hex_alphabet L"
  then have "list_all (\<lambda>c. c \<in> set hex_chars) (hex_encode L bs)" by (simp add: hex_alphabet_def)
  moreover have "\<forall>c \<in> set hex_chars. hex_digit c"
    by (simp add: hex_chars_def hex_digit_def less_eq_char_def)
  ultimately have "list_all hex_digit (hex_encode L bs)" by (auto simp: list_all_iff)
  then show ?thesis by (rule hex_digits_printable)
qed

lemma printable_digit: "undigit c \<noteq> None \<Longrightarrow> hex_digit c"
  by (auto simp: undigit_def hex_digit_def less_eq_char_def Let_def split: if_splits)

lemma printable_i64: "list_all printable (as_bytes (show_i64 w))"
proof -
  have n: "list_all printable (as_bytes (show_nat n))" for n
    using show_nat_digits printable_digit by (intro hex_digits_printable) (auto simp: list_all_iff)
  have "printable (word_of_nat (of_char (CHR ''-'')))" by (simp add: printable_def word_le_nat_alt)
  then show ?thesis using n by (simp add: show_i64_def as_bytes_def)
qed

lemma handshake_steps:
  assumes "crypto_ok L" and "hex_alphabet L" and "header_ok L"
    and "length ssk = 32" and "length csk = 32" and "length raw = 32"
    and "identity st = generate L ssk a" and "client = generate L csk b"
    and "challenge L raw made_at now st = (ChallengeIssued ch, st1)"
    and "0 \<le> sint made_at" and "sint made_at < 2 ^ 62"
    and "sint made_at \<le> sint seen" and "sint seen \<le> sint made_at + 60"
    and "\<not> stale arrived timestamp" and "sint checked \<le> sint (ac_expires ch)"
  shows "verify_auth_challenge L seen ch ''/status'' (Some (public_key (identity st))) = Inr ()
    \<and> (\<exists>rq st2. status_request_for L timestamp client ch url = Inr rq
      \<and> discovery_requester L arrived checked (headers_of rq) st1 = (Inr (Some (public_key client)), st2)
      \<and> tget (discovery_challenges st2) (ac_nonce ch) = None)"
proof -
  have hex: "hex_ok L" using assms(1) by (simp add: crypto_ok_def)
  let ?server = "public_key (identity st)" and ?kept = "retain_valid now (discovery_challenges st)"
  let ?p = "responder_challenge_payload ''/status'' (hex_encode L raw) ?server (made_at + 60)"
  obtain sig where sig: "sign_bytes L (identity st) ?p = Inr sig" "verify_bytes L ?server sig ?p = Inr ()"
    using sign_bytes_verifies [OF assms(1,4), of a ?p] by (auto simp: assms(7))
  have made: "make_auth_challenge L raw made_at (identity st) ''/status'' = Inr ch"
    and st1: "st1 = st\<lparr>discovery_challenges := tput (ac_nonce ch) (ac_expires ch) ?kept\<rparr>"
    using challenge_cases [OF assms(9)] by auto
  have ch: "ac_type ch = ''challenge''" "ac_nonce ch = hex_encode L raw" "ac_responder ch = ?server"
    "ac_expires ch = made_at + 60" "ac_sig ch = sig"
    using made sig(1) by (auto simp: make_auth_challenge_def Let_def)
  have e: "sint (made_at + 60) = sint made_at + 60" using assms(10,11) by (intro sint_add_60) simp_all
  have e2: "sint seen + 60 = sint (seen + 60)" using assms(10-13) by (intro sint_add_60 [symmetric]) simp_all
  have "verify_auth_challenge L seen ch ''/status'' (Some ?server) = Inr ()"
    using ch sig(2) assms(6,12,13) hex e e2 by (simp add: verify_auth_challenge_def hex_array_encode)
  moreover
  let ?q = "discovery_auth_payload timestamp (hex_encode L raw) ?server"
  obtain csig bs where csig: "sign_bytes L client ?q = Inr csig" "verify_bytes L (public_key client) csig ?q = Inr ()"
    "csig = hex_encode L bs"
    using sign_bytes_verifies [OF assms(1,5), of b ?q] by (auto simp: assms(8))
  let ?rq = "\<lparr>rq_url = url, rq_key = public_key client, rq_timestamp = show_i64 timestamp,
    rq_signature = csig, rq_nonce = hex_encode L raw\<rparr>"
  have rq: "status_request_for L timestamp client ch url = Inr ?rq"
    using csig(1) ch by (simp add: status_request_for_def)
  have hs: "header_str L (as_bytes (show_i64 timestamp)) = Some (show_i64 timestamp)"
    "header_str L (as_bytes (hex_encode L x)) = Some (hex_encode L x)" for x
    using assms(2,3) by (simp_all add: header_ok_def printable_i64 printable_hex)
  have "header_str L (as_bytes (public_key client)) = Some (public_key client)"
    using hs(2) by (simp add: assms(8) generate_def)
  then have "discovery_requester L arrived checked (headers_of ?rq) st1 =
      (Inr (Some (public_key client)), st1\<lparr>discovery_challenges := tdel (hex_encode L raw) (discovery_challenges st1)\<rparr>)"
    using assms(14,15) csig hs ch st1
    by (simp add: discovery_requester_def headers_of_def required_header_def parse_show_i64)
  ultimately show ?thesis using rq ch(2) by auto
qed

text \<open>The discovery handshake completes: a challenge the server has issued passes the client's check of
  the server's key, and the request the client then signs is accepted under the client's key and spends
  the nonce, as long as clocks agree within a minute and the challenge has not expired.\<close>

theorem discovery_handshake_completes:
  assumes "crypto_ok L" and "hex_alphabet L" and "header_ok L"
    and "length ssk = 32" and "length csk = 32" and "length raw = 32"
    and "identity st = generate L ssk a" and "client = generate L csk b"
    and "challenge L raw made_at now st = (ChallengeIssued ch, st1)"
    and "0 \<le> sint made_at" and "sint made_at < 2 ^ 62"
    and "sint made_at \<le> sint seen" and "sint seen \<le> sint made_at + 60"
    and "\<not> stale arrived timestamp" and "sint checked \<le> sint (ac_expires ch)"
  shows "verify_auth_challenge L seen ch ''/status'' (Some (public_key (identity st))) = Inr ()
    \<and> (\<exists>rq st2. status_request_for L timestamp client ch url = Inr rq
      \<and> discovery_requester L arrived checked (headers_of rq) st1 = (Inr (Some (public_key client)), st2)
      \<and> tget (discovery_challenges st2) (ac_nonce ch) = None)"
  by (rule handshake_steps [OF assms])

end
