(* ===== verification/Reference_Codecs.thy ===== *)
theory Reference_Codecs
  imports Sexp_Codec Sync_Convergence Discovery Policy_Conflicts
begin

text \<open>
  Codecs of all data the program serialises, built from the combinators of \<open>Sexp_Codec\<close>; each reads
  back what it writes.
\<close>

section \<open>Codecs of the program's data\<close>

definition u32_c :: "u32 codec" where
  "u32_c = map_c ucast (\<lambda>w. Some (ucast w)) word_c"

definition enum_c :: "'a list \<Rightarrow> ('a \<Rightarrow> string) \<Rightarrow> 'a codec" where
  "enum_c xs name = map_c name (\<lambda>s. List.find (\<lambda>x. name x = s) xs) string_c"

definition kind_c :: "msg_type codec" where
  "kind_c = enum_c [Post, Reply, Vote, Mod]
    (\<lambda>k. case k of Post \<Rightarrow> ''post'' | Reply \<Rightarrow> ''reply'' | Vote \<Rightarrow> ''vote'' | Mod \<Rightarrow> ''mod'')"

definition body_c :: "body codec" where
  "body_c = map_c
    (\<lambda>b. case b of Text t \<Rightarrow> [t] | Encrypted k n c \<Rightarrow> [k, n, c])
    (\<lambda>xs. case xs of [t] \<Rightarrow> Some (Text t) | [k, n, c] \<Rightarrow> Some (Encrypted k n c) | _ \<Rightarrow> None)
    (list_c string_c)"

definition message_c :: "message codec" where
  "message_c = map_c
    (\<lambda>m. (msg_ts m, msg_kind m, msg_title m, msg_tags m, msg_refs m, msg_body m))
    (\<lambda>(t, k, i, g, r, b). Some \<lparr>msg_ts = t, msg_kind = k, msg_title = i, msg_tags = g,
       msg_refs = r, msg_body = b\<rparr>)
    (pair_c word_c (pair_c kind_c (pair_c (option_c string_c)
      (pair_c (list_c string_c) (pair_c (list_c string_c) body_c)))))"

definition envelope_c :: "envelope codec" where
  "envelope_c = map_c
    (\<lambda>e. (env_id e, env_channel e, env_from e, env_from_alias e, env_ts e, env_sig e, env_msg e))
    (\<lambda>(i, c, f, a, t, g, m). Some \<lparr>env_id = i, env_channel = c, env_from = f, env_from_alias = a,
       env_ts = t, env_sig = g, env_msg = m\<rparr>)
    (pair_c string_c (pair_c string_c (pair_c string_c (pair_c (option_c string_c)
      (pair_c word_c (pair_c string_c message_c))))))"

definition keypair_c :: "keypair codec" where
  "keypair_c = map_c (\<lambda>k. (key_alias k, public_key k, secret_key k))
    (\<lambda>(a, p, q). Some \<lparr>key_alias = a, public_key = p, secret_key = q\<rparr>)
    (pair_c (option_c string_c) (pair_c string_c string_c))"

definition channel_key_c :: "channel_key codec" where
  "channel_key_c = map_c (\<lambda>k. (ck_id k, ck_key k)) (\<lambda>(i, k). Some \<lparr>ck_id = i, ck_key = k\<rparr>)
    (pair_c string_c string_c)"

definition offer_payload_c :: "key_offer_payload codec" where
  "offer_payload_c = map_c
    (\<lambda>p. [kp_channel p, kp_key_id p, kp_sender p, kp_recipient p, kp_nonce p, kp_ciphertext p])
    (\<lambda>xs. case xs of
       [c, k, s, r, n, x] \<Rightarrow> Some \<lparr>kp_channel = c, kp_key_id = k, kp_sender = s, kp_recipient = r,
         kp_nonce = n, kp_ciphertext = x\<rparr>
     | _ \<Rightarrow> None)
    (list_c string_c)"

definition mode_c :: "policy_mode codec" where
  "mode_c = enum_c [Open, Restricted] (\<lambda>m. case m of Open \<Rightarrow> ''open'' | Restricted \<Rightarrow> ''restricted'')"

definition visibility_c :: "channel_visibility codec" where
  "visibility_c = enum_c [Public, Private]
    (\<lambda>v. case v of Public \<Rightarrow> ''public'' | Private \<Rightarrow> ''private'')"

definition role_c :: "policy_role codec" where
  "role_c = enum_c [Moderator, Writer, Reader]
    (\<lambda>r. case r of Moderator \<Rightarrow> ''moderator'' | Writer \<Rightarrow> ''writer'' | Reader \<Rightarrow> ''reader'')"

definition policy_c :: "channel_policy codec" where
  "policy_c = map_c
    (\<lambda>p. (version p, mode p, visibility p, owner p, moderators p, writers p, readers p))
    (\<lambda>(v, m, s, ow, ms, ws, rs). Some \<lparr>version = v, mode = m, visibility = s, owner = ow,
       moderators = ms, writers = ws, readers = rs\<rparr>)
    (pair_c u32_c (pair_c mode_c (pair_c visibility_c (pair_c (option_c string_c)
      (pair_c (list_c string_c) (pair_c (list_c string_c) (list_c string_c)))))))"

fun action_to :: "policy_action \<Rightarrow> string \<times> channel_policy option \<times> policy_role \<times> channel_visibility \<times> string"
where
  "action_to (Restrict k) = (''restrict'', None, Reader, Public, k)"
| "action_to (Adopt p) = (''adopt'', Some p, Reader, Public, [])"
| "action_to (Grant r k) = (''grant'', None, r, Public, k)"
| "action_to (Revoke r k) = (''revoke'', None, r, Public, k)"
| "action_to (TransferOwner k) = (''transfer'', None, Reader, Public, k)"
| "action_to (SetVisibility v) = (''visibility'', None, Reader, v, [])"

definition action_from ::
  "string \<times> channel_policy option \<times> policy_role \<times> channel_visibility \<times> string \<Rightarrow> policy_action option"
where
  "action_from = (\<lambda>(t, p, r, v, k).
    if t = ''restrict'' then Some (Restrict k)
    else if t = ''adopt'' then map_option Adopt p
    else if t = ''grant'' then Some (Grant r k)
    else if t = ''revoke'' then Some (Revoke r k)
    else if t = ''transfer'' then Some (TransferOwner k)
    else if t = ''visibility'' then Some (SetVisibility v)
    else None)"

definition action_c :: "policy_action codec" where
  "action_c = map_c action_to action_from
    (pair_c string_c (pair_c (option_c policy_c) (pair_c role_c (pair_c visibility_c string_c))))"

definition policy_payload_c :: "policy_payload codec" where
  "policy_payload_c = map_c
    (\<lambda>p. (pp_channel p, pp_actor p, pp_ts p, pp_previous p, pp_action p))
    (\<lambda>(c, a, t, q, x). Some \<lparr>pp_channel = c, pp_actor = a, pp_ts = t, pp_previous = q, pp_action = x\<rparr>)
    (pair_c string_c (pair_c string_c (pair_c word_c (pair_c (option_c string_c) action_c))))"

definition policy_event_c :: "policy_event codec" where
  "policy_event_c = map_c
    (\<lambda>e. (pe_id e, pe_channel e, pe_actor e, pe_ts e, pe_previous e, pe_action e, pe_sig e))
    (\<lambda>(i, c, a, t, q, x, g). Some \<lparr>pe_id = i, pe_channel = c, pe_actor = a, pe_ts = t,
       pe_previous = q, pe_action = x, pe_sig = g\<rparr>)
    (pair_c string_c (pair_c string_c (pair_c string_c (pair_c word_c
      (pair_c (option_c string_c) (pair_c action_c string_c))))))"

definition moderation_action_c :: "moderation_action codec" where
  "moderation_action_c = map_c
    (\<lambda>a. case a of Tombstone t r \<Rightarrow> (t, [r]) | Restore t \<Rightarrow> (t, []))
    (\<lambda>(t, rs). case rs of [] \<Rightarrow> Some (Restore t) | r # _ \<Rightarrow> Some (Tombstone t r))
    (pair_c string_c (list_c (option_c string_c)))"

definition moderation_payload_c :: "moderation_payload codec" where
  "moderation_payload_c = map_c
    (\<lambda>p. (mp_channel p, mp_actor p, mp_ts p, mp_previous p, mp_policy_head p, mp_action p))
    (\<lambda>(c, a, t, q, h, x). Some \<lparr>mp_channel = c, mp_actor = a, mp_ts = t, mp_previous = q,
       mp_policy_head = h, mp_action = x\<rparr>)
    (pair_c string_c (pair_c string_c (pair_c word_c (pair_c (option_c string_c)
      (pair_c string_c moderation_action_c)))))"

definition moderation_event_c :: "moderation_event codec" where
  "moderation_event_c = map_c
    (\<lambda>e. (me_id e, me_channel e, me_actor e, me_ts e, me_previous e, me_policy_head e, me_action e, me_sig e))
    (\<lambda>(i, c, a, t, q, h, x, g). Some \<lparr>me_id = i, me_channel = c, me_actor = a, me_ts = t,
       me_previous = q, me_policy_head = h, me_action = x, me_sig = g\<rparr>)
    (pair_c string_c (pair_c string_c (pair_c string_c (pair_c word_c
      (pair_c (option_c string_c) (pair_c string_c (pair_c moderation_action_c string_c)))))))"

definition moderation_state_c :: "moderation_state codec" where
  "moderation_state_c = list_c (pair_c string_c (option_c string_c))"

lemma codec_u32 [codec_intros]: "codec_ok u32_c"
proof -
  have "ucast (ucast w :: u64) = w" for w :: u32
    by (rule bit_word_eqI) (simp add: bit_simps)
  then show ?thesis
    unfolding u32_c_def by (intro codec_intros) simp
qed

lemma codec_enum [codec_intros]:
  "(\<And>x. List.find (\<lambda>y. name y = name x) xs = Some x) \<Longrightarrow> codec_ok (enum_c xs name)"
  unfolding enum_c_def by (intro codec_intros)

lemma codec_enums [codec_intros]:
  "codec_ok kind_c" "codec_ok mode_c" "codec_ok visibility_c" "codec_ok role_c"
  unfolding kind_c_def mode_c_def visibility_c_def role_c_def
  by (rule codec_intros, case_tac x; simp)+

lemma codec_body [codec_intros]: "codec_ok body_c"
  unfolding body_c_def by (intro codec_intros) (simp split: body.split)

lemma codec_message [codec_intros]: "codec_ok message_c"
  unfolding message_c_def by (intro codec_intros) simp

lemma codec_envelope [codec_intros]: "codec_ok envelope_c"
  unfolding envelope_c_def by (intro codec_intros) simp

lemma codec_keypair [codec_intros]: "codec_ok keypair_c"
  unfolding keypair_c_def by (intro codec_intros) simp

lemma codec_channel_key [codec_intros]: "codec_ok channel_key_c"
  unfolding channel_key_c_def by (intro codec_intros) simp

lemma codec_offer_payload [codec_intros]: "codec_ok offer_payload_c"
  unfolding offer_payload_c_def by (intro codec_intros) simp

lemma codec_policy [codec_intros]: "codec_ok policy_c"
  unfolding policy_c_def by (intro codec_intros) simp

lemma action_from_to: "action_from (action_to a) = Some a"
  by (cases a) (simp_all add: action_from_def)

lemma codec_action [codec_intros]: "codec_ok action_c"
  unfolding action_c_def by (intro codec_intros) (rule action_from_to)

lemma codec_policy_payload [codec_intros]: "codec_ok policy_payload_c"
  unfolding policy_payload_c_def by (intro codec_intros) simp

lemma codec_policy_event [codec_intros]: "codec_ok policy_event_c"
  unfolding policy_event_c_def by (intro codec_intros) simp

lemma codec_moderation_action [codec_intros]: "codec_ok moderation_action_c"
  unfolding moderation_action_c_def by (intro codec_intros) (simp split: moderation_action.split)

lemma codec_moderation_event [codec_intros]: "codec_ok moderation_event_c"
  unfolding moderation_event_c_def by (intro codec_intros) simp

section \<open>Codecs of the frames and of the peers file\<close>

text \<open>Frames carry their kind in front, in a place where an envelope has a name, so that no frame reads as
  another kind or as an envelope.\<close>

definition tagged :: "string \<Rightarrow> 'a codec \<Rightarrow> 'a codec" where
  "tagged t c = map_c (\<lambda>x. ((t, []), x)) (\<lambda>((u, v), x). if u = t then Some x else None)
    (pair_c (pair_c string_c string_c) c)"

definition bool_c :: "bool codec" where
  "bool_c = enum_c [True, False] (\<lambda>b. if b then ''true'' else ''false'')"

definition challenge_c :: "auth_challenge codec" where
  "challenge_c = map_c (\<lambda>c. (ac_type c, ac_nonce c, ac_responder c, ac_expires c, ac_sig c))
    (\<lambda>(t, n, r, e, g). Some \<lparr>ac_type = t, ac_nonce = n, ac_responder = r, ac_expires = e, ac_sig = g\<rparr>)
    (pair_c string_c (pair_c string_c (pair_c string_c (pair_c word_c string_c))))"

definition peer_status_c :: "peer_status codec" where
  "peer_status_c = map_c (\<lambda>p. (ps_ok p, ps_channels p)) (\<lambda>(k, cs). Some \<lparr>ps_ok = k, ps_channels = cs\<rparr>)
    (pair_c bool_c (list_c string_c))"

definition chunk_summary_c :: "chunk_summary codec" where
  "chunk_summary_c = map_c (\<lambda>c. (cs_index c, cs_count c, cs_hash c))
    (\<lambda>(i, n, h). Some \<lparr>cs_index = i, cs_count = n, cs_hash = h\<rparr>)
    (pair_c word_c (pair_c word_c string_c))"

definition status_c :: "status_message codec" where
  "status_c = map_c
    (\<lambda>m. (st_type m, st_version m, st_channel m, st_requester m, st_auth_ts m, st_auth_sig m,
      st_policy m, st_moderation m, st_chunks m))
    (\<lambda>(t, v, c, r, a, g, p, m, x). Some \<lparr>st_type = t, st_version = v, st_channel = c, st_requester = r,
      st_auth_ts = a, st_auth_sig = g, st_policy = p, st_moderation = m, st_chunks = x\<rparr>)
    (pair_c string_c (pair_c u32_c (pair_c string_c (pair_c string_c (pair_c word_c (pair_c string_c
      (pair_c (list_c policy_event_c) (pair_c (list_c moderation_event_c) (list_c chunk_summary_c)))))))))"

definition policy_sync_c :: "policy_sync codec" where
  "policy_sync_c = map_c (\<lambda>p. (py_type p, py_status p, py_events p))
    (\<lambda>(t, s, es). Some \<lparr>py_type = t, py_status = s, py_events = es\<rparr>)
    (pair_c string_c (pair_c string_c (list_c policy_event_c)))"

definition moderation_sync_c :: "moderation_sync codec" where
  "moderation_sync_c = map_c (\<lambda>p. (my_type p, my_status p, my_events p))
    (\<lambda>(t, s, es). Some \<lparr>my_type = t, my_status = s, my_events = es\<rparr>)
    (pair_c string_c (pair_c string_c (list_c moderation_event_c)))"

definition key_offer_c :: "key_offer codec" where
  "key_offer_c = map_c
    (\<lambda>k. [ko_channel k, ko_key_id k, ko_sender k, ko_recipient k, ko_nonce k, ko_ciphertext k, ko_sig k])
    (\<lambda>xs. case xs of
       [c, k, s, r, n, x, g] \<Rightarrow> Some \<lparr>ko_channel = c, ko_key_id = k, ko_sender = s, ko_recipient = r,
         ko_nonce = n, ko_ciphertext = x, ko_sig = g\<rparr>
     | _ \<Rightarrow> None)
    (list_c string_c)"

definition key_sync_c :: "key_sync codec" where
  "key_sync_c = map_c (\<lambda>k. (ks_type k, ks_identity k, ks_offers k))
    (\<lambda>(t, i, os). Some \<lparr>ks_type = t, ks_identity = i, ks_offers = os\<rparr>)
    (pair_c string_c (pair_c string_c (list_c key_offer_c)))"

definition chunk_list_c :: "chunk_list codec" where
  "chunk_list_c = map_c (\<lambda>c. (cl_index c, cl_ids c)) (\<lambda>(i, ids). Some \<lparr>cl_index = i, cl_ids = ids\<rparr>)
    (pair_c word_c (list_c string_c))"

definition chunk_diff_c :: "chunk_diff codec" where
  "chunk_diff_c = map_c (\<lambda>d. (cd_type d, cd_chunks d, cd_want d))
    (\<lambda>(t, cs, w). Some \<lparr>cd_type = t, cd_chunks = cs, cd_want = w\<rparr>)
    (pair_c string_c (pair_c (list_c chunk_list_c) (list_c word_c)))"

definition chunk_batch_c :: "chunk_batch codec" where
  "chunk_batch_c = map_c (\<lambda>b. (cb_type b, cb_chunks b)) (\<lambda>(t, cs). Some \<lparr>cb_type = t, cb_chunks = cs\<rparr>)
    (pair_c string_c (list_c chunk_list_c))"

definition want_c :: "want_message codec" where
  "want_c = map_c (\<lambda>w. (wm_type w, wm_ids w)) (\<lambda>(t, ids). Some \<lparr>wm_type = t, wm_ids = ids\<rparr>)
    (pair_c string_c (list_c string_c))"

definition response_c :: "sync_response codec" where
  "response_c = map_c (\<lambda>r. (sr_type r, sr_status r, sr_sent r, sr_received r, sr_error r))
    (\<lambda>(t, s, a, b, e). Some \<lparr>sr_type = t, sr_status = s, sr_sent = a, sr_received = b, sr_error = e\<rparr>)
    (pair_c string_c (pair_c string_c (pair_c (option_c word_c) (pair_c (option_c word_c) (option_c string_c)))))"

definition url_c :: "url codec" where
  "url_c = map_c
    (\<lambda>u. (url_scheme u, url_host u, url_authority u, url_path u, url_query u, url_fragment u))
    (\<lambda>(s, h, a, p, q, f). Some \<lparr>url_scheme = s, url_host = h, url_authority = a, url_path = p,
       url_query = q, url_fragment = f\<rparr>)
    (pair_c string_c (pair_c (option_c string_c) (pair_c string_c (pair_c string_c
      (pair_c (option_c string_c) (option_c string_c))))))"

definition peer_record_c :: "peer_record codec" where
  "peer_record_c = map_c (\<lambda>r. (peer_url r, peer_key r)) (\<lambda>(u, k). Some \<lparr>peer_url = u, peer_key = k\<rparr>)
    (pair_c string_c (option_c string_c))"

definition stored_peer_c :: "stored_peer codec" where
  "stored_peer_c = map_c
    (\<lambda>s. case s of Legacy u \<Rightarrow> (u, []) | Record r \<Rightarrow> ([], [r]))
    (\<lambda>(u, rs). case rs of [] \<Rightarrow> Some (Legacy u) | r # _ \<Rightarrow> Some (Record r))
    (pair_c string_c (list_c peer_record_c))"

definition peer_config_c :: "peer_config codec" where
  "peer_config_c = map_c (\<lambda>c. (pc_version c, pc_peers c)) (\<lambda>(v, ps). Some \<lparr>pc_version = v, pc_peers = ps\<rparr>)
    (pair_c u32_c (list_c stored_peer_c))"

text \<open>A JSON reader skips the line break at the end of a file.\<close>

definition get_line :: "'a codec \<Rightarrow> bytes \<Rightarrow> 'a option" where
  "get_line c bs = get c (if bs \<noteq> [] \<and> last bs = 10 then butlast bs else bs)"

lemma codec_tagged [codec_intros]: "codec_ok c \<Longrightarrow> codec_ok (tagged t c)"
  unfolding tagged_def by (intro codec_intros) simp_all

lemma codec_bool [codec_intros]: "codec_ok bool_c"
  unfolding bool_c_def by (intro codec_intros) simp

lemma codec_challenge [codec_intros]: "codec_ok challenge_c"
  unfolding challenge_c_def by (intro codec_intros) simp

lemma codec_peer_status [codec_intros]: "codec_ok peer_status_c"
  unfolding peer_status_c_def by (intro codec_intros) simp

lemma codec_chunk_summary [codec_intros]: "codec_ok chunk_summary_c"
  unfolding chunk_summary_c_def by (intro codec_intros) simp

lemma codec_status [codec_intros]: "codec_ok status_c"
  unfolding status_c_def by (intro codec_intros) simp

lemma codec_syncs [codec_intros]: "codec_ok policy_sync_c" "codec_ok moderation_sync_c"
  unfolding policy_sync_c_def moderation_sync_c_def by (intro codec_intros; simp)+

lemma codec_key_offer [codec_intros]: "codec_ok key_offer_c"
  unfolding key_offer_c_def by (intro codec_intros) simp

lemma codec_key_sync [codec_intros]: "codec_ok key_sync_c"
  unfolding key_sync_c_def by (intro codec_intros) simp

lemma codec_chunk_list [codec_intros]: "codec_ok chunk_list_c"
  unfolding chunk_list_c_def by (intro codec_intros) simp

lemma codec_chunk_diff [codec_intros]: "codec_ok chunk_diff_c"
  unfolding chunk_diff_c_def by (intro codec_intros) simp

lemma codec_chunk_batch [codec_intros]: "codec_ok chunk_batch_c"
  unfolding chunk_batch_c_def by (intro codec_intros) simp

lemma codec_want [codec_intros]: "codec_ok want_c"
  unfolding want_c_def by (intro codec_intros) simp

lemma codec_response [codec_intros]: "codec_ok response_c"
  unfolding response_c_def by (intro codec_intros) simp

lemma codec_url [codec_intros]: "codec_ok url_c"
  unfolding url_c_def by (intro codec_intros) simp

lemma codec_peer_record [codec_intros]: "codec_ok peer_record_c"
  unfolding peer_record_c_def by (intro codec_intros) simp

lemma codec_stored_peer [codec_intros]: "codec_ok stored_peer_c"
  unfolding stored_peer_c_def by (intro codec_intros) (simp split: stored_peer.split)

lemma codec_peer_config [codec_intros]: "codec_ok peer_config_c"
  unfolding peer_config_c_def by (intro codec_intros) simp

lemma get_line_put: "codec_ok c \<Longrightarrow> get_line c (put c x @ [10]) = Some x"
  by (simp add: get_line_def get_put)

lemma get_put_across: "get c (put d x) = snd c (fst d x)"
  by (simp add: get_def put_def)

lemma tagged_simps:
  "fst (tagged t c) x = Pair (Pair (Atom t) (Atom [])) (fst c x)"
  "snd (tagged t c) (Pair (Pair (Atom u) v) y) =
    (if u = t \<and> (\<exists>w. v = Atom w) then snd c y else None)"
  "snd (tagged t c) (Pair (Atom u) y) = None"
  by (simp_all add: tagged_def map_c_def pair_c_def string_c_def split: sexp.split option.split)

lemma get_tagged_other: "t \<noteq> u \<Longrightarrow> get (tagged t c) (put (tagged u d) x) = None"
  by (simp add: get_put_across tagged_simps)

lemma get_tagged_envelope: "get (tagged t c) (put envelope_c x) = None"
  by (simp add: get_put_across tagged_simps envelope_c_def map_c_def pair_c_def string_c_def)

end
