(* ===== verification/Mcp.thy ===== *)
theory Mcp
  imports Discovery
begin

text \<open>
  The interface for local AI clients, \<open>src/mcp.rs\<close>: JSON-RPC requests read from standard input, in
  lines or framed by a \<open>Content-Length\<close> header, and the three tools. Standard input and output are
  bytes; the JSON encodings are fields of \<open>mcp_lib\<close>, as are the texts of errors and
  \<open>Path::canonicalize\<close>, which follows symbolic links that the model's files do not have. A panic of a store function, which
  the id of a verified envelope excludes, is answered like an error here; it would end the process.
\<close>

section \<open>JSON values and messages\<close>

text \<open>\<open>serde_json::Value\<close>; an object is a \<open>BTreeMap\<close>, so its members are sorted by name. A float is its bits.\<close>

datatype number = PosInt u64 | NegInt i64 | Float u64

datatype json =
    Null
  | Bool bool
  | Number number
  | Str string
  | Arr "json list"
  | Obj "(string \<times> json) list"

definition obj :: "(string \<times> json) list \<Rightarrow> json" where
  "obj kvs = Obj (fold (\<lambda>(k, v). tput k v) kvs [])"

definition value_get :: "string \<Rightarrow> json \<Rightarrow> json option" where
  "value_get k v = (case v of Obj kvs \<Rightarrow> tget kvs k | _ \<Rightarrow> None)"

definition as_str :: "json \<Rightarrow> string option" where
  "as_str v = (case v of Str s \<Rightarrow> Some s | _ \<Rightarrow> None)"

record rpc_request =
  jr_jsonrpc :: "string option"
  jr_id :: "json option"
  jr_method :: string
  jr_params :: json

record rpc_error =
  re_code :: int
  re_message :: string
  re_data :: "json option"

record rpc_response =
  rr_jsonrpc :: string
  rr_id :: json
  rr_result :: "json option"
  rr_error :: "rpc_error option"

record tail_channel_args =
  ta_channel :: string
  ta_limit :: nat

record post_message_args =
  pa_channel :: string
  pa_title :: "string option"
  pa_body :: string
  pa_tags :: "string list"
  pa_refs :: "string list"

text \<open>\<open>request_error\<close>, \<open>args_error\<close> and \<open>error_text\<close> are the texts of parse errors and of the program's.\<close>

record mcp_lib = server_lib +
  request_of_json :: "bytes \<Rightarrow> rpc_request option"
  request_error :: "bytes \<Rightarrow> string"
  rpc_response_json :: "rpc_response \<Rightarrow> bytes"
  value_json :: "json \<Rightarrow> string"
  envelope_value :: "envelope \<Rightarrow> json"
  tail_args_of_value :: "json \<Rightarrow> tail_channel_args option"
  post_args_of_value :: "json \<Rightarrow> post_message_args option"
  args_error :: "json \<Rightarrow> string"
  error_text :: "error \<Rightarrow> string"
  canonicalize :: "string \<Rightarrow> string result"

definition jsonrpc_version :: string where "jsonrpc_version = ''2.0''"
definition mcp_protocol_version :: string where "mcp_protocol_version = ''2024-11-05''"
definition max_mcp_message_bytes :: nat where "max_mcp_message_bytes = 1048576"

section \<open>Framing\<close>

text \<open>\<open>trim_end_matches(['\r', '\n'])\<close>\<close>

definition trim_eol :: "bytes \<Rightarrow> bytes" where
  "trim_eol line = rev (dropWhile (\<lambda>b. b = 13 \<or> b = 10) (rev line))"

definition split_once :: "byte \<Rightarrow> bytes \<Rightarrow> (bytes \<times> bytes) option" where
  "split_once c s =
    (case dropWhile (\<lambda>b. b \<noteq> c) s of [] \<Rightarrow> None | _ # value \<Rightarrow> Some (takeWhile (\<lambda>b. b \<noteq> c) s, value))"

definition eq_ignore_ascii_case :: "string \<Rightarrow> string \<Rightarrow> bool" where
  "eq_ignore_ascii_case s t \<longleftrightarrow> to_ascii_lowercase s = to_ascii_lowercase t"

text \<open>\<open>str::parse::<usize>\<close>\<close>

definition parse_usize :: "string \<Rightarrow> nat option" where
  "parse_usize s =
    (let digits = (if s \<noteq> [] \<and> hd s = CHR ''+'' then tl s else s)
     in if digits = [] then None
        else case digits_value 0 digits of
          None \<Rightarrow> None
        | Some n \<Rightarrow> if n < 2 ^ 64 then Some n else None)"

text \<open>The header loop: what ended it. \<open>Inline\<close> is a message on a line of its own.\<close>

datatype header_end = EndOfInput | Inline bytes | Body "nat option"

function read_headers :: "nat option \<Rightarrow> bytes \<Rightarrow> header_end result \<times> bytes" where
  "read_headers content_length input =
    (let line = fst (read_line input); rest = snd (read_line input); trimmed = trim_eol line in
     if \<not> utf8_valid line then (Inl (Decode NotUtf8), rest)
     else if line = [] then (Inr EndOfInput, rest)
     else if trimmed = [] then (Inr (Body content_length), rest)
     else if hd trimmed = 123 then
       if length trimmed > max_mcp_message_bytes then (Inl (App MessageTooLong), rest)
       else (Inr (Inline trimmed), rest)
     else case split_once 58 trimmed of
       None \<Rightarrow> read_headers content_length rest
     | Some (name, value) \<Rightarrow>
         if eq_ignore_ascii_case (of_bytes name) ''Content-Length'' then
           (case parse_usize (trim (of_bytes value)) of
              None \<Rightarrow> (Inl (App InvalidContentLength), rest)
            | Some n \<Rightarrow>
                if n > max_mcp_message_bytes then (Inl (App MessageTooLong), rest)
                else read_headers (Some n) rest)
         else read_headers content_length rest)"
  by pat_completeness auto

lemma read_line_rest: "fst (read_line bs) \<noteq> [] \<Longrightarrow> length (snd (read_line bs)) < length bs"
  using read_line_shorter [of bs] by (cases bs) auto

termination read_headers
  by (relation "measure (\<lambda>(_, input). length input)") (auto simp: read_line_rest)

declare read_headers.simps [simp del]

definition read_mcp_message :: "bytes \<Rightarrow> bytes option result \<times> bytes" where
  "read_mcp_message input =
    (case read_headers None input of
       (Inl e, rest) \<Rightarrow> (Inl e, rest)
     | (Inr EndOfInput, rest) \<Rightarrow> (Inr None, rest)
     | (Inr (Inline message), rest) \<Rightarrow> (Inr (Some message), rest)
     | (Inr (Body None), rest) \<Rightarrow> (Inl (App MissingContentLength), rest)
     | (Inr (Body (Some len)), rest) \<Rightarrow>
         if length rest < len then (Inl (Io UnexpectedEof), [])
         else (Inr (Some (take len rest)), drop len rest))"

text \<open>What \<open>write_response\<close> writes for a body.\<close>

definition frame :: "bytes \<Rightarrow> bytes" where
  "frame body = as_bytes (''Content-Length: '' @ show_nat (length body)) @ [13, 10, 13, 10] @ body"

definition write_response :: "'x mcp_lib_scheme \<Rightarrow> bytes \<Rightarrow> rpc_response \<Rightarrow> bytes" where
  "write_response L output response = output @ frame (rpc_response_json L response)"

section \<open>Errors\<close>

definition invalid_request :: "string \<Rightarrow> rpc_error" where
  "invalid_request m = \<lparr>re_code = -32600, re_message = m, re_data = None\<rparr>"

definition method_not_found :: "string \<Rightarrow> rpc_error" where
  "method_not_found m = \<lparr>re_code = -32601, re_message = m, re_data = None\<rparr>"

definition invalid_params :: "string \<Rightarrow> rpc_error" where
  "invalid_params m = \<lparr>re_code = -32602, re_message = m, re_data = None\<rparr>"

definition tool_error :: "'x mcp_lib_scheme \<Rightarrow> error \<Rightarrow> rpc_error" where
  "tool_error L e = \<lparr>re_code = -32000, re_message = ''Tool execution failed'',
     re_data = Some (obj [(''details'', Str (error_text L e))])\<rparr>"

section \<open>The tools\<close>

definition initialize_result :: json where
  "initialize_result = obj [
    (''protocolVersion'', Str mcp_protocol_version),
    (''capabilities'', obj [(''tools'', obj [])]),
    (''serverInfo'', obj [(''name'', Str ''embernet''), (''version'', Str ''0.1.0'')])]"

definition tool_definitions :: "json list" where
  "tool_definitions = [
    obj [(''name'', Str ''list_channels''),
      (''description'', Str ''List available Embernet channel names under the configured data directory.''),
      (''inputSchema'', obj [
        (''type'', Str ''object''),
        (''properties'', obj []),
        (''additionalProperties'', Bool False)])],
    obj [(''name'', Str ''tail_channel''),
      (''description'', Str ''Read recent verified Envelope objects from a channel log.''),
      (''inputSchema'', obj [
        (''type'', Str ''object''),
        (''properties'', obj [
          (''channel'', obj [(''type'', Str ''string''), (''description'', Str ''Channel name, for example tech/linux.'')]),
          (''limit'', obj [(''type'', Str ''integer''), (''minimum'', Number (PosInt 0)), (''description'', Str ''Maximum number of recent messages to return.'')])]),
        (''required'', Arr [Str ''channel'', Str ''limit'']),
        (''additionalProperties'', Bool False)])],
    obj [(''name'', Str ''post_message''),
      (''description'', Str ''Create and append a signed text post using the local Embernet identity.''),
      (''inputSchema'', obj [
        (''type'', Str ''object''),
        (''properties'', obj [
          (''channel'', obj [(''type'', Str ''string''), (''description'', Str ''Channel name, for example tech/linux.'')]),
          (''title'', obj [(''type'', Arr [Str ''string'', Str ''null'']), (''description'', Str ''Optional message title. Use null when absent.'')]),
          (''body'', obj [(''type'', Str ''string''), (''description'', Str ''Text body to store as Body::Text.'')]),
          (''tags'', obj [(''type'', Str ''array''), (''items'', obj [(''type'', Str ''string'')]), (''description'', Str ''Optional tags. Defaults to an empty array.'')]),
          (''refs'', obj [(''type'', Str ''array''), (''items'', obj [(''type'', Str ''string'')]), (''description'', Str ''Optional references. Defaults to an empty array.'')])]),
        (''required'', Arr [Str ''channel'', Str ''title'', Str ''body'']),
        (''additionalProperties'', Bool False)])]]"

definition path_exists :: "string \<Rightarrow> node_fs \<Rightarrow> bool" where
  "path_exists p s \<longleftrightarrow> file_exists p s \<or> dir_exists p s"

text \<open>\<open>Path::components\<close> and \<open>Path::starts_with\<close>.\<close>

definition path_components :: "string \<Rightarrow> string list" where
  "path_components p =
    (let parts = segments p; names = filter (\<lambda>c. c \<noteq> [] \<and> c \<noteq> ''.'') parts in
     if p \<noteq> [] \<and> hd p = CHR ''/'' then ''/'' # names
     else if hd parts = ''.'' then ''.'' # names
     else names)"

definition path_starts_with :: "string \<Rightarrow> string \<Rightarrow> bool" where
  "path_starts_with p q \<longleftrightarrow> take (length (path_components q)) (path_components p) = path_components q"

definition secure_datadir :: "'x mcp_lib_scheme \<Rightarrow> string \<Rightarrow> node_fs \<Rightarrow> string result" where
  "secure_datadir L dir s = (if path_exists dir s then canonicalize L dir else Inr dir)"

definition ensure_under_datadir :: "'x mcp_lib_scheme \<Rightarrow> string \<Rightarrow> string \<Rightarrow> node_fs \<Rightarrow> unit result" where
  "ensure_under_datadir L dir path s =
    bindR (if path_exists dir s then canonicalize L dir else Inr dir) (\<lambda>dir'.
    bindR (if path_exists path s then canonicalize L path else Inr path) (\<lambda>path'.
    guardR (path_starts_with path' dir') (App OutsideDatadir)))"

definition ensure_channel_log_exists ::
  "'x mcp_lib_scheme \<Rightarrow> string \<Rightarrow> channel_ref \<Rightarrow> node_fs \<Rightarrow> unit result" where
  "ensure_channel_log_exists L dir chan s =
    (let log = path_join (path_join (path_join dir ''channels'') (full_name chan)) ''log.ndjson'' in
     if \<not> path_exists log s then Inl (App ChannelMissing) else ensure_under_datadir L dir log s)"

definition load_identity :: "'x proto_lib_scheme \<Rightarrow> string \<Rightarrow> node_fs \<Rightarrow> keypair result" where
  "load_identity L dir s = load_secure L (identity_path dir) s"

definition tool_list_channels :: "'x mcp_lib_scheme \<Rightarrow> string \<Rightarrow> node_fs \<Rightarrow> string list result" where
  "tool_list_channels L dir s =
    bindR (load_identity L dir s) (\<lambda>identity. list_readable_channels L dir (Some (public_key identity)) s)"

definition tail_channel ::
  "'x mcp_lib_scheme \<Rightarrow> string \<Rightarrow> tail_channel_args \<Rightarrow> (string \<times> envelope list) io" where
  "tail_channel L dir args =
    bindS (liftS (parse_channel (ta_channel args))) (\<lambda>chan.
    bindS (readS (ensure_channel_log_exists L dir chan)) (\<lambda>_.
    bindS (readS (load_identity L dir)) (\<lambda>identity.
    bindS (readS (authorize_read L dir chan (public_key identity))) (\<lambda>_.
    bindS (read_channel_tail_decrypted L dir chan (ta_limit args)) (\<lambda>messages.
    okS (full_name chan, messages))))))"

text \<open>What one request may draw from the clock and the random source.\<close>

record mcp_draws =
  md_now :: i64
  md_key :: bytes
  md_nonce :: bytes

definition post_message ::
  "'x mcp_lib_scheme \<Rightarrow> mcp_draws \<Rightarrow> string \<Rightarrow> post_message_args \<Rightarrow> json io" where
  "post_message L d dir args =
    bindS (liftS (parse_channel (pa_channel args))) (\<lambda>chan.
    bindS (readS (ensure_channel_log_exists L dir chan)) (\<lambda>_.
    bindS (readS (load_identity L dir)) (\<lambda>keypair.
    let msg = new_text (md_now d) (pa_title args) (pa_tags args) (pa_body args) (pa_refs args) in
    bindS (sign_message_for_channel L (md_key d) (md_nonce d) dir chan keypair msg) (\<lambda>env.
    bindS (append_message L dir chan env) (\<lambda>i.
    okS (obj [(''id'', Str i), (''channel'', Str (full_name chan)), (''envelope'', envelope_value L env)]))))))"

section \<open>Requests\<close>

text \<open>The state is the node's files; an error of a request is an answer.\<close>

definition tool_answer :: "'x mcp_lib_scheme \<Rightarrow> ('a \<Rightarrow> json) \<Rightarrow> 'a io \<Rightarrow> node_fs \<Rightarrow> (rpc_error + json) \<times> node_fs" where
  "tool_answer L f m n =
    (case m n of (Inl e, n') \<Rightarrow> (Inl (tool_error L e), n') | (Inr x, n') \<Rightarrow> (Inr (f x), n'))"

definition parse_args ::
  "'x mcp_lib_scheme \<Rightarrow> (json \<Rightarrow> 'a option) \<Rightarrow> json \<Rightarrow> rpc_error + 'a" where
  "parse_args L of_value v =
    (case of_value v of None \<Rightarrow> Inl (invalid_params (args_error L v)) | Some a \<Rightarrow> Inr a)"

definition run_tool ::
  "'x mcp_lib_scheme \<Rightarrow> mcp_draws \<Rightarrow> string \<Rightarrow> string \<Rightarrow> json \<Rightarrow> node_fs \<Rightarrow> (rpc_error + json) \<times> node_fs" where
  "run_tool L d dir name arguments n =
    (if name = ''list_channels'' then
       tool_answer L (\<lambda>cs. obj [(''channels'', Arr (map Str cs))]) (readS (tool_list_channels L dir)) n
     else if name = ''tail_channel'' then
       (case parse_args L (tail_args_of_value L) arguments of
          Inl e \<Rightarrow> (Inl e, n)
        | Inr args \<Rightarrow> tool_answer L
            (\<lambda>(c, ms). obj [(''channel'', Str c), (''messages'', Arr (map (envelope_value L) ms))])
            (tail_channel L dir args) n)
     else if name = ''post_message'' then
       (case parse_args L (post_args_of_value L) arguments of
          Inl e \<Rightarrow> (Inl e, n)
        | Inr args \<Rightarrow> tool_answer L (\<lambda>posted. posted) (post_message L d dir args) n)
     else (Inl (tool_error L (App UnknownTool)), n))"

definition handle_tool_call ::
  "'x mcp_lib_scheme \<Rightarrow> mcp_draws \<Rightarrow> string \<Rightarrow> json \<Rightarrow> node_fs \<Rightarrow> (rpc_error + json) \<times> node_fs" where
  "handle_tool_call L d dir params n =
    (case Option.bind (value_get ''name'' params) as_str of
       None \<Rightarrow> (Inl (invalid_params ''tools/call requires params.name''), n)
     | Some name \<Rightarrow>
         let arguments = (case value_get ''arguments'' params of None \<Rightarrow> obj [] | Some v \<Rightarrow> v) in
         (case run_tool L d dir name arguments n of
            (Inl e, n') \<Rightarrow> (Inl e, n')
          | (Inr payload, n') \<Rightarrow>
              (Inr (obj [
                (''content'', Arr [obj [(''type'', Str ''text''), (''text'', Str (value_json L payload))]]),
                (''structuredContent'', payload),
                (''isError'', Bool False)]), n')))"

definition handle_request ::
  "'x mcp_lib_scheme \<Rightarrow> mcp_draws \<Rightarrow> string \<Rightarrow> rpc_request \<Rightarrow> node_fs \<Rightarrow> (rpc_error + json) \<times> node_fs" where
  "handle_request L d dir request n =
    (if (case jr_jsonrpc request of None \<Rightarrow> jsonrpc_version | Some v \<Rightarrow> v) \<noteq> jsonrpc_version
     then (Inl (invalid_request ''jsonrpc must be \"2.0\"''), n)
     else if jr_method request = ''initialize'' then (Inr initialize_result, n)
     else if jr_method request = ''ping'' then (Inr (obj []), n)
     else if jr_method request = ''tools/list'' then (Inr (obj [(''tools'', Arr tool_definitions)]), n)
     else if jr_method request = ''tools/call'' then handle_tool_call L d dir (jr_params request) n
     else (Inl (method_not_found (''unknown method: '' @ jr_method request)), n))"

definition parse_error_response :: "'x mcp_lib_scheme \<Rightarrow> bytes \<Rightarrow> rpc_response" where
  "parse_error_response L raw =
    \<lparr>rr_jsonrpc = jsonrpc_version, rr_id = Null, rr_result = None,
     rr_error = Some \<lparr>re_code = -32700, re_message = ''Parse error'',
       re_data = Some (obj [(''details'', Str (request_error L raw))])\<rparr>\<rparr>"

text \<open>One turn of the loop of \<open>run_stdio\<close>: the answer, if the message gets one.\<close>

definition serve_message ::
  "'x mcp_lib_scheme \<Rightarrow> mcp_draws \<Rightarrow> string \<Rightarrow> bytes \<Rightarrow> node_fs \<Rightarrow> rpc_response option \<times> node_fs" where
  "serve_message L d dir raw n =
    (case request_of_json L raw of
       None \<Rightarrow> (Some (parse_error_response L raw), n)
     | Some request \<Rightarrow>
         (case jr_id request of
            None \<Rightarrow> (None, n)
          | Some i \<Rightarrow>
              (case handle_request L d dir request n of
                 (Inr v, n') \<Rightarrow>
                   (Some \<lparr>rr_jsonrpc = jsonrpc_version, rr_id = i, rr_result = Some v, rr_error = None\<rparr>, n')
               | (Inl e, n') \<Rightarrow>
                   (Some \<lparr>rr_jsonrpc = jsonrpc_version, rr_id = i, rr_result = None, rr_error = Some e\<rparr>, n'))))"

section \<open>The loop\<close>

lemma read_line_le: "length (snd (read_line bs)) \<le> length bs"
  using read_line_shorter [of bs] by (cases bs) auto

lemma read_headers_le: "length (snd (read_headers len input)) \<le> length (snd (read_line input))"
proof (induction len input rule: read_headers.induct)
  case (1 len input)
  have le: "length (snd (read_line (snd (read_line input)))) \<le> length (snd (read_line input))"
    by (rule read_line_le)
  show ?case
    using 1 by (subst read_headers.simps) (auto simp: Let_def split: option.split intro!: order_trans [OF _ le])
qed

lemma read_headers_Nil: "read_headers len [] = (Inr EndOfInput, [])"
  by (simp add: read_headers.simps)

lemma read_headers_shorter: "input \<noteq> [] \<Longrightarrow> length (snd (read_headers len input)) < length input"
  using read_headers_le [of len input] read_line_shorter [of input] by linarith

lemma read_mcp_message_shorter:
  "read_mcp_message input = (Inr (Some m), rest) \<Longrightarrow> length rest < length input"
proof -
  assume read: "read_mcp_message input = (Inr (Some m), rest)"
  obtain r q where h: "read_headers None input = (r, q)" by (cases "read_headers None input")
  have ne: "input \<noteq> []"
    using read by (auto simp: read_mcp_message_def read_headers_Nil)
  then have "length q < length input"
    using read_headers_shorter [of input None] h by simp
  then show ?thesis
    using read h by (auto simp: read_mcp_message_def split: sum.splits header_end.splits option.splits if_splits)
qed

function serve_stdio ::
  "'x mcp_lib_scheme \<Rightarrow> (nat \<Rightarrow> mcp_draws) \<Rightarrow> string \<Rightarrow> bytes \<Rightarrow> bytes \<Rightarrow> node_fs \<Rightarrow> unit result \<times> bytes \<times> node_fs"
where
  "serve_stdio L draws dir input output n =
    (case read_mcp_message input of
       (Inl e, _) \<Rightarrow> (Inl e, output, n)
     | (Inr None, _) \<Rightarrow> (Inr (), output, n)
     | (Inr (Some raw), rest) \<Rightarrow>
         let served = serve_message L (draws (length rest)) dir raw n in
         serve_stdio L draws dir rest
           (case fst served of None \<Rightarrow> output | Some response \<Rightarrow> write_response L output response)
           (snd served))"
  by pat_completeness auto
termination
  by (relation "measure (\<lambda>(_, _, _, input, _, _). length input)") (auto dest: read_mcp_message_shorter [OF sym])

declare serve_stdio.simps [simp del]

text \<open>\<open>draws k\<close> is what is drawn while \<open>k\<close> bytes of input are left. Output is always taken.\<close>

definition run_stdio ::
  "'x mcp_lib_scheme \<Rightarrow> (nat \<Rightarrow> mcp_draws) \<Rightarrow> string \<Rightarrow> bytes \<Rightarrow> node_fs \<Rightarrow> unit result \<times> bytes \<times> node_fs" where
  "run_stdio L draws dir input n =
    (case secure_datadir L dir n of
       Inl e \<Rightarrow> (Inl e, [], n)
     | Inr dir' \<Rightarrow> serve_stdio L draws dir' input [] n)"

end
