(* ===== verification/Posting.thy ===== *)
theory Posting
  imports Channel_View
begin

text \<open>
  Posting to a channel, as the command line, the terminal and the agent interface all do it: sign the
  message for the channel, then append the envelope.
\<close>

lemma sign_for_channel_frame:
  "writes_only {keyring_path base (full_name chan)} (sign_message_for_channel L raw nonce base chan kp m)"
  unfolding sign_message_for_channel_def
  by (intro frame_intros) (rule rotate_if_frame)

lemma sign_for_channel_fields:
  assumes "sign_message_for_channel L raw nonce base chan kp m s = (Inr e, s')"
  shows "env_channel e = full_name chan \<and> env_from e = public_key kp"
  using assms sign_fields by (fastforce simp: sign_message_for_channel_def runS_ok)

text \<open>The envelope carries the message: as it is in a public channel, with its body sealed under the current
  channel key in a private one; \<open>s\<close> holds the policy, \<open>s'\<close> the key.\<close>

definition carries ::
  "'x policy_lib_scheme \<Rightarrow> string \<Rightarrow> channel_ref \<Rightarrow> bytes \<Rightarrow> message \<Rightarrow> node_fs \<Rightarrow> node_fs \<Rightarrow> envelope \<Rightarrow> bool" where
  "carries L base chan nonce m s s' e \<longleftrightarrow>
    (\<exists>p. read_channel_policy L base chan s = Inr p
      \<and> (visibility p = Public \<longrightarrow> env_msg e = m)
      \<and> (visibility p = Private \<longrightarrow> (\<exists>key k. current_channel_key L base (full_name chan) s' = Inr key
          \<and> decode_key L key = Inr k \<and> sealed L (ck_id key) k nonce (full_name chan) m (env_msg e))))"

lemma sign_for_channel_carries:
  assumes "sign_message_for_channel L raw nonce base chan kp m s = (Inr e, s')"
  shows "carries L base chan nonce m s s' e"
proof -
  obtain p where p: "read_channel_policy L base chan s = Inr p"
    using assms by (auto simp: sign_message_for_channel_def runS_ok)
  show ?thesis
  proof (cases "visibility p")
    case Private
    from sign_private [OF p Private assms] show ?thesis
      using p Private by (auto simp: carries_def)
  next
    case Public
    then have "env_msg e = m"
      using assms p sign_fields by (fastforce simp: sign_message_for_channel_def runS_ok)
    then show ?thesis using p Public by (simp add: carries_def)
  qed
qed

lemma carries_same_keys:
  assumes "carries L base chan nonce m s s1 e"
    and "current_channel_key L base (full_name chan) s2 = current_channel_key L base (full_name chan) s1"
  shows "carries L base chan nonce m s s2 e"
  using assms by (simp add: carries_def)

lemma log_rel_outside:
  assumes "log_rel L base chan msgs s" and "same_outside P s s'"
    and "log_path base chan \<notin> P" and "index_path base chan \<notin> P"
  shows "log_rel L base chan msgs s'"
  using assms by (auto simp: log_rel_def same_outside_def get_db_def)

lemma index_keyring_distinct: "index_path base chan \<noteq> keyring_path base (full_name chan)"
  by (simp add: index_path_def keyring_path_def channel_file_def path_join_same)

lemma keyring_log_distinct: "keyring_path base (full_name chan) \<noteq> log_path base chan"
  by (simp add: log_path_def keyring_path_def channel_file_def path_join_same)

lemma post_result:
  assumes "envelope_json_ok L" and "crypto_ok L" and "log_rel L base chan msgs s"
    and "sign_message_for_channel L raw nonce base chan kp m s = (Inr e, s1)"
    and "append_message L base chan e s1 = (Inr i, s2)"
    and "length (log_bytes L (msgs @ [e])) < 2 ^ 64"
  shows "i = env_id e \<and> log_rel L base chan (log_append msgs e) s2
    \<and> verify L e = Inr () \<and> env_from e = public_key kp \<and> env_channel e = full_name chan
    \<and> carries L base chan nonce m s s2 e
    \<and> same_outside {keyring_path base (full_name chan), log_path base chan, index_path base chan} s s2"
proof -
  have out: "same_outside {keyring_path base (full_name chan)} s s1"
    by (rule writes_onlyD [OF sign_for_channel_frame assms(4)])
  have "log_rel L base chan msgs s1"
    using log_rel_outside [OF assms(3) out] index_keyring_distinct by (auto dest: not_sym)
  note res = append_message_result [OF assms(1,2) this assms(6,5)]
  have "same_outside {keyring_path base (full_name chan), log_path base chan, index_path base chan} s s2"
    using same_outside_trans [OF same_outside_mono [OF out] same_outside_mono [OF append_message_outside [OF assms(5)]]]
    by auto
  moreover have "carries L base chan nonce m s s2 e"
  proof (rule carries_same_keys [OF sign_for_channel_carries [OF assms(4)]])
    have "keyring_path base (full_name chan) \<notin> {log_path base chan, index_path base chan}"
      using index_keyring_distinct [of base chan] keyring_log_distinct [of base chan] by auto
    then show "current_channel_key L base (full_name chan) s2 = current_channel_key L base (full_name chan) s1"
      using same_outside_keys [OF append_message_outside [OF assms(5)]] by blast
  qed
  ultimately show ?thesis
    using res sign_for_channel_fields [OF assms(4)] by (auto simp: is_ok_iff)
qed

end
