(* ===== verification/Tui.thy ===== *)
theory Tui
  imports Mcp Posting
begin

text \<open>
  The interactive terminal, \<open>src/tui.rs\<close>: the state of the screen (\<open>App\<close>), its loading and refreshing
  from the node's files, the keys, the actions they start, the events of background synchronization, and
  one turn of the main loop. Arguments stand for what the environment answers: file metadata, the widths
  of lines on the terminal, the frames a peer sends. Texts are UTF-8 bytes.
\<close>

section \<open>State\<close>

datatype input_mode = NormalMode | PostMode | PeerMode

datatype action = NoAction | PostAction string | SyncAction string

record sync_summary =
  sum_channels :: nat
  sum_received :: u64

datatype auto_sync_event = SyncComplete string sync_summary | SyncFailed string string

record fingerprint =
  fp_length :: u64
  fp_modified :: "nat option"

record local_fingerprint =
  lf_channels :: "string list"
  lf_files :: "fingerprint option list"

record app =
  a_datadir :: string
  a_identity :: keypair
  a_channels :: "string list"
  a_selected :: nat
  a_messages :: "envelope list"
  a_scroll :: "16 word"
  a_max_scroll :: "16 word"
  a_follow_tail :: bool
  a_audit :: bool
  a_mode :: input_mode
  a_input :: string
  a_status :: string
  a_role :: string
  a_visibility :: string
  a_policy_conflicts :: nat
  a_moderation_conflicts :: nat
  a_peers :: "string list"
  a_connection :: string
  a_listener :: string
  a_fingerprint :: "local_fingerprint option"
  a_quit :: bool

text \<open>\<open>error_chain\<close> is the text \<open>{error:#}\<close>, \<open>line_width\<close> the columns a line takes, \<open>clock_text\<close> the time of
  day of a time stamp, \<open>None\<close> for one out of chrono's range.\<close>

record tui_lib = mcp_lib +
  error_chain :: "error \<Rightarrow> string"
  line_width :: "string \<Rightarrow> nat"
  clock_text :: "i64 \<Rightarrow> string option"

text \<open>The screen and the files it works on.\<close>

type_synonym ui = "app \<times> node_fs"
type_synonym 'a ui_io = "ui \<Rightarrow> 'a result \<times> ui"

definition on_disk :: "'a io \<Rightarrow> 'a ui_io" where
  "on_disk m u = (let (r, n) = m (snd u) in (r, (fst u, n)))"

definition modify :: "(app \<Rightarrow> app) \<Rightarrow> unit ui_io" where
  "modify f u = (Inr (), (f (fst u), snd u))"

definition with_app :: "(app \<Rightarrow> 'a ui_io) \<Rightarrow> 'a ui_io" where
  "with_app f u = f (fst u) u"

definition channel :: "app \<Rightarrow> string option" where
  "channel a = (if a_selected a < length (a_channels a) then Some (a_channels a ! a_selected a) else None)"

text \<open>The character \<open>U+00B7\<close> between spaces.\<close>

definition dot :: string where
  "dot = of_bytes [32, 0xC2, 0xB7, 32]"

section \<open>Refreshing\<close>

definition role_of :: "channel_policy \<Rightarrow> string \<Rightarrow> string" where
  "role_of p key =
    (if mode p = Open then ''open writer''
     else if owner p = Some key then ''owner''
     else if key \<in> set (moderators p) then ''moderator''
     else if key \<in> set (writers p) then ''writer''
     else if key \<in> set (readers p) then ''reader''
     else if \<not> policy_allows_read p key then ''non-member''
     else ''reader'')"

definition visibility_text :: "channel_visibility \<Rightarrow> string" where
  "visibility_text v = (case v of Public \<Rightarrow> ''public'' | Private \<Rightarrow> ''private'')"

type_synonym metadata = "string \<Rightarrow> node_fs \<Rightarrow> fingerprint option result"

definition watched_files :: "string \<Rightarrow> string \<Rightarrow> string list" where
  "watched_files dir c = map (path_join (channel_to_path dir c))
    [''log.ndjson'', ''policy.ndjson'', ''moderation.ndjson'', ''policy-conflicts'', ''moderation-conflicts'']"

definition local_state_fingerprint ::
  "'x policy_lib_scheme \<Rightarrow> metadata \<Rightarrow> app \<Rightarrow> node_fs \<Rightarrow> local_fingerprint result" where
  "local_state_fingerprint L meta a n =
    bindR (list_readable_channels L (a_datadir a) (Some (public_key (a_identity a))) n) (\<lambda>cs.
    bindR (case channel a of
             None \<Rightarrow> Inr []
           | Some c \<Rightarrow> mapR (\<lambda>path. meta path n) (watched_files (a_datadir a) c)) (\<lambda>stamps.
    Inr \<lparr>lf_channels = cs, lf_files = stamps\<rparr>))"

definition take_fingerprint :: "'x policy_lib_scheme \<Rightarrow> metadata \<Rightarrow> unit ui_io" where
  "take_fingerprint L meta =
    with_app (\<lambda>a.
    bindS (on_disk (readS (local_state_fingerprint L meta a))) (\<lambda>fp.
    modify (a_fingerprint_update (\<lambda>_. Some fp))))"

definition refresh :: "'x moderation_lib_scheme \<Rightarrow> metadata \<Rightarrow> unit ui_io" where
  "refresh L meta =
    with_app (\<lambda>a.
    case channel a of
      None \<Rightarrow>
        bindS (modify (\<lambda>a. a\<lparr>a_messages := [], a_role := ''-'', a_visibility := ''-''\<rparr>)) (\<lambda>_.
        take_fingerprint L meta)
    | Some c \<Rightarrow>
        bindS (liftS (parse_channel c)) (\<lambda>chan.
        bindS (on_disk (read_channel_tail_decrypted_with_options L (a_datadir a) chan 500 (a_audit a))) (\<lambda>ms.
        bindS (modify (a_messages_update (\<lambda>_. ms))) (\<lambda>_.
        bindS (on_disk (readS (read_channel_policy L (a_datadir a) chan))) (\<lambda>p.
        bindS (modify (\<lambda>a. a\<lparr>a_visibility := visibility_text (visibility p),
                 a_role := role_of p (public_key (a_identity a))\<rparr>)) (\<lambda>_.
        bindS (on_disk (\<lambda>n. (Inr (length (list_policy_conflicts (a_datadir a) chan n)), n))) (\<lambda>pc.
        bindS (on_disk (\<lambda>n. (Inr (length (list_moderation_conflicts (a_datadir a) chan n)), n))) (\<lambda>mc.
        bindS (modify (\<lambda>a. a\<lparr>a_policy_conflicts := pc, a_moderation_conflicts := mc,
                 a_scroll := 0, a_follow_tail := True\<rparr>)) (\<lambda>_.
        take_fingerprint L meta)))))))))"

definition load ::
  "'x tui_lib_scheme \<Rightarrow> metadata \<Rightarrow> string \<Rightarrow> node_fs \<Rightarrow> app result \<times> node_fs" where
  "load L meta dir n =
    bindS (readS (load_secure L (identity_path dir))) (\<lambda>identity.
    bindS (readS (list_peers L dir)) (\<lambda>peers.
    bindS (readS (list_readable_channels L dir (Some (public_key identity)))) (\<lambda>cs.
    let a = \<lparr>a_datadir = dir, a_identity = identity, a_channels = cs, a_selected = 0, a_messages = [],
          a_scroll = 0, a_max_scroll = 0, a_follow_tail = True, a_audit = False, a_mode = NormalMode,
          a_input = [], a_status = ''ready'', a_role = ''-'', a_visibility = ''-'',
          a_policy_conflicts = 0, a_moderation_conflicts = 0, a_peers = peers,
          a_connection = (if peers = [] then ''offline'' @ dot @ ''no saved peers''
            else ''connecting'' @ dot @ show_nat (length peers) @ '' peer(s)''),
          a_listener = ''not listening'', a_fingerprint = None, a_quit = False\<rparr>
    in (\<lambda>n. case refresh L meta (a, n) of
         (Inl e, (_, n')) \<Rightarrow> (Inl e, n')
       | (Inr _, (a', n')) \<Rightarrow> (Inr a', n'))))) n"

text \<open>\<open>iter().position(|channel| channel == &selected)\<close>\<close>

fun position :: "string \<Rightarrow> string list \<Rightarrow> nat option" where
  "position c [] = None"
| "position c (x # xs) = (if x = c then Some 0 else map_option Suc (position c xs))"

definition refresh_if_local_state_changed :: "'x moderation_lib_scheme \<Rightarrow> metadata \<Rightarrow> bool ui_io" where
  "refresh_if_local_state_changed L meta =
    with_app (\<lambda>a.
    bindS (on_disk (readS (local_state_fingerprint L meta a))) (\<lambda>fp.
    if a_fingerprint a = Some fp then okS False
    else
      let cs = lf_channels fp;
          index = (case Option.bind (channel a) (\<lambda>c. position c cs) of
            Some i \<Rightarrow> i | None \<Rightarrow> min (a_selected a) (length cs - 1))
      in bindS (modify (\<lambda>a. a\<lparr>a_channels := cs, a_selected := index\<rparr>)) (\<lambda>_.
         bindS (refresh L meta) (\<lambda>_.
         bindS (modify (\<lambda>b. b\<lparr>a_scroll := a_scroll a, a_follow_tail := a_follow_tail a,
                  a_status := ''local changes detected''\<rparr>)) (\<lambda>_.
         okS True)))))"

section \<open>Keys\<close>

text \<open>A character is its code point.\<close>

datatype key_code = Esc | Enter | Backspace | Up | Down | PageUp | PageDown | Character nat | OtherKey

record key_event =
  k_code :: key_code
  k_control :: bool

text \<open>\<open>String::push\<close> and \<open>String::pop\<close> on UTF-8.\<close>

definition encode_utf8 :: "nat \<Rightarrow> string" where
  "encode_utf8 c =
    map char_of
      (if c < 0x80 then [c]
       else if c < 0x800 then [0xC0 + c div 64, 0x80 + c mod 64]
       else if c < 0x10000 then [0xE0 + c div 4096, 0x80 + c div 64 mod 64, 0x80 + c mod 64]
       else [0xF0 + c div 262144, 0x80 + c div 4096 mod 64, 0x80 + c div 64 mod 64, 0x80 + c mod 64])"

definition continuation :: "char \<Rightarrow> bool" where
  "continuation c \<longleftrightarrow> (let n = of_char c :: nat in 0x80 \<le> n \<and> n < 0xC0)"

definition pop :: "string \<Rightarrow> string" where
  "pop s = rev (tl (dropWhile continuation (rev s)))"

definition char_key :: "char \<Rightarrow> key_code" where
  "char_key c = Character (of_char c)"

definition saturating_add :: "16 word \<Rightarrow> 16 word \<Rightarrow> 16 word" where
  "saturating_add a b = (if unat a + unat b < 2 ^ 16 then a + b else 0xFFFF)"

definition saturating_sub :: "16 word \<Rightarrow> 16 word \<Rightarrow> 16 word" where
  "saturating_sub a b = (if b \<le> a then a - b else 0)"

text \<open>A key while a text is entered.\<close>

definition edit_key :: "key_event \<Rightarrow> app \<Rightarrow> action \<times> app" where
  "edit_key key a =
    (case k_code key of
       Esc \<Rightarrow> (NoAction, a\<lparr>a_mode := NormalMode, a_input := []\<rparr>)
     | Enter \<Rightarrow>
         let v = trim (a_input a); a' = a\<lparr>a_mode := NormalMode, a_input := []\<rparr> in
         if v = [] then (NoAction, a')
         else if a_mode a = PostMode then (PostAction v, a')
         else (SyncAction v, a')
     | Backspace \<Rightarrow> (NoAction, a\<lparr>a_input := pop (a_input a)\<rparr>)
     | Character c \<Rightarrow> (NoAction, a\<lparr>a_input := a_input a @ encode_utf8 c\<rparr>)
     | _ \<Rightarrow> (NoAction, a))"

definition default_peer :: string where
  "default_peer = ''ws://127.0.0.1:4444/sync''"

definition command_key :: "'x moderation_lib_scheme \<Rightarrow> metadata \<Rightarrow> key_event \<Rightarrow> unit ui_io" where
  "command_key L meta key =
    with_app (\<lambda>a. let k = k_code key in
    if k = char_key (CHR ''q'') \<or> (k = char_key (CHR ''c'') \<and> k_control key)
    then modify (a_quit_update (\<lambda>_. True))
    else if k = Up \<or> k = char_key (CHR ''K'') then
      (if a_selected a > 0
       then bindS (modify (a_selected_update (\<lambda>i. i - 1))) (\<lambda>_. refresh L meta) else okS ())
    else if k = Down \<or> k = char_key (CHR ''J'') then
      (if a_selected a + 1 < length (a_channels a)
       then bindS (modify (a_selected_update (\<lambda>i. i + 1))) (\<lambda>_. refresh L meta) else okS ())
    else if k = char_key (CHR ''k'') \<or> k = PageUp then
      modify (\<lambda>a. a\<lparr>a_scroll := saturating_sub (a_scroll a) 1, a_follow_tail := False\<rparr>)
    else if k = char_key (CHR ''j'') \<or> k = PageDown then
      modify (\<lambda>a. let s = min (saturating_add (a_scroll a) 1) (a_max_scroll a) in
        a\<lparr>a_scroll := s, a_follow_tail := (s \<ge> a_max_scroll a)\<rparr>)
    else if k = char_key (CHR ''a'') then
      bindS (modify (a_audit_update Not)) (\<lambda>_.
      bindS (refresh L meta) (\<lambda>_.
      modify (\<lambda>a. a\<lparr>a_status := (if a_audit a then ''audit view includes tombstoned messages''
        else ''normal moderated view'')\<rparr>)))
    else if k = char_key (CHR ''p'') \<and> channel a \<noteq> None then
      modify (\<lambda>a. a\<lparr>a_mode := PostMode, a_input := []\<rparr>)
    else if k = char_key (CHR ''s'') \<and> channel a \<noteq> None then
      modify (\<lambda>a. a\<lparr>a_mode := PeerMode,
        a_input := (case a_peers a of [] \<Rightarrow> default_peer | p # _ \<Rightarrow> p)\<rparr>)
    else if k = char_key (CHR ''r'') then
      bindS (on_disk (readS (list_readable_channels L (a_datadir a) (Some (public_key (a_identity a)))))) (\<lambda>cs.
      bindS (modify (\<lambda>a. a\<lparr>a_channels := cs, a_selected := min (a_selected a) (length cs - 1)\<rparr>)) (\<lambda>_.
      bindS (refresh L meta) (\<lambda>_.
      modify (a_status_update (\<lambda>_. ''refreshed'')))))
    else okS ())"

definition handle_key :: "'x moderation_lib_scheme \<Rightarrow> metadata \<Rightarrow> key_event \<Rightarrow> action ui_io" where
  "handle_key L meta key =
    with_app (\<lambda>a.
    if a_mode a \<noteq> NormalMode then
      let (act, a') = edit_key key a in bindS (modify (\<lambda>_. a')) (\<lambda>_. okS act)
    else bindS (command_key L meta key) (\<lambda>_. okS NoAction))"

section \<open>Actions\<close>

text \<open>\<open>&id[..n]\<close>: a panic unless \<open>n\<close> is the end of a character.\<close>

definition char_boundary :: "nat \<Rightarrow> string \<Rightarrow> bool" where
  "char_boundary n s \<longleftrightarrow> n = length s \<or> (n < length s \<and> \<not> continuation (s ! n))"

definition slice_to :: "nat \<Rightarrow> string \<Rightarrow> string result" where
  "slice_to n s = (if char_boundary n s then Inr (take n s) else Inl Panicked)"

text \<open>A panic ends the interface, also inside \<open>apply\<close>. \<open>sync peer channel\<close> is the session of \<open>sync_from_peer\<close> with the peer, on the files as they are then.\<close>

definition attempt ::
  "'x tui_lib_scheme \<Rightarrow> mcp_draws \<Rightarrow> (string \<Rightarrow> string \<Rightarrow> u64 io) \<Rightarrow> action \<Rightarrow> string ui_io" where
  "attempt L d sync act =
    with_app (\<lambda>a.
    bindS (liftS (from_option (App NoChannelSelected) (channel a))) (\<lambda>c.
    bindS (liftS (parse_channel c)) (\<lambda>chan.
    case act of
      PostAction body \<Rightarrow>
        bindS (modify (a_follow_tail_update (\<lambda>_. True))) (\<lambda>_.
        bindS (on_disk (sign_message_for_channel L (md_key d) (md_nonce d) (a_datadir a) chan (a_identity a)
                 (new_text (md_now d) None [] body []))) (\<lambda>env.
        bindS (on_disk (append_message L (a_datadir a) chan env)) (\<lambda>i.
        bindS (liftS (slice_to 12 i)) (\<lambda>short.
        okS (''posted '' @ short)))))
    | SyncAction value \<Rightarrow>
        bindS (on_disk (add_peer L (a_datadir a) value None)) (\<lambda>record.
        bindS (on_disk (readS (list_peers L (a_datadir a)))) (\<lambda>peers.
        bindS (modify (a_peers_update (\<lambda>_. peers))) (\<lambda>_.
        bindS (on_disk (sync (peer_url record) c)) (\<lambda>received.
        bindS (modify (a_connection_update (\<lambda>_. ''connected'' @ dot @ peer_url record))) (\<lambda>_.
        okS (''sync complete: '' @ show_nat (unat received) @ '' received''))))))
    | NoAction \<Rightarrow> liftS (Inl Panicked))))"

definition set_status :: "string \<Rightarrow> ui \<Rightarrow> ui" where
  "set_status t u = ((fst u)\<lparr>a_status := t\<rparr>, snd u)"

definition apply_action ::
  "'x tui_lib_scheme \<Rightarrow> metadata \<Rightarrow> mcp_draws \<Rightarrow> (string \<Rightarrow> string \<Rightarrow> u64 io) \<Rightarrow> action \<Rightarrow> unit ui_io" where
  "apply_action L meta d sync act u =
    (if act = NoAction then (Inr (), u)
     else case attempt L d sync act u of
       (Inl e, u1) \<Rightarrow>
         if e = Panicked then (Inl e, u1) else (Inr (), set_status (''error: '' @ error_chain L e) u1)
     | (Inr t, u1) \<Rightarrow>
         (case refresh L meta (set_status t u1) of
            (Inl e, u2) \<Rightarrow> (Inr (), set_status (''refresh failed: '' @ error_chain L e) u2)
          | (Inr _, u2) \<Rightarrow> (Inr (), u2)))"

section \<open>Background synchronization\<close>

definition apply_auto_sync :: "'x tui_lib_scheme \<Rightarrow> metadata \<Rightarrow> auto_sync_event \<Rightarrow> ui \<Rightarrow> ui" where
  "apply_auto_sync L meta event u =
    (case event of
       SyncComplete peer summary \<Rightarrow>
         let a = (fst u)\<lparr>a_connection := ''connected'' @ dot @ peer,
               a_status := ''auto-sync: '' @ show_nat (sum_channels summary) @ '' channel(s), ''
                 @ show_nat (unat (sum_received summary)) @ '' received''\<rparr>
         in (case list_readable_channels L (a_datadir a) (Some (public_key (a_identity a))) (snd u) of
           Inl e \<Rightarrow> set_status (''channel refresh failed: '' @ error_chain L e) (a, snd u)
         | Inr cs \<Rightarrow>
             if cs \<noteq> a_channels a \<or> sum_received summary > 0 then
               let index = (case Option.bind (channel a) (\<lambda>c. position c cs) of
                     Some i \<Rightarrow> i | None \<Rightarrow> a_selected a)
               in (case refresh L meta (a\<lparr>a_channels := cs, a_selected := index\<rparr>, snd u) of
                 (Inl e, u1) \<Rightarrow> set_status (''refresh failed: '' @ error_chain L e) u1
               | (Inr _, (b, n)) \<Rightarrow> (b\<lparr>a_scroll := a_scroll a, a_follow_tail := a_follow_tail a\<rparr>, n))
             else (a, snd u))
     | SyncFailed peer reason \<Rightarrow>
         ((fst u)\<lparr>a_connection := ''offline'' @ dot @ peer, a_status := ''auto-sync error: '' @ reason\<rparr>, snd u))"

text \<open>The event of a spawned synchronization.\<close>

definition sync_job ::
  "'x tui_lib_scheme \<Rightarrow> (string \<Rightarrow> string \<Rightarrow> u64 io) \<Rightarrow> string \<times> string \<Rightarrow> node_fs \<Rightarrow> auto_sync_event \<times> node_fs" where
  "sync_job L sync job n =
    (case sync (fst job) (snd job) n of
       (Inr received, n') \<Rightarrow> (SyncComplete (fst job) \<lparr>sum_channels = 1, sum_received = received\<rparr>, n')
     | (Inl e, n') \<Rightarrow> (SyncFailed (fst job) (error_chain L e), n'))"

text \<open>One interval of \<open>auto_sync_worker\<close>; \<open>sync_all peer\<close> is \<open>sync_all_from_peer\<close> with that peer.\<close>

fun sync_peers ::
  "'x tui_lib_scheme \<Rightarrow> (string \<Rightarrow> (nat \<times> u64) io) \<Rightarrow> string list \<Rightarrow> node_fs \<Rightarrow> auto_sync_event list \<times> node_fs" where
  "sync_peers L sync_all [] n = ([], n)"
| "sync_peers L sync_all (peer # rest) n =
    (case sync_all peer n of
       (Inr (channels, received), n1) \<Rightarrow>
         let (events, n2) = sync_peers L sync_all rest n1 in
         (SyncComplete peer \<lparr>sum_channels = channels, sum_received = received\<rparr> # events, n2)
     | (Inl e, n1) \<Rightarrow>
         let (events, n2) = sync_peers L sync_all rest n1 in
         (SyncFailed peer (error_chain L e) # events, n2))"

definition auto_sync_interval ::
  "'x tui_lib_scheme \<Rightarrow> (string \<Rightarrow> (nat \<times> u64) io) \<Rightarrow> string \<Rightarrow> node_fs \<Rightarrow> auto_sync_event list \<times> node_fs" where
  "auto_sync_interval L sync_all dir n =
    (case list_peers L dir n of
       Inl e \<Rightarrow> ([SyncFailed ''configuration'' (error_chain L e)], n)
     | Inr configured \<Rightarrow> sync_peers L sync_all configured n)"

section \<open>Drawing\<close>

text \<open>\<open>from.get(..10).unwrap_or(from)\<close>\<close>

definition author_text :: "envelope \<Rightarrow> string" where
  "author_text e =
    (case env_from_alias e of
       Some alias \<Rightarrow> alias
     | None \<Rightarrow> if char_boundary 10 (env_from e) then take 10 (env_from e) else env_from e)"

definition timeline_lines :: "'x tui_lib_scheme \<Rightarrow> envelope list \<Rightarrow> string list" where
  "timeline_lines L es = concat (map (\<lambda>e.
    [(case clock_text L (env_ts e) of None \<Rightarrow> ''??:??'' | Some t \<Rightarrow> t) @ ''  '' @ author_text e,
     (case body_text e of None \<Rightarrow> ''[non-text message]'' | Some t \<Rightarrow> t),
     []]) es)"

definition wrapped_line_count :: "'x tui_lib_scheme \<Rightarrow> string list \<Rightarrow> nat \<Rightarrow> nat" where
  "wrapped_line_count L lines width =
    (let w = max width 1 in sum_list (map (\<lambda>l. (max (line_width L l) 1 + w - 1) div w) lines))"

text \<open>What drawing the time line in an area of the given width and height changes; \<open>-\<close> on \<open>nat\<close> saturates.\<close>

definition render_timeline :: "'x tui_lib_scheme \<Rightarrow> nat \<Rightarrow> nat \<Rightarrow> app \<Rightarrow> app" where
  "render_timeline L width height a =
    (let count = wrapped_line_count L (timeline_lines L (a_messages a)) (width - 2);
         top = word_of_nat (min (count - (height - 2)) 65535)
     in a\<lparr>a_max_scroll := top, a_scroll := (if a_follow_tail a then top else min (a_scroll a) top)\<rparr>)"

definition timeline_title :: "app \<Rightarrow> string" where
  "timeline_title a = '' '' @ (case channel a of None \<Rightarrow> ''No channel'' | Some c \<Rightarrow> c)
    @ dot @ a_visibility a @ dot @ a_role a @ (if a_audit a then dot @ ''AUDIT'' else []) @ '' ''"

definition highlighted :: "app \<Rightarrow> nat option" where
  "highlighted a = (if a_channels a = [] then None else Some (a_selected a))"

definition footer_text :: "app \<Rightarrow> string" where
  "footer_text a =
    (case a_mode a of
       NormalMode \<Rightarrow>
         a_status a
         @ (if a_policy_conflicts a = 0 \<and> a_moderation_conflicts a = 0 then []
            else dot @ ''conflicts policy:'' @ show_nat (a_policy_conflicts a)
              @ '' moderation:'' @ show_nat (a_moderation_conflicts a))
         @ dot @ a_connection a @ dot @ a_listener a @ [CHR 10]
         @ of_bytes [0xE2, 0x86, 0x91, 0xE2, 0x86, 0x93]
         @ '' channel  j/k scroll  p post  s sync  a audit  r refresh  q quit''
     | PostMode \<Rightarrow> ''Post: '' @ a_input a @ [CHR 10] @ ''Enter submit'' @ dot @ ''Esc cancel''
     | PeerMode \<Rightarrow> ''Peer: '' @ a_input a @ [CHR 10] @ ''Enter sync'' @ dot @ ''Esc cancel'')"

section \<open>The main loop\<close>

text \<open>What the environment has for one turn: what other tasks have done to the files, a shutdown signal, the events that have come in, whether the
  interval of the local refresh has passed, the size of the time line or an error of the terminal, and
  the key pressed, if any, or an error.\<close>

record turn =
  t_world :: "node_fs \<Rightarrow> node_fs"
  t_shutdown :: bool
  t_events :: "auto_sync_event list"
  t_refresh :: bool
  t_area :: "(nat \<times> nat) result"
  t_key :: "key_event option result"
  t_draws :: mcp_draws

definition local_refresh :: "'x tui_lib_scheme \<Rightarrow> metadata \<Rightarrow> bool \<Rightarrow> ui \<Rightarrow> ui" where
  "local_refresh L meta due u =
    (if \<not> due then u
     else case refresh_if_local_state_changed L meta u of
       (Inl e, u') \<Rightarrow> set_status (''local refresh failed: '' @ error_chain L e) u'
     | (Inr _, u') \<Rightarrow> u')"

text \<open>A key press and its action; the result is the synchronization to start.\<close>

definition press ::
  "'x tui_lib_scheme \<Rightarrow> metadata \<Rightarrow> mcp_draws \<Rightarrow> (string \<Rightarrow> string \<Rightarrow> u64 io) \<Rightarrow> key_event
    \<Rightarrow> (string \<times> string) option ui_io"
where
  "press L meta d sync key =
    bindS (handle_key L meta key) (\<lambda>act.
    case act of
      SyncAction value \<Rightarrow>
        with_app (\<lambda>a.
        bindS (liftS (from_option (App NoChannelSelected) (channel a))) (\<lambda>c.
        bindS (on_disk (add_peer L (a_datadir a) value None)) (\<lambda>record.
        bindS (on_disk (readS (list_peers L (a_datadir a)))) (\<lambda>peers.
        bindS (modify (\<lambda>a. a\<lparr>a_peers := peers, a_status := ''syncing'' @ dot @ peer_url record\<rparr>)) (\<lambda>_.
        okS (Some (peer_url record, c)))))))
    | _ \<Rightarrow> bindS (apply_action L meta d sync act) (\<lambda>_. okS None))"

definition loop_turn ::
  "'x tui_lib_scheme \<Rightarrow> metadata \<Rightarrow> (string \<Rightarrow> string \<Rightarrow> u64 io) \<Rightarrow> turn \<Rightarrow> (string \<times> string) option ui_io" where
  "loop_turn L meta sync t u =
    (let u0 = (fst u, t_world t (snd u)) in
     if t_shutdown t then (Inr None, ((fst u0)\<lparr>a_quit := True\<rparr>, snd u0))
     else let u1 = local_refresh L meta (t_refresh t) (fold (apply_auto_sync L meta) (t_events t) u0) in
       case t_area t of
         Inl e \<Rightarrow> (Inl e, u1)
       | Inr (width, height) \<Rightarrow>
           let u2 = (render_timeline L width height (fst u1), snd u1) in
           (case t_key t of
              Inl e \<Rightarrow> (Inl e, u2)
            | Inr None \<Rightarrow> (Inr None, u2)
            | Inr (Some key) \<Rightarrow> press L meta (t_draws t) sync key u2))"

text \<open>The loop over the turns the environment has: the synchronizations it has spawned by the time it ends, in
  order, and how it ends. Nothing waits for them or keeps a handle on them.\<close>

fun loop_turns ::
  "'x tui_lib_scheme \<Rightarrow> metadata \<Rightarrow> (string \<Rightarrow> string \<Rightarrow> u64 io) \<Rightarrow> turn list \<Rightarrow> ui
    \<Rightarrow> (string \<times> string) list \<times> unit result \<times> ui" where
  "loop_turns L meta sync [] u = ([], Inr (), u)"
| "loop_turns L meta sync (t # ts) u =
    (if a_quit (fst u) then ([], Inr (), u)
     else case loop_turn L meta sync t u of
       (Inl e, u1) \<Rightarrow> ([], Inl e, u1)
     | (Inr None, u1) \<Rightarrow> loop_turns L meta sync ts u1
     | (Inr (Some job), u1) \<Rightarrow> (let (jobs, r, u2) = loop_turns L meta sync ts u1 in (job # jobs, r, u2)))"

text \<open>The result of the loop, with the synchronizations spawned when it ends without an error.\<close>

definition run_loop ::
  "'x tui_lib_scheme \<Rightarrow> metadata \<Rightarrow> (string \<Rightarrow> string \<Rightarrow> u64 io) \<Rightarrow> turn list \<Rightarrow> (string \<times> string) list ui_io" where
  "run_loop L meta sync ts u =
    (case loop_turns L meta sync ts u of (jobs, r, u') \<Rightarrow> (bindR r (\<lambda>_. Inr jobs), u'))"

lemma run_loop_simps [simp]:
  "run_loop L meta sync [] = okS []"
  "run_loop L meta sync (t # ts) =
    with_app (\<lambda>a. if a_quit a then okS []
      else bindS (loop_turn L meta sync t) (\<lambda>job.
           bindS (run_loop L meta sync ts) (\<lambda>jobs.
           okS ((case job of None \<Rightarrow> [] | Some j \<Rightarrow> [j]) @ jobs))))"
  by (rule ext; auto simp: run_loop_def with_app_def okS_def bindS_def bindR_def
      split: sum.splits option.splits prod.splits)+

end
