(* ===== verification/Commands.thy ===== *)
theory Commands
  imports Tui
begin

text \<open>
  The command line, \<open>src/main.rs\<close>: the commands, what each one does to the node's files and prints, and
  the creation of the node's identity. The servers that run until they are stopped (\<open>serve\<close>, \<open>mcp\<close>,
  \<open>tui\<close>) are outcomes here: \<open>Mcp.run_stdio\<close> and \<open>Tui.run_loop\<close> are what two of them go on to do. How clap
  reads the command line is not modelled.
\<close>

section \<open>Commands\<close>

datatype role_arg = ModeratorArg | WriterArg | ReaderArg

datatype visibility_arg = PublicArg | PrivateArg

definition policy_role_of :: "role_arg \<Rightarrow> policy_role" where
  "policy_role_of role = (case role of ModeratorArg \<Rightarrow> Moderator | WriterArg \<Rightarrow> Writer | ReaderArg \<Rightarrow> Reader)"

definition visibility_of :: "visibility_arg \<Rightarrow> channel_visibility" where
  "visibility_of v = (case v of PublicArg \<Rightarrow> Public | PrivateArg \<Rightarrow> Private)"

datatype command =
    Keygen string "string option"
  | Init "string option" "string option"
  | Identity
  | ChannelCreate string
  | ChannelPolicy string
  | ChannelPolicyHistory string
  | ChannelPolicyRebuild string
  | ChannelPolicyConflicts string
  | ChannelPolicyResolve string string
  | ChannelRestrict string
  | ChannelGrant string role_arg string
  | ChannelRevoke string role_arg string
  | ChannelTransferOwner string string
  | ChannelVisibility string visibility_arg
  | ModerateTombstone string string "string option"
  | ModerateRestore string string
  | ModerationHistory string
  | ModerationConflicts string
  | ModerationResolve string string
  | PostText string "string option" "string list" string "string list"
  | Tail string nat bool
  | Serve string
  | ServeMcp
  | PeerAdd string string
  | PeerList
  | PeerRemove string
  | RunTui "string option"
  | SyncChannel string "string option" string

text \<open>Lines printed, or the server that the process turns into.\<close>

datatype outcome = Printed "string list" | Serving string | ServingMcp | ShowingTui "string option"

text \<open>\<open>serde_json::to_string_pretty\<close> of the values printed.\<close>

record cli_lib = tui_lib +
  policy_pretty :: "channel_policy \<Rightarrow> string"
  policy_events_pretty :: "policy_event list \<Rightarrow> string"
  moderation_state_pretty :: "moderation_state \<Rightarrow> string"
  moderation_events_pretty :: "moderation_event list \<Rightarrow> string"

text \<open>What a command may draw: the clock, twice, the seed of an identity, a channel key and a nonce.\<close>

record cli_draws =
  cd_now :: i64
  cd_later :: i64
  cd_seed :: bytes
  cd_key :: bytes
  cd_nonce :: bytes

section \<open>Identity\<close>

text \<open>\<open>Path::parent\<close>; the current directory is the empty path.\<close>

definition parent :: "string \<Rightarrow> string" where
  "parent p =
    (let up = rev (dropWhile (\<lambda>c. c = CHR ''/'') (dropWhile (\<lambda>c. c \<noteq> CHR ''/'') (rev p)))
     in if up = [] \<and> p \<noteq> [] \<and> hd p = CHR ''/'' then ''/'' else up)"

definition initialize_identity ::
  "'x proto_lib_scheme \<Rightarrow> bytes \<Rightarrow> string \<Rightarrow> string option \<Rightarrow> string option \<Rightarrow> keypair io" where
  "initialize_identity L seed dir import_path alias =
    bindS (readS (\<lambda>n. guardR (\<not> path_exists (identity_path dir) n) (App IdentityExists))) (\<lambda>_.
    bindS (case import_path of
             Some path \<Rightarrow> readS (Identity_File.load L path)
           | None \<Rightarrow> okS (generate L seed alias)) (\<lambda>identity.
    bindS (init_layout dir) (\<lambda>_.
    bindS (save L (path_join dir ''keys'') (identity_path dir) identity) (\<lambda>_.
    okS identity))))"

section \<open>Dispatch\<close>

definition on_channel :: "string \<Rightarrow> (channel_ref \<Rightarrow> 'a io) \<Rightarrow> 'a io" where
  "on_channel c f = bindS (liftS (parse_channel c)) f"

definition as_owner ::
  "'x proto_lib_scheme \<Rightarrow> string \<Rightarrow> string \<Rightarrow> (channel_ref \<Rightarrow> keypair \<Rightarrow> 'a io) \<Rightarrow> 'a io" where
  "as_owner L dir c f =
    on_channel c (\<lambda>chan. bindS (readS (load_secure L (identity_path dir))) (\<lambda>identity. f chan identity))"

definition printing :: "('a \<Rightarrow> string list) \<Rightarrow> 'a io \<Rightarrow> outcome io" where
  "printing f m = bindS m (\<lambda>x. okS (Printed (f x)))"

definition message_line :: "envelope \<Rightarrow> string" where
  "message_line e =
    show_i64 (env_ts e) @ '' | '' @ (case env_from_alias e of None \<Rightarrow> [] | Some a \<Rightarrow> a) @ '' | '' @ env_id e
    @ [CHR 10] @ (case body_text e of None \<Rightarrow> [] | Some t \<Rightarrow> t) @ [CHR 10]"

text \<open>\<open>sync peer channel\<close> is the session of \<open>sync_from_peer\<close> with the peer, on the files as they are then.\<close>

definition sync_command ::
  "'x peer_lib_scheme \<Rightarrow> (string \<Rightarrow> string \<Rightarrow> u64 io) \<Rightarrow> string \<Rightarrow> string \<Rightarrow> string option \<Rightarrow> string \<Rightarrow> u64 io" where
  "sync_command L sync dir peer key c =
    bindS (case key of
             Some k \<Rightarrow> bindS (add_peer L dir peer (Some k)) (\<lambda>_. okS ())
           | None \<Rightarrow> bindS (readS (expected_peer_key L dir peer)) (\<lambda>expected.
               liftS (guardR (expected \<noteq> None) (App PinRequired)))) (\<lambda>_.
    sync peer c)"

definition run_command ::
  "'x cli_lib_scheme \<Rightarrow> cli_draws \<Rightarrow> (string \<Rightarrow> string \<Rightarrow> u64 io) \<Rightarrow> string \<Rightarrow> command \<Rightarrow> outcome io" where
  "run_command L d sync dir command =
    (case command of
       Keygen out alias \<Rightarrow>
         printing (\<lambda>_. [''wrote '' @ out]) (save L (parent out) out (generate L (cd_seed d) alias))
     | Init key alias \<Rightarrow>
         printing (\<lambda>_. [''initialized '' @ dir]) (initialize_identity L (cd_seed d) dir key alias)
     | Identity \<Rightarrow>
         printing (\<lambda>i. (''public key: '' @ public_key i) # (case key_alias i of None \<Rightarrow> [] | Some a \<Rightarrow> [''alias: '' @ a]))
           (readS (load_secure L (identity_path dir)))
     | ChannelCreate name \<Rightarrow>
         printing (\<lambda>_. [''channel created: '' @ name]) (on_channel name (create_channel dir))
     | ChannelPolicy c \<Rightarrow>
         printing (\<lambda>p. [policy_pretty L p]) (on_channel c (\<lambda>chan. readS (read_channel_policy L dir chan)))
     | ChannelPolicyHistory c \<Rightarrow>
         printing (\<lambda>es. [policy_events_pretty L es]) (on_channel c (\<lambda>chan. readS (read_policy_history L dir chan)))
     | ChannelPolicyRebuild c \<Rightarrow>
         printing (\<lambda>p. [policy_pretty L p]) (on_channel c (rebuild_policy_cache L dir))
     | ChannelPolicyConflicts c \<Rightarrow>
         printing (\<lambda>heads. heads) (on_channel c (\<lambda>chan. readS (\<lambda>n. Inr (list_policy_conflicts dir chan n))))
     | ChannelPolicyResolve c head \<Rightarrow>
         printing (\<lambda>p. [policy_pretty L p]) (on_channel c (\<lambda>chan. resolve_policy_conflict L dir chan head))
     | ChannelRestrict c \<Rightarrow>
         printing (\<lambda>p. [policy_pretty L p])
           (as_owner L dir c (\<lambda>chan i. restrict_channel L (cd_now d) (cd_later d) dir chan i))
     | ChannelGrant c role key \<Rightarrow>
         printing (\<lambda>p. [policy_pretty L p])
           (as_owner L dir c (\<lambda>chan i. grant_role L (cd_now d) (cd_later d) dir chan i (policy_role_of role) key))
     | ChannelRevoke c role key \<Rightarrow>
         printing (\<lambda>p. [policy_pretty L p])
           (as_owner L dir c (\<lambda>chan i.
              revoke_role L (cd_now d) (cd_later d) (cd_key d) dir chan i (policy_role_of role) key))
     | ChannelTransferOwner c key \<Rightarrow>
         printing (\<lambda>p. [policy_pretty L p])
           (as_owner L dir c (\<lambda>chan i. transfer_ownership L (cd_now d) (cd_later d) (cd_key d) dir chan i key))
     | ChannelVisibility c v \<Rightarrow>
         printing (\<lambda>p. [policy_pretty L p])
           (as_owner L dir c (\<lambda>chan i.
              set_channel_visibility L (cd_now d) (cd_later d) (cd_key d) dir chan i (visibility_of v)))
     | ModerateTombstone c target reason \<Rightarrow>
         printing (\<lambda>st. [moderation_state_pretty L st])
           (as_owner L dir c (\<lambda>chan i. tombstone_message L (cd_now d) dir chan i target reason))
     | ModerateRestore c target \<Rightarrow>
         printing (\<lambda>st. [moderation_state_pretty L st])
           (as_owner L dir c (\<lambda>chan i. restore_message L (cd_now d) dir chan i target))
     | ModerationHistory c \<Rightarrow>
         printing (\<lambda>es. [moderation_events_pretty L es])
           (on_channel c (\<lambda>chan. readS (read_moderation_history L dir chan)))
     | ModerationConflicts c \<Rightarrow>
         printing (\<lambda>heads. heads) (on_channel c (\<lambda>chan. readS (\<lambda>n. Inr (list_moderation_conflicts dir chan n))))
     | ModerationResolve c head \<Rightarrow>
         printing (\<lambda>st. [moderation_state_pretty L st])
           (on_channel c (\<lambda>chan. resolve_moderation_conflict L dir chan head))
     | PostText c title tags body refs \<Rightarrow>
         printing (\<lambda>i. [''posted '' @ c @ '' -> '' @ i])
           (as_owner L dir c (\<lambda>chan kp.
              bindS (sign_message_for_channel L (cd_key d) (cd_nonce d) dir chan kp
                (new_text (cd_now d) title tags body refs)) (\<lambda>env.
              append_message L dir chan env)))
     | Tail c k include_tombstoned \<Rightarrow>
         printing (map message_line)
           (as_owner L dir c (\<lambda>chan i.
              bindS (readS (authorize_read L dir chan (public_key i))) (\<lambda>_.
              read_channel_tail_decrypted_with_options L dir chan k include_tombstoned)))
     | Serve listen \<Rightarrow> okS (Serving listen)
     | ServeMcp \<Rightarrow> okS ServingMcp
     | PeerAdd u key \<Rightarrow>
         bindS (add_peer L dir u (Some key)) (\<lambda>peer.
         bindS (liftS (from_option Panicked (peer_key peer))) (\<lambda>k.
         okS (Printed [''peer pinned: '' @ peer_url peer @ '' -> '' @ k])))
     | PeerList \<Rightarrow>
         printing (map (\<lambda>peer. peer_url peer @ '' | ''
             @ (case peer_key peer of None \<Rightarrow> ''UNPINNED'' | Some k \<Rightarrow> k)))
           (readS (list_peer_records L dir))
     | PeerRemove u \<Rightarrow>
         bindS (remove_peer L dir u) (\<lambda>removed.
         bindS (liftS (normalize_peer_url L u)) (\<lambda>v.
         okS (Printed [(if removed then ''peer removed: '' else ''peer not found: '') @ v])))
     | RunTui listen \<Rightarrow> okS (ShowingTui listen)
     | SyncChannel peer key c \<Rightarrow>
         printing (\<lambda>received. [''synced '' @ show_nat (unat received) @ '' messages from '' @ peer
             @ '' for channel '' @ [CHR 39] @ c @ [CHR 39]])
           (sync_command L sync dir peer key c))"

end
