(* ===== verification/Reference_Lib.thy ===== *)
theory Reference_Lib
  imports Reference_Codecs Sync_Server_Proofs Commands
begin

text \<open>
  One concrete instance of the third-party functions, \<open>lib0\<close>, and the proof that it has every
  property the theorems of the development assume of a library: the hypotheses are satisfiable
  together. Hexadecimal is the real encoding; the others are simple executable stand-ins with the
  documented behaviour (a signature is the key with the digest, a sealed box is a digest of key,
  nonce and associated data before the text), of no cryptographic strength.
\<close>

section \<open>Encodings and ciphers\<close>

definition hex0 :: "bytes \<Rightarrow> string" where
  "hex0 bs = of_bytes (concat (map (\<lambda>b. [nibble (unat b div 16), nibble (unat b mod 16)]) bs))"

fun unhex_bytes :: "bytes \<Rightarrow> bytes option" where
  "unhex_bytes [] = Some []"
| "unhex_bytes [x] = None"
| "unhex_bytes (x # y # r) =
    (case (unnibble x, unnibble y, unhex_bytes r) of
       (Some h, Some l, Some bs) \<Rightarrow> Some (word_of_nat (16 * h + l) # bs)
     | _ \<Rightarrow> None)"

definition unhex0 :: "string \<Rightarrow> bytes option" where
  "unhex0 s = unhex_bytes (as_bytes s)"

definition digest0 :: "bytes \<Rightarrow> bytes" where
  "digest0 bs =
    replicate 8 7 @ to_be_bytes (word_of_nat (length bs)) @ to_be_bytes (foldl (\<lambda>h b. 131 * h + ucast b) 0 bs)
      @ to_be_bytes (foldl (\<lambda>h b. 257 * h + ucast b) 0 bs)"

definition seal0 :: "bytes \<Rightarrow> bytes \<Rightarrow> bytes \<Rightarrow> bytes \<Rightarrow> bytes option" where
  "seal0 k n a m = Some (digest0 (k @ n @ a) @ m)"

definition open0 :: "bytes \<Rightarrow> bytes \<Rightarrow> bytes \<Rightarrow> bytes \<Rightarrow> bytes option" where
  "open0 k n a c = (if take 32 c = digest0 (k @ n @ a) then Some (drop 32 c) else None)"

section \<open>JSON values\<close>

text \<open>Printed as trees; a request is read from the tree of its id, method and parameters, with names and texts
  alone as parameters.\<close>

fun json_sexp :: "json \<Rightarrow> sexp" where
  "json_sexp Null = Atom ''null''"
| "json_sexp (Bool b) = Pair (Atom ''bool'') (Atom (if b then ''true'' else ''false''))"
| "json_sexp (Number (PosInt n)) = Pair (Atom ''number'') (Atom (show_nat (unat n)))"
| "json_sexp (Number (NegInt n)) = Pair (Atom ''number'') (Atom (show_i64 n))"
| "json_sexp (Number (Float n)) = Pair (Atom ''float'') (Atom (show_nat (unat n)))"
| "json_sexp (Str s) = Pair (Atom ''string'') (Atom s)"
| "json_sexp (Arr xs) = Pair (Atom ''array'') (foldr (\<lambda>x t. Pair (json_sexp x) t) xs (Atom []))"
| "json_sexp (Obj kvs) = Pair (Atom ''object'') (foldr (\<lambda>kv t. Pair (Pair (Atom (fst kv)) (json_sexp (snd kv))) t) kvs (Atom []))"

definition json_text :: "json \<Rightarrow> string" where
  "json_text v = of_bytes (sexp_enc (json_sexp v))"

definition opt_str :: "string \<Rightarrow> json \<Rightarrow> string option" where
  "opt_str k v = Option.bind (value_get k v) as_str"

definition strs :: "string \<Rightarrow> json \<Rightarrow> string list" where
  "strs k v = (case value_get k v of Some (Arr xs) \<Rightarrow> List.map_filter as_str xs | _ \<Rightarrow> [])"

definition request_c :: "(string option \<times> string \<times> (string \<times> string) list) codec" where
  "request_c = pair_c (option_c string_c) (pair_c string_c (list_c (pair_c string_c string_c)))"

definition request0 :: "string option \<times> string \<times> (string \<times> string) list \<Rightarrow> rpc_request" where
  "request0 = (\<lambda>(i, m, ps). \<lparr>jr_jsonrpc = Some jsonrpc_version, jr_id = map_option Str i, jr_method = m,
     jr_params = obj (map (\<lambda>(k, v). (k, Str v)) ps)\<rparr>)"

definition response_json0 :: "rpc_response \<Rightarrow> bytes" where
  "response_json0 r = sexp_enc (json_sexp (obj
    ([(''jsonrpc'', Str (rr_jsonrpc r)), (''id'', rr_id r)]
     @ (case rr_result r of None \<Rightarrow> [] | Some v \<Rightarrow> [(''result'', v)])
     @ (case rr_error r of None \<Rightarrow> [] | Some e \<Rightarrow> [(''error'', Str (re_message e))]))))"

definition envelope_value0 :: "envelope \<Rightarrow> json" where
  "envelope_value0 e = obj [(''id'', Str (env_id e)), (''channel'', Str (env_channel e)), (''from'', Str (env_from e))]"

definition tail_args0 :: "json \<Rightarrow> tail_channel_args option" where
  "tail_args0 v =
    (case (opt_str ''channel'' v, value_get ''limit'' v) of
       (Some c, Some (Number (PosInt k))) \<Rightarrow> Some \<lparr>ta_channel = c, ta_limit = unat k\<rparr>
     | _ \<Rightarrow> None)"

definition post_args0 :: "json \<Rightarrow> post_message_args option" where
  "post_args0 v =
    (case (opt_str ''channel'' v, opt_str ''body'' v) of
       (Some c, Some b) \<Rightarrow> Some \<lparr>pa_channel = c, pa_title = opt_str ''title'' v, pa_body = b,
         pa_tags = strs ''tags'' v, pa_refs = strs ''refs'' v\<rparr>
     | _ \<Rightarrow> None)"

section \<open>The library\<close>

definition lib0 :: cli_lib where
  "lib0 = \<lparr>
    hex_encode = hex0, hex_decode = unhex0,
    b64_encode = of_bytes, b64_decode = \<lambda>s. Some (as_bytes s),
    blake3 = digest0,
    ed_keypair_bytes = \<lambda>sk. sk @ sk,
    ed_from_keypair = \<lambda>bs. Some (take 32 bs),
    ed_public = \<lambda>sk. sk,
    ed_sign = \<lambda>sk m. take 32 sk @ digest0 m,
    ed_key_ok = \<lambda>pk. length pk = 32,
    ed_verify = \<lambda>pk m sig. sig = pk @ digest0 m,
    message_json = put message_c, envelope_json = put envelope_c, envelope_of_json = get envelope_c,
    keypair_json = put keypair_c, keypair_of_json = get keypair_c,
    keyring_json = put (list_c channel_key_c), keyring_of_json = get (list_c channel_key_c),
    offer_payload_json = put offer_payload_c,
    aead_seal = seal0, aead_open = open0,
    sha512 = \<lambda>sk. sk @ sk,
    x25519 = map2 (+), contributory = \<lambda>_. True,
    ed_to_montgomery = \<lambda>pk. Some (clamp_scalar pk),
    policy_payload_json = put policy_payload_c,
    policy_event_json = put policy_event_c, policy_event_of_json = get policy_event_c,
    policy_json = put policy_c, policy_of_json = get policy_c,
    moderation_payload_json = put moderation_payload_c,
    moderation_event_json = put moderation_event_c, moderation_event_of_json = get moderation_event_c,
    moderation_state_json = put moderation_state_c,
    url_parse = \<lambda>s. get url_c (as_bytes s), url_to_string = \<lambda>u. of_bytes (put url_c u),
    peer_config_json = put peer_config_c, peer_config_of_json = get_line peer_config_c,
    challenge_json = put (tagged ''challenge'' challenge_c),
    challenge_of_json = get (tagged ''challenge'' challenge_c),
    peer_status_of_json = get peer_status_c,
    status_json = put (tagged ''status'' status_c), status_of_json = get (tagged ''status'' status_c),
    policy_sync_json = put (tagged ''policy'' policy_sync_c),
    policy_sync_of_json = get (tagged ''policy'' policy_sync_c),
    moderation_sync_json = put (tagged ''moderation'' moderation_sync_c),
    moderation_sync_of_json = get (tagged ''moderation'' moderation_sync_c),
    key_sync_json = put (tagged ''keys'' key_sync_c), key_sync_of_json = get (tagged ''keys'' key_sync_c),
    chunk_diff_json = put (tagged ''diff'' chunk_diff_c), chunk_diff_of_json = get (tagged ''diff'' chunk_diff_c),
    chunk_batch_json = put (tagged ''batch'' chunk_batch_c),
    chunk_batch_of_json = get (tagged ''batch'' chunk_batch_c),
    want_json = put (tagged ''want'' want_c), want_of_json = get (tagged ''want'' want_c),
    response_json = put (tagged ''response'' response_c), response_of_json = get (tagged ''response'' response_c),
    hash_order = \<lambda>xs. xs,
    header_str = \<lambda>bs. if list_all printable bs then Some (of_bytes bs) else None,
    request_of_json = \<lambda>bs. map_option request0 (get request_c bs),
    request_error = \<lambda>_. ''not a request'',
    rpc_response_json = response_json0,
    value_json = json_text,
    envelope_value = envelope_value0,
    tail_args_of_value = tail_args0, post_args_of_value = post_args0,
    args_error = \<lambda>_. ''not the arguments'',
    error_text = \<lambda>_. ''failed'',
    canonicalize = Inr,
    error_chain = \<lambda>_. ''failed'',
    line_width = length,
    clock_text = \<lambda>_. None,
    policy_pretty = \<lambda>p. of_bytes (put policy_c p),
    policy_events_pretty = \<lambda>es. of_bytes (put (list_c policy_event_c) es),
    moderation_state_pretty = \<lambda>st. of_bytes (put moderation_state_c st),
    moderation_events_pretty = \<lambda>es. of_bytes (put (list_c moderation_event_c) es)\<rparr>"

lemma length_digest0 [simp]: "length (digest0 bs) = 32"
  by (simp add: digest0_def)

lemma digest0_length: "length a < 2 ^ 64 \<Longrightarrow> length b < 2 ^ 64 \<Longrightarrow> digest0 a = digest0 b \<Longrightarrow> length a = length b"
proof -
  assume r: "length a < 2 ^ 64" "length b < 2 ^ 64" and "digest0 a = digest0 b"
  then have "to_be_bytes (word_of_nat (length a)) = to_be_bytes (word_of_nat (length b))"
    unfolding digest0_def by simp
  then have "(word_of_nat (length a) :: u64) = word_of_nat (length b)"
    by (metis from_be_bytes_to_be_bytes)
  then show "length a = length b" using r by (simp add: word_of_nat_eq_iff take_bit_eq_mod)
qed

lemma unhex_hex: "unhex_bytes (concat (map (\<lambda>b. [nibble (unat b div 16), nibble (unat b mod 16)]) bs)) = Some bs"
proof (induction bs)
  case Nil
  then show ?case by simp
next
  case (Cons b bs)
  have "unat b < 256" using unsigned_less [of b, where 'a = nat] by simp
  then have "unat b div 16 < 16" "unat b mod 16 < 16" by linarith+
  moreover have "16 * (unat b div 16) + unat b mod 16 = unat b" by simp
  ultimately show ?case using Cons by simp
qed

lemma lib0_crypto: "crypto_ok lib0"
  by (simp add: crypto_ok_def hex_ok_def b64_ok_def hash_ok_def ed25519_ok_def lib0_def
      hex0_def unhex0_def unhex_hex)

lemma lib0_keyring: "keyring_json_ok lib0"
  unfolding keyring_json_ok_def by (simp add: lib0_def get_put codec_intros)

lemma lib0_aead: "aead_ok lib0"
  by (simp add: aead_ok_def lib0_def seal0_def open0_def)

lemma map2_commute: "map2 (+) xs ys = map2 (+) ys (xs :: bytes)"
  by (rule nth_equalityI) (simp_all add: add.commute)

lemma lib0_dh: "dh_ok lib0"
proof -
  have "clamp_scalar (sk @ sk) = clamp_scalar sk" if "length sk = 32" for sk :: bytes
    using that by (simp add: clamp_scalar_def)
  then show ?thesis
    by (simp add: dh_ok_def lib0_def map2_commute)
qed

lemma length_hex0 [simp]: "length (hex0 bs) = 2 * length bs"
  by (induction bs) (auto simp: hex0_def of_bytes_def)

lemma length_of_bytes [simp]: "length (of_bytes bs) = length bs"
  by (simp add: of_bytes_def)

lemma lib0_policy_json: "policy_json_ok lib0"
  by (simp add: policy_json_ok_def policy_event_json_ok_def lib0_def get_put codec_intros put_record
      put_utf8 put_not_blank)

lemma lib0_envelope_json: "envelope_json_ok lib0"
  by (simp add: envelope_json_ok_def lib0_def get_put codec_intros put_record whitespace_line_def
      put_not_whitespace)

lemma nibble_char: "n < 16 \<Longrightarrow> char_of (unat (nibble n)) \<in> set hex_chars"
proof -
  assume "n < 16"
  then have "n \<in> {0..<16}" by simp
  moreover have "\<forall>n \<in> {0..<16}. char_of (unat (nibble n)) \<in> set hex_chars" by code_simp
  ultimately show ?thesis by blast
qed

lemma lib0_hex_alphabet: "hex_alphabet lib0"
proof -
  have "list_all (\<lambda>c. c \<in> set hex_chars) (hex0 bs)" for bs
  proof (induction bs)
    case Nil
    then show ?case by (simp add: hex0_def of_bytes_def)
  next
    case (Cons b bs)
    have "unat b < 256" using unsigned_less [of b, where 'a = nat] by simp
    then have "unat b div 16 < 16" "unat b mod 16 < 16" by linarith+
    with Cons show ?case by (simp add: hex0_def of_bytes_def nibble_char)
  qed
  then show ?thesis by (simp add: hex_alphabet_def lib0_def)
qed

lemma lib0_moderation_json: "moderation_json_ok lib0"
  by (simp add: moderation_json_ok_def lib0_def get_put codec_intros put_record put_utf8 put_not_blank)

lemma unhex_bytes_digits: "unhex_bytes bs = Some ds \<Longrightarrow> list_all (\<lambda>b. unnibble b \<noteq> None) bs"
  by (induction bs arbitrary: ds rule: unhex_bytes.induct) (auto split: option.splits)

lemma unnibble_hex_digit: "unnibble (word_of_nat (of_char c)) \<noteq> None \<Longrightarrow> hex_digit c"
  by (auto simp: unnibble_def hex_digit_def less_eq_char_def Let_def split: if_splits)

lemma lib0_hex_strict: "hex_strict lib0"
proof -
  have "hex_digit c" if "unhex_bytes (as_bytes s) = Some ds" "c \<in> set s" for s ds c
    using unhex_bytes_digits [OF that(1)] that(2) unnibble_hex_digit
    by (auto simp: list_all_iff as_bytes_def)
  then show ?thesis by (auto simp: hex_strict_def lib0_def unhex0_def list_all_iff)
qed

lemma put_printable: "list_all printable (put c x)"
proof -
  have "visible b \<Longrightarrow> printable b" for b
    by (auto simp: visible_def printable_def word_le_nat_alt word_less_nat_alt)
  then show ?thesis using visible_enc by (fastforce simp: put_def list_all_iff)
qed

lemma lib0_peer: "peer_lib_ok lib0"
proof -
  have "url_ok lib0"
    by (simp add: url_ok_def lib0_def get_put codec_intros put_printable)
  moreover have "peer_json_ok lib0"
    by (simp add: peer_json_ok_def lib0_def get_line_put codec_intros)
  ultimately show ?thesis using lib0_hex_strict by (simp add: peer_lib_ok_def)
qed

lemma lib0_frames: "frames_ok lib0"
  by (simp add: frames_ok_def lib0_def get_put codec_intros get_tagged_other get_tagged_envelope)

lemma lib0_hash_order: "hash_order_ok lib0"
  by (simp add: hash_order_ok_def lib0_def)

lemma lib0_header: "header_ok lib0"
  by (simp add: header_ok_def lib0_def)

lemma lib0_keypair_json: "keypair_json_ok lib0"
  by (simp add: keypair_json_ok_def lib0_def get_put codec_intros)

end
