(* ===== verification/Witnesses.thy ===== *)
theory Witnesses
  imports Reference_Lib
begin

text \<open>
  Every theorem of the development that has hypotheses, applied at a concrete node: the library
  \<open>lib0\<close>, the channel \<open>ops\<close>, an owner and a member with fixed keys, and the histories and files they
  produce by running the model's own operations.
\<close>

section \<open>A concrete node\<close>

definition chan0 :: channel_ref where
  "chan0 = \<lparr>full_name = ''ops''\<rparr>"

definition base0 :: string where
  "base0 = ''node''"

definition owner0 :: keypair where
  "owner0 = generate lib0 (replicate 32 1) None"

definition member0 :: keypair where
  "member0 = generate lib0 (replicate 32 2) None"

definition fs0 :: node_fs where
  "fs0 = \<lparr>files = [], dirs = [''node/channels/ops''], dbs = []\<rparr>"

definition key0 :: channel_key where
  "key0 = \<lparr>ck_id = content_id lib0 (replicate 32 5), ck_key = b64_encode lib0 (replicate 32 5)\<rparr>"

definition fs_key0 :: node_fs where
  "fs_key0 = snd (generate_channel_key lib0 (replicate 32 5) base0 ''ops'' fs0)"

definition restrict0 :: policy_event where
  "restrict0 = projr (sign_policy_event lib0 10 chan0 owner0 None (Restrict (public_key owner0)))"

definition grant0 :: policy_event where
  "grant0 = projr (sign_policy_event lib0 11 chan0 owner0 (Some (pe_id restrict0))
    (Grant Moderator (public_key member0)))"

definition message0 :: message where
  "message0 = new_text 5 None [] ''hi'' []"

definition policy0 :: channel_policy where
  "policy0 = default_policy\<lparr>mode := Restricted, owner := Some (public_key owner0)\<rparr>"

definition policy1 :: channel_policy where
  "policy1 = policy0\<lparr>moderators := [public_key member0]\<rparr>"

lemmas lib0_ok = lib0_crypto lib0_keyring lib0_aead lib0_dh

lemma paths0: "valid_channel ''ops''" "channel_to_path base0 ''ops'' = ''node/channels/ops''"
  by (simp_all add: valid_channel_def name_char_def less_eq_char_def base0_def channel_to_path_def path_join_def)

lemma keys0 [simp]:
  "public_key owner0 = hex_encode lib0 (replicate 32 1)"
  "public_key member0 = hex_encode lib0 (replicate 32 2)"
  by (simp_all add: owner0_def member0_def generate_def lib0_def)

lemma validate_keys0 [simp]:
  "validate_public_key lib0 (hex_encode lib0 (replicate 32 b)) = Inr ()"
proof -
  have "hex_decode lib0 (hex_encode lib0 (replicate 32 b)) = Some (replicate 32 b)"
    using lib0_crypto by (simp add: crypto_ok_def hex_ok_def)
  then show ?thesis by (simp add: validate_public_key_def)
qed

lemma keys0_distinct [simp]: "hex_encode lib0 (replicate 32 1) \<noteq> hex_encode lib0 (replicate 32 2)"
  "hex_encode lib0 (replicate 32 2) \<noteq> hex_encode lib0 (replicate 32 1)"
proof -
  have "replicate 32 (1 :: byte) \<noteq> replicate 32 2" by (simp add: eval_nat_numeral)
  then show "hex_encode lib0 (replicate 32 1) \<noteq> hex_encode lib0 (replicate 32 2)"
    "hex_encode lib0 (replicate 32 2) \<noteq> hex_encode lib0 (replicate 32 1)"
    using lib0_crypto by (simp_all add: crypto_ok_def hex_encode_inj)
qed

lemma signed0:
  "sign_policy_event lib0 now chan0 owner0 q act =
     Inr (projr (sign_policy_event lib0 now chan0 owner0 q act))
   \<and> (\<forall>p. policy_step lib0 chan0 p q (projr (sign_policy_event lib0 now chan0 owner0 q act)) =
        apply_policy_action lib0 p (public_key owner0) act)"
  using sign_policy_event_ok [OF lib0_crypto, of "replicate 32 1" now chan0 None q act]
  by (auto simp: owner0_def)

lemma restrict0_step [simp]:
  "policy_step lib0 chan0 p None restrict0 =
    apply_policy_action lib0 p (public_key owner0) (Restrict (public_key owner0))"
  using signed0 unfolding restrict0_def by blast

lemma grant0_step [simp]:
  "policy_step lib0 chan0 p (Some (pe_id restrict0)) grant0 =
    apply_policy_action lib0 p (public_key owner0) (Grant Moderator (public_key member0))"
  using signed0 unfolding grant0_def by blast

lemma history0 [simp]:
  "derive_policy lib0 chan0 [restrict0] = Inr policy0"
  "derive_policy lib0 chan0 [restrict0, grant0] = Inr policy1"
  by (simp_all add: derive_policy_def policy0_def policy1_def default_policy_def bindR_def
      authorize_policy_change_def members_def set_members_def)

lemma fs_key0_ok:
  "load_keys lib0 base0 ''ops'' fs0 = Inr []"
  "generate_channel_key lib0 (replicate 32 5) base0 ''ops'' fs0 = (Inr key0, fs_key0)"
  "load_keys lib0 base0 ''ops'' fs_key0 = Inr [key0]"
  "keyring_wf lib0 []" "keyring_wf lib0 [key0]"
  "lock_keyring base0 ''ops'' fs0 = Inr ()"
proof -
  have "\<exists>s. save_keys lib0 base0 ''ops'' [key0] fs0 = (Inr (), s)"
    by (simp add: save_keys_def replace_file_def paths0 dir_exists_def fs0_def)
  then obtain s1 where save: "save_keys lib0 base0 ''ops'' [key0] fs0 = (Inr (), s1)" by blast
  show e: "load_keys lib0 base0 ''ops'' fs0 = Inr []"
    by (simp add: load_keys_def file_exists_def fs0_def)
  show l: "lock_keyring base0 ''ops'' fs0 = Inr ()"
    by (simp add: lock_keyring_def paths0 dir_exists_def fs0_def)
  have gen: "generate_channel_key lib0 (replicate 32 5) base0 ''ops'' fs0 = (Inr key0, s1)"
    unfolding generate_channel_key_def Let_def bindS_readS e l key0_def [symmetric]
    using save by (simp add: bindS_def okS_def)
  then show "generate_channel_key lib0 (replicate 32 5) base0 ''ops'' fs0 = (Inr key0, fs_key0)"
    by (simp add: fs_key0_def)
  have "fs_key0 = s1" using gen by (simp add: fs_key0_def)
  then show "load_keys lib0 base0 ''ops'' fs_key0 = Inr [key0]"
    using load_after_save [OF lib0_keyring save] by simp
  show "keyring_wf lib0 []" by (simp add: keyring_wf_def)
  show "keyring_wf lib0 [key0]"
    using key_ok_new [of lib0 "replicate 32 5"] lib0_crypto
    by (simp add: keyring_wf_def key0_def crypto_ok_def)
qed

section \<open>A channel with a log\<close>

definition fs_log0 :: node_fs where
  "fs_log0 = fs0\<lparr>files := [(log_path base0 chan0, [])]\<rparr>"

definition fs_legacy0 :: node_fs where
  "fs_legacy0 = fs_log0\<lparr>files := tput (policy_path base0 chan0) (policy_json lib0 policy0) (files fs_log0)\<rparr>"

definition fs_restricted0 :: node_fs where
  "fs_restricted0 = snd (append_policy_action lib0 9 10 base0 chan0 owner0
     (Restrict (public_key owner0)) fs_log0)"

definition fs_conflict0 :: node_fs where
  "fs_conflict0 = snd (save_policy_conflict lib0 base0 chan0 [restrict0] fs_log0)"

definition env0 :: envelope where
  "env0 = projr (sign lib0 owner0 ''ops'' message0)"

definition fs_env0 :: node_fs where
  "fs_env0 = snd (append_message lib0 base0 chan0 env0 fs_log0)"

definition fs_indexed0 :: node_fs where
  "fs_indexed0 = put_db (index_path base0 chan0) (index_of lib0 []) fs_log0"

lemma fs_log0_files [simp]:
  "tget (files fs_log0) p = (if p = log_path base0 chan0 then Some [] else None)"
  "file_exists p fs_log0 \<longleftrightarrow> p = log_path base0 chan0"
  "dir_exists (channel_dir base0 chan0) fs_log0"
  by (auto simp: fs_log0_def file_exists_def tget_def dir_exists_def fs0_def channel_dir_def
      chan0_def paths0)

lemma fs_log0_policy [simp]:
  "policy_log_complete base0 chan0 fs_log0"
  "read_policy_history_unlocked lib0 base0 chan0 fs_log0 = Inr []"
  "read_policy_history lib0 base0 chan0 fs_log0 = Inr []"
  "read_policy_cache lib0 base0 chan0 fs_log0 = Inr default_policy"
  "read_channel_policy lib0 base0 chan0 fs_log0 = Inr default_policy"
  "open_log base0 chan0 fs_log0 = Inr []"
  by (simp_all add: policy_log_complete_def read_policy_history_unlocked_def read_policy_history_def
      open_history_lock_def read_policy_cache_def read_channel_policy_def open_log_def read_file_def Let_def)

lemma restrict0_signed [simp]:
  "sign_policy_event lib0 10 chan0 owner0 None (Restrict (hex_encode lib0 (replicate 32 1))) = Inr restrict0"
  using signed0 [of 10 None "Restrict (public_key owner0)"] by (simp add: restrict0_def)

lemma fs_restricted0_ok:
  "append_policy_action lib0 9 10 base0 chan0 owner0 (Restrict (public_key owner0)) fs_log0
     = (Inr policy0, fs_restricted0)"
  "policy_written lib0 base0 chan0 [restrict0] policy0 fs_restricted0"
proof -
  have ev: "policy_event_json_ok lib0" using lib0_policy_json by (simp add: policy_json_ok_def)
  obtain s1 s2 where w: "append_policy_lines lib0 base0 chan0 [restrict0] fs_log0 = (Inr (), s1)"
      "write_policy_cache lib0 base0 chan0 policy0 s1 = (Inr (), s2)"
      "policy_written lib0 base0 chan0 [restrict0] policy0 s2"
    using extend_history_ok [OF ev fs_log0_policy(1) fs_log0_files(3) fs_log0_policy(2),
        of "[restrict0]" policy0] history0(1) by auto
  have "mode default_policy = Open" by (simp add: default_policy_def)
  then have run: "append_policy_action lib0 9 10 base0 chan0 owner0 (Restrict (public_key owner0)) fs_log0
      = (Inr policy0, s2)"
    by (simp add: append_policy_action_def bindS_readS bindS_liftS open_history_lock_def
        new_policy_events_def last_id_def okS_def
        bindS_step [where m = "append_policy_lines lib0 base0 chan0 [restrict0]", OF w(1)]
        bindS_step [where m = "write_policy_cache lib0 base0 chan0 policy0", OF w(2)])
  then show "append_policy_action lib0 9 10 base0 chan0 owner0 (Restrict (public_key owner0)) fs_log0
     = (Inr policy0, fs_restricted0)" by (simp add: fs_restricted0_def)
  show "policy_written lib0 base0 chan0 [restrict0] policy0 fs_restricted0"
    using w(3) run by (simp add: fs_restricted0_def)
qed

lemma owner0_signs: "signing_key lib0 owner0 = Inr (replicate 32 1)"
  using lib0_crypto by (simp add: owner0_def generate_signing_key crypto_ok_def)

lemma env0_fields:
  "env0 = \<lparr>env_id = content_id lib0 (message_json lib0 message0), env_channel = ''ops'',
     env_from = hex_encode lib0 (replicate 32 1), env_from_alias = None, env_ts = 5,
     env_sig = hex_encode lib0 (ed_sign lib0 (replicate 32 1) (signed_payload ''ops'' (message_json lib0 message0))),
     env_msg = message0\<rparr>"
  by (simp add: env0_def sign_def owner0_signs Let_def message0_def new_text_def)
    (simp add: owner0_def generate_def)

lemma env0_verify: "verify lib0 env0 = Inr ()" "env_channel env0 = full_name chan0"
proof -
  obtain e where "sign lib0 owner0 ''ops'' message0 = Inr e" "verify lib0 e = Inr ()"
    using sign_verifies [OF lib0_crypto, of "replicate 32 1" None "''ops''" message0]
    by (auto simp: owner0_def)
  then show "verify lib0 env0 = Inr ()" by (simp add: env0_def)
  show "env_channel env0 = full_name chan0" by (simp add: env0_fields chan0_def)
qed

lemma env0_short: "length (log_bytes lib0 ([] @ [env0])) < 2 ^ 64"
proof -
  have "sexp_bound (fst envelope_c env0) < 10000"
    unfolding env0_fields
    by (simp add: envelope_c_def message_c_def map_c_def pair_c_def string_c_def option_c_def list_c_def
        word_c_def kind_c_def enum_c_def body_c_def message0_def new_text_def content_id_def)
       (simp add: lib0_def)
  then have "length (envelope_json lib0 env0) < 10000"
    using length_enc [of "fst envelope_c env0"] by (simp add: lib0_def put_def)
  then show ?thesis by simp
qed

lemma fs_log0_rel:
  "log_rel lib0 base0 chan0 [] fs_log0" "log_rel lib0 base0 chan0 [] fs_indexed0"
  "get_db (index_path base0 chan0) fs_indexed0 = index_of lib0 []"
proof -
  have "get_db (index_path base0 chan0) fs_log0 = empty_db"
    by (simp add: get_db_def fs_log0_def fs0_def)
  then show "log_rel lib0 base0 chan0 [] fs_log0"
    by (simp add: log_rel_def log_wf_def index_ok_def index_current_def empty_db_def)
  show "get_db (index_path base0 chan0) fs_indexed0 = index_of lib0 []"
    by (simp add: fs_indexed0_def)
  then show "log_rel lib0 base0 chan0 [] fs_indexed0"
    using rebuild_written [OF lib0_envelope_json lib0_crypto, of "[]"]
    by (simp add: log_rel_def log_wf_def index_ok_def) (simp add: fs_indexed0_def)
qed

lemma fs_env0_ok:
  "append_message lib0 base0 chan0 env0 fs_log0 = (Inr (env_id env0), fs_env0)"
  "log_rel lib0 base0 chan0 [env0] fs_env0"
proof -
  obtain r s' where run: "append_message lib0 base0 chan0 env0 fs_log0 = (r, s')" by fastforce
  have "is_ok (authorize_append lib0 base0 chan0 (env_from env0) fs_log0)"
    by (simp add: authorize_append_def policy_allows_append_def default_policy_def)
  then have "r = Inr (env_id env0) \<and> log_rel lib0 base0 chan0 [env0] s'"
    using append_message_result [OF lib0_envelope_json lib0_crypto fs_log0_rel(1) env0_short run]
      env0_verify by (cases r) (simp_all add: log_append_def)
  then show "append_message lib0 base0 chan0 env0 fs_log0 = (Inr (env_id env0), fs_env0)"
    "log_rel lib0 base0 chan0 [env0] fs_env0"
    using run by (simp_all add: fs_env0_def)
qed

section \<open>Names and envelopes\<close>

theorem channel_file_inj_witness:
  "channel_file base0 ''ops'' ''log.ndjson'' \<noteq> channel_file base0 ''ops/x'' ''log.ndjson''"
  using channel_file_inj [of "''ops''" "''ops/x''" "''log.ndjson''" "''log.ndjson''" base0]
  by (simp add: valid_channel_def name_char_def less_eq_char_def)

theorem parse_channel_contained_witness:
  "''..'' \<notin> set (segments ''ops'')"
  using parse_channel_contained [of "''ops''" chan0]
  by (simp add: parse_channel_def paths0 chan0_def)

theorem sign_verify_roundtrip_witness:
  "\<exists>e. sign lib0 owner0 ''ops'' message0 = Inr e \<and> verify lib0 e = Inr ()"
  using sign_verify_roundtrip [OF lib0_crypto, of "replicate 32 1" None "''ops''" message0]
  by (auto simp: owner0_def)

theorem signed_payload_binds_witness:
  "signed_payload ''ops'' [1] \<noteq> signed_payload ''ops/x'' [1]"
  using signed_payload_binds [of "''ops''" "''ops/x''" "[1]" "[1]"]
  by (auto simp: valid_channel_def name_char_def less_eq_char_def)

section \<open>Keys\<close>

theorem generate_channel_key_rotates_witness:
  "current_channel_key lib0 base0 ''ops'' fs_key0 = Inr key0"
  using generate_channel_key_rotates [OF lib0_crypto lib0_keyring _ fs_key0_ok(1,4,2)] by simp

theorem encrypt_decrypt_roundtrip_witness:
  "\<exists>m'. encrypt_message lib0 (replicate 24 9) base0 ''ops'' message0 fs_key0 = Inr m'
    \<and> msg_body m' \<noteq> msg_body message0"
proof -
  have "msg_body message0 = Text ''hi''" "utf8_valid (as_bytes ''hi'')"
    by (simp add: message0_def new_text_def, code_simp)
  then show ?thesis
    using encrypt_decrypt_roundtrip [OF lib0_crypto lib0_aead fs_key0_ok(3,5) _ _ _ _ fs_key0_ok(3,5),
        of "replicate 24 9" message0 "''hi''" "\<lparr>env_id = [], env_channel = ''ops'', env_from = [],
          env_from_alias = None, env_ts = 0, env_sig = [], env_msg = message0\<rparr>"]
    by auto
qed

theorem accept_key_offers_safe_witness:
  "case accept_key_offers lib0 base0 ''ops'' member0 [] fs_key0 of
     (Inl e, s) \<Rightarrow> s = fs_key0 | (Inr n, s) \<Rightarrow> \<exists>new. load_keys lib0 base0 ''ops'' s = Inr (key0 # new)"
  using accept_key_offers_safe [OF lib0_crypto lib0_keyring fs_key0_ok(3,5),
      of member0 "[]" "fst (accept_key_offers lib0 base0 ''ops'' member0 [] fs_key0)"
        "snd (accept_key_offers lib0 base0 ''ops'' member0 [] fs_key0)"]
  by (auto split: prod.splits sum.splits)

theorem key_exchange_complete_witness:
  "\<exists>offers n s'. make_key_offers lib0 (\<lambda>_. replicate 24 9) base0 ''ops'' owner0 (public_key member0) fs_key0
      = Inr offers
    \<and> accept_key_offers lib0 base0 ''ops'' member0 offers fs0 = (Inr n, s')
    \<and> (\<exists>keys. load_keys lib0 base0 ''ops'' s' = Inr keys \<and> set (map ck_id keys) = {ck_id key0})"
  using key_exchange_complete [OF lib0_crypto lib0_aead lib0_dh lib0_keyring, of "replicate 32 1"
      "replicate 32 2" "\<lambda>_. replicate 24 9" base0 "''ops''" fs_key0 "[key0]" base0 fs0 "[]" None None]
    fs_key0_ok
  unfolding owner0_def member0_def by fastforce

section \<open>Policies\<close>

theorem derive_policy_wf_witness: "policy_wf policy1"
  using derive_policy_wf [OF history0(2)] by blast

theorem policy_change_authority_witness:
  "owner policy0 = Some (pe_actor grant0)
   \<or> pe_actor grant0 \<in> set (moderators policy0)"
  using policy_change_authority [OF history0(1), of grant0 policy1]
  by (auto simp: policy0_def)

theorem restriction_is_permanent_witness: "mode policy1 = Restricted"
  using restriction_is_permanent [OF history0(1), of "[grant0]" policy1] by (simp add: policy0_def)

theorem derive_policy_chain_witness: "linked pe_id pe_previous None [restrict0, grant0]"
  using derive_policy_chain [OF history0(2)] by blast

theorem signed_event_replays_witness:
  "\<exists>e. derive_policy lib0 chan0 [restrict0, e] =
      apply_policy_action lib0 policy0 (public_key owner0) (SetVisibility Private)"
  using signed_event_replays [OF lib0_crypto _ history0(1), of "replicate 32 1" 12 None "SetVisibility Private"]
  by (auto simp: owner0_def)

theorem grant_revoke_effect_witness:
  "set (members Moderator policy1) = insert (public_key member0) (set (members Moderator policy0))"
proof -
  have "apply_policy_action lib0 policy0 (public_key owner0) (Grant Moderator (public_key member0)) = Inr policy1"
    by (simp add: policy0_def policy1_def default_policy_def authorize_policy_change_def
        members_def set_members_def bindR_def)
  from conjunct1 [OF grant_revoke_effect [OF this disjI1 [OF refl]]] show ?thesis
    by (simp only: if_True refl)
qed

theorem transfer_ownership_effect_witness:
  "\<exists>p'. apply_policy_action lib0 policy1 (public_key owner0) (TransferOwner (public_key member0)) = Inr p'
    \<and> owner p' = Some (public_key member0) \<and> moderators p' = []"
proof -
  let ?p' = "policy1\<lparr>owner := Some (public_key member0), moderators := [], writers := [], readers := []\<rparr>"
  have "apply_policy_action lib0 policy1 (public_key owner0) (TransferOwner (public_key member0)) = Inr ?p'"
    by (simp add: policy0_def policy1_def default_policy_def bindR_def)
  then show ?thesis
    using conjunct1 [OF conjunct2 [OF transfer_ownership_effect
        [of lib0 policy1 "public_key owner0" "public_key member0" ?p']]] by fastforce
qed

theorem append_implies_read_witness: "policy_allows_read policy1 (public_key owner0)"
  using append_implies_read [OF history0(2), of "public_key owner0"]
  by (simp add: policy_allows_append_def policy1_def policy0_def)

section \<open>Policy files\<close>

theorem append_policy_action_atomic_witness:
  "\<exists>es new. read_policy_history lib0 base0 chan0 fs_log0 = Inr es \<and> new \<noteq> []
    \<and> policy_written lib0 base0 chan0 (es @ new) policy0 fs_restricted0"
  using append_policy_action_atomic [OF lib0_policy_json fs_log0_policy(1) fs_restricted0_ok(1)]
  by auto

lemma fs_restricted0_policy:
  "policy_log_complete base0 chan0 fs_restricted0"
  "read_channel_policy lib0 base0 chan0 fs_restricted0 = Inr policy0"
  using fs_restricted0_ok(2) by (simp_all add: policy_written_def)

theorem append_remote_extends_witness:
  "case append_remote_policy_history lib0 base0 chan0 [restrict0] fs_log0 of
     (Inl err, s') \<Rightarrow> s' = fs_log0
   | (Inr p, s') \<Rightarrow> policy_written lib0 base0 chan0 [restrict0] p s'"
  using append_remote_extends [OF lib0_policy_json fs_log0_policy(1), of "[restrict0]"]
  by (fastforce simp: no_policy_collision_def split: prod.split sum.split)

theorem empty_remote_history_opens_legacy_witness:
  "read_channel_policy lib0 base0 chan0 fs_legacy0 = Inr policy0
   \<and> (\<exists>s'. append_remote_policy_history lib0 base0 chan0 [] fs_legacy0 = (Inr default_policy, s')
     \<and> read_channel_policy lib0 base0 chan0 s' = Inr default_policy)"
proof -
  have f: "open_log base0 chan0 fs_legacy0 = Inr []" "dir_exists (channel_dir base0 chan0) fs_legacy0"
    "\<not> file_exists (policy_log_path base0 chan0) fs_legacy0"
    "read_file (policy_path base0 chan0) fs_legacy0 = Inr (policy_json lib0 policy0)"
    by (simp_all add: fs_legacy0_def open_log_def read_file_def)
  have "policy_of_json lib0 (policy_json lib0 policy0) = Some policy0"
    using lib0_policy_json by (simp add: policy_json_ok_def)
  moreover have "version policy0 = 1" "visibility policy0 = Public" "moderators policy0 = []"
    "writers policy0 = []" "readers policy0 = []" "owner policy0 = Some (hex_encode lib0 (replicate 32 1))"
    by (simp_all add: policy0_def default_policy_def)
  ultimately have "read_channel_policy lib0 base0 chan0 fs_legacy0 = Inr policy0"
    using f(3,4) by (simp add: read_channel_policy_def read_policy_cache_def file_exists_read validate_keys_def)
  then show ?thesis
    using empty_remote_history_opens_legacy [OF lib0_policy_json _ f(2,3)] f(1) by auto
qed

theorem save_policy_conflict_keeps_witness:
  "case save_policy_conflict lib0 base0 chan0 [restrict0] fs_log0 of
     (Inl err, s') \<Rightarrow> False
   | (Inr head, s') \<Rightarrow> read_policy_conflict lib0 base0 chan0 head s' = Inr [restrict0]"
  using save_policy_conflict_keeps [OF lib0_policy_json lib0_hex_alphabet fs_log0_files(3), of "[restrict0]"]
  by (auto split: prod.split sum.split)

theorem resolve_policy_conflict_preserves_witness:
  "case resolve_policy_conflict lib0 base0 chan0 (pe_id restrict0) fs_conflict0 of
     (Inl err, s') \<Rightarrow> s' = fs_conflict0
   | (Inr p, s') \<Rightarrow> read_channel_policy lib0 base0 chan0 s' = Inr p"
  using resolve_policy_conflict_preserves [OF lib0_policy_json lib0_hex_alphabet,
      of base0 chan0 "pe_id restrict0" fs_conflict0]
  by (fastforce simp: policy_written_def split: prod.split sum.split)

section \<open>The message log\<close>

theorem append_message_refines_witness: "log_rel lib0 base0 chan0 (log_append [] env0) fs_env0"
  using append_message_refines [OF lib0_envelope_json lib0_crypto fs_log0_rel(1) env0_short fs_env0_ok(1)]
  by simp

theorem read_message_by_id_refines_witness:
  "\<exists>s'. read_message_by_id lib0 base0 chan0 (env_id env0) fs_env0 = (Inr env0, s')"
  using read_message_by_id_refines [OF lib0_envelope_json lib0_crypto fs_env0_ok(2), of "env_id env0"] by auto

theorem incremental_index_is_rebuilt_witness:
  "index_insert lib0 (index_of lib0 []) (env_id env0) 0 (word_of_nat (record_len lib0 env0))
     (word_of_nat (length (log_bytes lib0 [env0]))) = rebuild_index lib0 (log_bytes lib0 [env0])"
  using incremental_index_is_rebuilt [OF lib0_envelope_json lib0_crypto, of "[]" env0 "index_of lib0 []"]
    env0_verify(1) rebuild_written [OF lib0_envelope_json lib0_crypto, of "[]"] by simp

theorem interrupted_append_recovers_witness:
  "\<exists>s1 s2. append_file (log_path base0 chan0) (envelope_json lib0 env0 @ [10]) fs_indexed0 = (Inr (), s1)
    \<and> read_message_by_id lib0 base0 chan0 (env_id env0) s1 = (Inr env0, s2)"
proof -
  have new: "env_id env0 \<notin> env_id ` set []" by simp
  obtain s1 where s1: "append_file (log_path base0 chan0) (envelope_json lib0 env0 @ [10]) fs_indexed0 = (Inr (), s1)"
    using append_record_rel [OF fs_log0_rel(2,3) env0_verify new env0_short] by blast
  then show ?thesis
    using interrupted_append_recovers [OF lib0_envelope_json lib0_crypto fs_log0_rel(2,3) env0_verify new
        env0_short s1] by blast
qed

theorem chunk_ids_exact_witness:
  "\<exists>s' ids. chunk_ids lib0 base0 chan0 7 fs_env0 = (Inr ids, s') \<and> distinct ids"
  using chunk_ids_exact [OF lib0_envelope_json lib0_crypto fs_env0_ok(2), of 7] by blast

theorem summaries_compare_sets_witness:
  "\<exists>cs s'. chunk_summaries lib0 base0 chan0 fs_env0 = (Inr cs, s')"
  using summaries_compare_sets [OF lib0_envelope_json lib0_crypto fs_env0_ok(2) fs_env0_ok(2)]
  by (auto simp: no_bucket_collision_def)

section \<open>Moderation\<close>

text \<open>A channel with one message whose ownership has passed from \<open>owner0\<close> to \<open>member0\<close>.\<close>

definition transfer0 :: policy_event where
  "transfer0 = projr (sign_policy_event lib0 12 chan0 owner0 (Some (pe_id restrict0))
    (TransferOwner (public_key member0)))"

definition policy2 :: channel_policy where
  "policy2 = policy0\<lparr>owner := Some (public_key member0)\<rparr>"

lemma transfer0_step [simp]:
  "policy_step lib0 chan0 p (Some (pe_id restrict0)) transfer0 =
    apply_policy_action lib0 p (public_key owner0) (TransferOwner (public_key member0))"
  using signed0 unfolding transfer0_def by blast

lemma history1 [simp]: "derive_policy lib0 chan0 [restrict0, transfer0] = Inr policy2"
proof -
  have "derive_policy lib0 chan0 ([restrict0] @ [transfer0]) = Inr policy2"
    unfolding derive_policy_snoc
    by (simp add: last_id_def policy2_def policy0_def default_policy_def bindR_def)
  then show ?thesis by simp
qed

definition fs_with :: "policy_event list \<Rightarrow> node_fs" where
  "fs_with es = fs_env0\<lparr>files := tput (policy_log_path base0 chan0)
     (write_lines (policy_event_json lib0) es) (files fs_env0)\<rparr>"

definition fs_history0 :: node_fs where
  "fs_history0 = fs_with [restrict0, transfer0]"

lemma fs_env0_outside: "same_outside {log_path base0 chan0, index_path base0 chan0} fs_log0 fs_env0"
  by (rule append_message_outside [OF fs_env0_ok(1)])

lemma fs_with_read:
  assumes "is_ok (derive_policy lib0 chan0 es)"
  shows "read_policy_history lib0 base0 chan0 (fs_with es) = Inr es"
    and "log_rel lib0 base0 chan0 [env0] (fs_with es)"
    and "moderation_log_complete base0 chan0 (fs_with es)"
    and "read_moderation_history lib0 base0 chan0 (fs_with es) = Inr []"
proof -
  have d: "dir_exists (channel_dir base0 chan0) (fs_with es)"
    using fs_log0_files(3) fs_env0_outside by (simp add: dir_exists_def fs_with_def same_outside_def)
  have ev: "policy_event_json_ok lib0" using lib0_policy_json by (simp add: policy_json_ok_def)
  have "tget (files (fs_with es)) (policy_log_path base0 chan0) = Some (write_lines (policy_event_json lib0) es)"
    by (simp add: fs_with_def)
  then have "read_policy_history_unlocked lib0 base0 chan0 (fs_with es) = Inr es"
    using assms by (simp add: read_unlocked_file parse_policy_written [OF ev])
  then show "read_policy_history lib0 base0 chan0 (fs_with es) = Inr es"
    using d by (simp add: read_policy_history_def open_history_lock_def)
  show "log_rel lib0 base0 chan0 [env0] (fs_with es)"
    using fs_env0_ok(2) by (simp add: log_rel_def fs_with_def get_db_def)
  have m: "tget (files (fs_with es)) (moderation_log_path base0 chan0) = None"
    using fs_env0_outside moderation_paths(3) [THEN not_sym] by (simp add: fs_with_def same_outside_def)
  then show "moderation_log_complete base0 chan0 (fs_with es)"
    by (simp add: moderation_log_complete_def)
  show "read_moderation_history lib0 base0 chan0 (fs_with es) = Inr []"
    using d by (simp add: read_moderation_history_def open_history_lock_def read_moderation_none [OF m])
qed

lemma fs_history0_read:
  "read_policy_history lib0 base0 chan0 fs_history0 = Inr [restrict0, transfer0]"
  "log_rel lib0 base0 chan0 [env0] fs_history0"
  "moderation_log_complete base0 chan0 fs_history0"
  "read_moderation_history lib0 base0 chan0 fs_history0 = Inr []"
  using fs_with_read [of "[restrict0, transfer0]"] by (simp_all add: fs_history0_def)

lemma derive_moderation0 [simp]: "derive_moderation lib0 base0 chan0 [] fs_history0 = Inr []"
  by (simp add: derive_moderation_def fs_history0_read(1))

definition tombstone0 :: moderation_event where
  "tombstone0 = projr (sign_moderation_event lib0 20 chan0 owner0 None (pe_id restrict0)
    (Tombstone (hex_encode lib0 (replicate 32 7)) None))"

lemma roles0:
  "may_moderate policy0 (public_key owner0)" "\<not> may_moderate policy2 (public_key owner0)"
  "may_moderate policy2 (public_key member0)"
  by (simp_all add: may_moderate_def policy2_def policy0_def default_policy_def)

lemma tombstone0_ok: "is_ok (derive_policy lib0 chan0 (restrict0 # extra)) \<Longrightarrow>
    derive_moderation lib0 base0 chan0 [tombstone0] (fs_with (restrict0 # extra)) =
      Inr [(hex_encode lib0 (replicate 32 7), None)]"
proof -
  assume ok: "is_ok (derive_policy lib0 chan0 (restrict0 # extra))"
  obtain e where e: "sign_moderation_event lib0 20 chan0 owner0 None (pe_id restrict0)
      (Tombstone (hex_encode lib0 (replicate 32 7)) None) = Inr e"
    "\<forall>ph. moderation_step lib0 chan0 (restrict0 # ph) [] None e =
      apply_moderation lib0 [] (Tombstone (hex_encode lib0 (replicate 32 7)) None)"
    using sign_moderation_event_ok [OF lib0_crypto, of "replicate 32 1" 20 chan0 None None "pe_id restrict0"
        "Tombstone (hex_encode lib0 (replicate 32 7)) None"] roles0(1)
    unfolding owner0_def by fastforce
  then have "tombstone0 = e" by (simp add: tombstone0_def)
  then show ?thesis
    using e(2) by (simp add: derive_moderation_def fs_with_read(1) [OF ok])
qed

lemma tombstone0_history:
  "derive_moderation lib0 base0 chan0 [tombstone0] fs_history0 = Inr [(hex_encode lib0 (replicate 32 7), None)]"
  using tombstone0_ok [of "[transfer0]"] by (simp add: fs_history0_def)

theorem last_moderation_decides_witness: "hidden_by [tombstone0] (hex_encode lib0 (replicate 32 7)) = Some None"
  using last_moderation_decides [OF tombstone0_history, of "hex_encode lib0 (replicate 32 7)"]
  by (simp add: tget_def)

theorem moderation_authority_witness:
  "verify_bytes lib0 (me_actor tombstone0) (me_sig tombstone0)
     (moderation_domain @ moderation_payload_json lib0 (moderation_payload_of tombstone0)) = Inr ()"
  using moderation_authority [OF tombstone0_history, of tombstone0] by auto

theorem moderation_stable_witness:
  "derive_moderation lib0 base0 chan0 [tombstone0] (fs_with ([restrict0] @ [transfer0])) =
    Inr [(hex_encode lib0 (replicate 32 7), None)]"
  by (rule moderation_stable [OF fs_with_read(1) tombstone0_ok fs_with_read(1)]) simp_all

theorem revoked_moderator_still_accepted_witness:
  "\<exists>e. derive_moderation lib0 base0 chan0 [e] fs_history0 =
      Inr [(hex_encode lib0 (replicate 32 7), None)]
    \<and> \<not> may_moderate policy2 (public_key owner0)"
  using revoked_moderator_still_accepted [OF lib0_crypto, of "replicate 32 1" base0 chan0 fs_history0
      "[restrict0, transfer0]" "[]" "[]" policy2 None "pe_id restrict0" 0 policy0
      "hex_encode lib0 (replicate 32 7)" 21 None] fs_history0_read(1) roles0
  by (auto simp: owner0_def)

theorem tombstone_message_effect_witness:
  "case tombstone_message lib0 21 base0 chan0 member0 (env_id env0) None fs_history0 of
     (Inl err, s') \<Rightarrow> files s' = files fs_history0
   | (Inr st, s') \<Rightarrow> log_rel lib0 base0 chan0 [env0] s' \<and> tget st (env_id env0) = Some None"
  using tombstone_message_effect [OF lib0_moderation_json lib0_envelope_json lib0_crypto
      fs_history0_read(2,3), of 21 member0 "env_id env0" None]
  by (fastforce split: prod.split sum.split)

theorem append_remote_moderation_extends_witness:
  "case append_remote_moderation_history lib0 base0 chan0 [tombstone0] fs_history0 of
     (Inl err, s') \<Rightarrow> s' = fs_history0
   | (Inr st, s') \<Rightarrow> moderation_written lib0 base0 chan0 [tombstone0] st s'"
  using append_remote_moderation_extends [OF lib0_moderation_json fs_history0_read(3), of "[tombstone0]"]
  by (fastforce simp: fs_history0_read(4) no_moderation_collision_def split: prod.split sum.split)

section \<open>Views of a channel\<close>

theorem read_channel_tail_newest_visible_witness:
  "\<exists>s'. read_channel_tail lib0 base0 chan0 1 fs_history0 = (Inr [env0], s')"
proof -
  have "moderation_state lib0 base0 chan0 fs_history0 = Inr []"
    by (simp add: moderation_state_def fs_history0_read(4))
  from read_channel_tail_newest_visible [OF lib0_envelope_json lib0_crypto fs_history0_read(2) _ this, of 1]
  show ?thesis by (auto simp: last_n_def tget_def)
qed

theorem list_channels_exact_witness:
  "list_channels base0 (fs_log0\<lparr>dirs := [''node/channels'']\<rparr>) = [''ops'']"
proof -
  let ?s = "fs_log0\<lparr>dirs := [''node/channels'']\<rparr>"
  have f: "file_exists p ?s \<longleftrightarrow> p = log_path base0 chan0" for p
    using fs_log0_files(2) by (simp add: file_exists_def)
  have "tsorted (files ?s)" by (simp add: fs_log0_def tsorted_def)
  moreover have "dir_exists (path_join base0 ''channels'') ?s"
    by (simp add: dir_exists_def path_join_def base0_def)
  ultimately have "set (list_channels base0 ?s) = {c. valid_channel c \<and> log_path base0 \<lparr>full_name = c\<rparr> = log_path base0 chan0}"
    "distinct (list_channels base0 ?s)" "sorted (list_channels base0 ?s)"
    using list_channels_exact [of ?s base0] f by simp_all
  moreover have "{c. valid_channel c \<and> log_path base0 \<lparr>full_name = c\<rparr> = log_path base0 chan0} = {''ops''}"
    using channel_of_path_log [of _ base0] paths0(1) by (auto simp: chan0_def) (metis option.inject)
  ultimately show ?thesis
    using sorted_distinct_set_unique [of "list_channels base0 ?s" "[''ops'']"] by simp
qed

definition fs_private0 :: node_fs where
  "fs_private0 = fs_key0\<lparr>files :=
     tput (policy_path base0 chan0) (policy_json lib0 (policy0\<lparr>visibility := Private\<rparr>)) (files fs_key0)\<rparr>"

lemma fs_private0_ok:
  "read_channel_policy lib0 base0 chan0 fs_private0 = Inr (policy0\<lparr>visibility := Private\<rparr>)"
  "\<exists>e s'. sign_message_for_channel lib0 raw (replicate 24 9) base0 chan0 owner0 message0 fs_private0 = (Inr e, s')"
  "policy_log_complete base0 chan0 fs_private0"
proof -
  have w: "writes_only {keyring_path base0 ''ops''} (generate_channel_key lib0 (replicate 32 5) base0 ''ops'')"
    unfolding generate_channel_key_def save_keys_def Let_def by (intro frame_intros) simp
  have out: "same_outside {keyring_path base0 ''ops''} fs0 fs_key0"
    using writes_onlyD [OF w fs_key0_ok(2)] .
  have other: "policy_log_path base0 chan0 \<noteq> keyring_path base0 ''ops''"
    "policy_path base0 chan0 \<noteq> policy_log_path base0 chan0"
    "policy_path base0 chan0 \<noteq> keyring_path base0 ''ops''"
    by (simp_all add: policy_log_path_def policy_path_def keyring_path_def channel_file_def chan0_def path_join_same)
  have nolog: "\<not> file_exists (policy_log_path base0 chan0) fs_private0"
    using out other(1,2) by (simp add: same_outside_def file_exists_def fs_private0_def fs0_def)
  then show "policy_log_complete base0 chan0 fs_private0"
    by (simp add: policy_log_complete_def file_exists_def split: option.split)
  have "policy_of_json lib0 (policy_json lib0 p) = Some p" for p
    using lib0_policy_json by (simp add: policy_json_ok_def)
  then show policy: "read_channel_policy lib0 base0 chan0 fs_private0 = Inr (policy0\<lparr>visibility := Private\<rparr>)"
    using nolog by (simp add: read_channel_policy_def read_policy_cache_def fs_private0_def
        file_exists_def read_file_def validate_keys_def policy0_def default_policy_def)
  have "load_keys lib0 base0 ''ops'' fs_private0 = load_keys lib0 base0 ''ops'' fs_key0"
    using other(3) [THEN not_sym] by (simp add: load_keys_def fs_private0_def Let_def)
  then have keys: "load_keys lib0 base0 ''ops'' fs_private0 = Inr [key0]" using fs_key0_ok(3) by simp
  have dec: "decode_key lib0 key0 = Inr (replicate 32 5)"
    using lib0_crypto by (simp add: decode_key_def key0_def crypto_ok_def b64_ok_def)
  have "\<exists>m'. encrypt_message lib0 (replicate 24 9) base0 ''ops'' message0 fs_private0 = Inr m'"
    using keys dec by (simp add: encrypt_message_def current_channel_key_def message0_def new_text_def)
      (simp add: lib0_def seal0_def)
  then obtain m' where m': "encrypt_message lib0 (replicate 24 9) base0 ''ops'' message0 fs_private0 = Inr m'"
    by blast
  have "is_ok (sign lib0 owner0 ''ops'' m')"
    using sign_verifies [OF lib0_crypto, of "replicate 32 1" None "''ops''" m']
    by (auto simp: owner0_def is_ok_iff)
  then show "\<exists>e s'. sign_message_for_channel lib0 raw (replicate 24 9) base0 chan0 owner0 message0 fs_private0 = (Inr e, s')"
    using policy keys m'
    by (auto simp: sign_message_for_channel_def bindS_readS bindS_def readS_def liftS_def rotate_if_def okS_def
        chan0_def is_ok_iff)
qed

theorem private_messages_encrypted_witness:
  "\<exists>e s' (key :: channel_key) k t ct. sign_message_for_channel lib0 [] (replicate 24 9) base0 chan0 owner0 message0 fs_private0 = (Inr e, s')
    \<and> aead_seal lib0 k (replicate 24 9) (message_aad ''ops'' (ck_id key)) (as_bytes t) = Some ct
    \<and> msg_body (env_msg e) = Encrypted (ck_id key) (b64_encode lib0 (replicate 24 9)) (b64_encode lib0 ct)"
proof -
  obtain e s' where r: "sign_message_for_channel lib0 [] (replicate 24 9) base0 chan0 owner0 message0 fs_private0 = (Inr e, s')"
    using fs_private0_ok(2) by blast
  have c: "full_name chan0 = ''ops''" by (simp add: chan0_def)
  have "visibility (policy0\<lparr>visibility := Private\<rparr>) = Private" by simp
  from private_messages_encrypted [OF fs_private0_ok(1) this r] obtain key :: channel_key and k t ct where
    "aead_seal lib0 k (replicate 24 9) (message_aad ''ops'' (ck_id key)) (as_bytes t) = Some ct"
    "env_msg e = message0\<lparr>msg_body := Encrypted (ck_id key) (b64_encode lib0 (replicate 24 9)) (b64_encode lib0 ct)\<rparr>"
    unfolding c by blast
  then show ?thesis using r by (intro exI conjI) (assumption, assumption, simp)
qed


end
