(* ===== verification/Witnesses_Sync.thy ===== *)
theory Witnesses_Sync
  imports Witnesses
begin

text \<open>
  The theorems on peers, synchronization and discovery, applied at the node of \<open>Witnesses\<close>.
\<close>

section \<open>Peers\<close>

definition url0 :: url where
  "url0 = \<lparr>url_scheme = ''ws'', url_host = Some ''peer'', url_authority = [], url_path = ''/sync'',
     url_query = None, url_fragment = None\<rparr>"

definition address0 :: string where
  "address0 = url_to_string lib0 url0"

lemma address0_normal [simp]: "normalize_peer_url lib0 address0 = Inr address0"
proof -
  have "list_all printable (as_bytes address0)" "url_parse lib0 address0 = Some url0"
    by (simp_all add: address0_def lib0_def put_printable get_put codec_intros)
  moreover have "clean_url url0 = url0" by (simp add: clean_url_def url0_def)
  ultimately show ?thesis
    unfolding normalize_peer_url_ok
    by (intro exI [of _ url0]) (simp add: trim_printable address0_def url0_def)
qed

lemma no_peers0 [simp]: "list_peer_records lib0 base0 fs0 = Inr []" "base0 \<noteq> []"
  by (simp_all add: list_peer_records_def file_exists_def fs0_def base0_def)

lemma member_key0 [simp]: "validate_peer_key lib0 (hex_encode lib0 (replicate 32 2)) = Inr (hex_encode lib0 (replicate 32 2))"
proof -
  let ?k = "hex_encode lib0 (replicate 32 2)"
  have "list_all printable (as_bytes ?k)" using lib0_hex_alphabet by (rule printable_hex)
  then have "trim ?k = ?k" by (rule trim_printable)
  moreover have "to_ascii_lowercase ?k = ?k"
  proof -
    have "\<forall>c \<in> set hex_chars. \<not> (CHR ''A'' \<le> c \<and> c \<le> CHR ''Z'')"
      by (simp add: hex_chars_def less_eq_char_def)
    moreover have "set ?k \<subseteq> set hex_chars"
      using lib0_hex_alphabet by (auto simp: hex_alphabet_def list_all_iff)
    ultimately show ?thesis unfolding to_ascii_lowercase_def by (intro map_idI) auto
  qed
  moreover have "hex_array lib0 32 ?k = Inr (replicate 32 2)"
    using lib0_crypto by (simp add: crypto_ok_def hex_array_encode)
  ultimately show ?thesis by (simp add: validate_peer_key_def)
qed

lemma add_peer0:
  assumes "validate_optional_key lib0 key = Inr key'"
  shows "\<exists>s'. add_peer lib0 base0 address0 key fs0 = (Inr \<lparr>peer_url = address0, peer_key = key'\<rparr>, s')
    \<and> list_peer_records lib0 base0 s' = Inr [\<lparr>peer_url = address0, peer_key = key'\<rparr>]"
proof -
  have pin: "pin_peer address0 key' [] = Inr [\<lparr>peer_url = address0, peer_key = key'\<rparr>]"
    by (simp add: pin_peer_def find_peer_def)
  obtain s1 where run: "add_peer lib0 base0 address0 key fs0 =
      bindS (write_peers lib0 base0 [\<lparr>peer_url = address0, peer_key = key'\<rparr>])
        (\<lambda>_. liftS (from_option Panicked (find_peer address0 [\<lparr>peer_url = address0, peer_key = key'\<rparr>]))) s1"
    using add_peer_run [OF no_peers0(1) address0_normal assms] pin by auto
  have "validate_optional_key lib0 key' = Inr key'"
    using validate_optional_key_twice lib0_hex_strict assms by blast
  then have "peers_wf lib0 [\<lparr>peer_url = address0, peer_key = key'\<rparr>]" by (simp add: peers_wf_def)
  from write_peers_reads [OF lib0_peer this no_peers0(2)] obtain s2 where w:
    "write_peers lib0 base0 [\<lparr>peer_url = address0, peer_key = key'\<rparr>] s1 = (Inr (), s2)"
    "list_peer_records lib0 base0 s2 = Inr (sort_key peer_url [\<lparr>peer_url = address0, peer_key = key'\<rparr>])" by blast
  then show ?thesis
    using run by (simp add: bindS_step [where m = "write_peers lib0 base0 [\<lparr>peer_url = address0, peer_key = key'\<rparr>]", OF w(1)] liftS_def find_peer_def)
qed

definition pinned0 :: peer_record where
  "pinned0 = \<lparr>peer_url = address0, peer_key = Some (hex_encode lib0 (replicate 32 2))\<rparr>"

definition fs_peer0 :: node_fs where
  "fs_peer0 = snd (add_peer lib0 base0 address0 (Some (hex_encode lib0 (replicate 32 2))) fs0)"

lemma fs_peer0_ok:
  "add_peer lib0 base0 address0 (Some (hex_encode lib0 (replicate 32 2))) fs0 = (Inr pinned0, fs_peer0)"
  "list_peer_records lib0 base0 fs_peer0 = Inr [pinned0]"
  using add_peer0 [of "Some (hex_encode lib0 (replicate 32 2))" "Some (hex_encode lib0 (replicate 32 2))"]
  by (auto simp: validate_optional_key_def fs_peer0_def pinned0_def)

theorem list_peer_records_normal_witness: "peers_wf lib0 [pinned0]"
  using list_peer_records_normal [OF lib0_peer fs_peer0_ok(2)] by simp

theorem add_peer_keeps_pins_witness:
  "case add_peer lib0 base0 address0 None fs_peer0 of
     (Inl err, s') \<Rightarrow> files s' = files fs_peer0
   | (Inr rec, s') \<Rightarrow> peer_key rec = Some (hex_encode lib0 (replicate 32 2))"
proof -
  obtain r s' where run: "add_peer lib0 base0 address0 None fs_peer0 = (r, s')" by fastforce
  have "find_peer address0 [pinned0] = Some pinned0" by (simp add: find_peer_def pinned0_def)
  then show ?thesis
    using add_peer_keeps_pins [OF lib0_peer no_peers0(2) fs_peer0_ok(2) run] run
    by (cases r) (auto simp: pinned0_def)
qed

theorem unpinned_peer_unusable_witness:
  "\<exists>rec s'. add_peer lib0 base0 address0 None fs0 = (Inr rec, s')
    \<and> expected_peer_key lib0 base0 address0 s' = Inl (Peer Unpinned)"
proof -
  obtain s' where "add_peer lib0 base0 address0 None fs0 = (Inr \<lparr>peer_url = address0, peer_key = None\<rparr>, s')"
    using add_peer0 [of None None] by (auto simp: validate_optional_key_def)
  then show ?thesis
    using unpinned_peer_unusable [OF lib0_peer no_peers0(2,1) address0_normal] by (auto simp: find_peer_def)
qed

theorem added_peer_is_expected_witness:
  "expected_peer_key lib0 base0 address0 fs_peer0 = Inr (Some (hex_encode lib0 (replicate 32 2)))"
  using added_peer_is_expected [OF lib0_peer no_peers0(2,1) fs_peer0_ok(1) refl] by auto

theorem remove_peer_exact_witness:
  "case remove_peer lib0 base0 address0 fs_peer0 of
     (Inl err, s') \<Rightarrow> True
   | (Inr removed, s') \<Rightarrow> removed"
proof -
  have "find_peer address0 [pinned0] = Some pinned0" by (simp add: find_peer_def pinned0_def)
  then show ?thesis
    using remove_peer_exact [OF lib0_peer no_peers0(2) fs_peer0_ok(2), of address0]
    by (fastforce split: prod.split sum.split)
qed

section \<open>Synchronization\<close>

definition draws0 :: draws where
  "draws0 = \<lparr>challenge_raw = replicate 32 3, clock = \<lambda>_. 100, offer_nonces = \<lambda>_. replicate 24 9\<rparr>"

definition auth0 :: bytes where
  "auth0 = sync_auth_payload 100 ''ops'' (hex_encode lib0 (replicate 32 3)) (public_key owner0)"

definition status0 :: status_message where
  "status0 = \<lparr>st_type = ''status'', st_version = sync_version, st_channel = ''ops'',
     st_requester = public_key member0, st_auth_ts = 100, st_auth_sig = projr (sign_bytes lib0 member0 auth0),
     st_policy = [], st_moderation = [], st_chunks = []\<rparr>"

definition session0 :: session where
  "session0 = \<lparr>node = fs_log0, inbox = [TextFrame (status_json lib0 status0)], outbox = [], capacity = 2\<rparr>"

lemma status0_simps [simp]:
  "st_type status0 = ''status''" "st_version status0 = sync_version" "st_channel status0 = ''ops''"
  "st_requester status0 = public_key member0" "st_auth_ts status0 = 100"
  "st_policy status0 = []" "st_moderation status0 = []" "st_chunks status0 = []"
  by (simp_all add: status0_def)

lemma authenticate0:
  assumes "make_auth_challenge lib0 (challenge_raw draws0) (clock draws0 0) owner0 ''/sync'' = Inr ch"
  shows "authenticate lib0 draws0 ch status0 = Inr chan0"
proof -
  have ch: "ac_nonce ch = hex_encode lib0 (replicate 32 3)" "ac_responder ch = public_key owner0" "ac_expires ch = 160"
    using assms by (auto simp: make_auth_challenge_def Let_def bindR_ok draws0_def)
  obtain g where "sign_bytes lib0 member0 auth0 = Inr g"
    "verify_bytes lib0 (public_key member0) g auth0 = Inr ()"
    using sign_bytes_verifies [OF lib0_crypto, of "replicate 32 2" None auth0] by (auto simp: member0_def)
  then have "verify_bytes lib0 (public_key member0) (st_auth_sig status0) auth0 = Inr ()"
    by (simp add: status0_def)
  then show ?thesis
    using ch by (simp add: authenticate_def check_limits_def max_policy_events_def max_moderation_events_def
        merkle_bucket_count_def parse_channel_def paths0 stale_def abs_i64_def draws0_def auth0_def chan0_def)
qed

lemma run_sync0:
  "\<exists>r s'. run_sync lib0 draws0 base0 owner0 session0 = (r, s') \<and> length (outbox s') = 2"
proof -
  obtain sig where "sign_bytes lib0 owner0 (responder_challenge_payload ''/sync''
      (hex_encode lib0 (replicate 32 3)) (public_key owner0) (100 + 60)) = Inr sig"
    using sign_bytes_verifies [OF lib0_crypto, of "replicate 32 1"] unfolding owner0_def by fastforce
  then obtain ch where ch: "make_auth_challenge lib0 (challenge_raw draws0) (clock draws0 0) owner0 ''/sync'' = Inr ch"
    by (auto simp: make_auth_challenge_def draws0_def Let_def)
  let ?s1 = "session0\<lparr>outbox := [challenge_json lib0 ch], capacity := 1\<rparr>"
  let ?s2 = "?s1\<lparr>inbox := []\<rparr>"
  have "status_of_json lib0 (status_json lib0 status0) = Some status0"
    by (simp add: lib0_def get_put codec_intros)
  then have rd: "read_status lib0 ?s1 = (Inr status0, ?s2)"
    by (simp add: read_status_def bindS_def next_frame_def session0_def liftS_def require_def guardR_def okS_def)
  have read: "policy_allows_read default_policy k" for k
    by (simp add: policy_allows_read_def default_policy_def)
  have nil: "derive_policy lib0 chan0 [] = Inr default_policy" by (simp add: derive_policy_def)
  have m: "read_moderation_history lib0 base0 chan0 fs_log0 = Inr []"
    "validate_moderation_history lib0 base0 chan0 [] fs_log0 = Inr []"
  proof -
    have f: "tget (files fs_log0) (moderation_log_path base0 chan0) = None"
      using moderation_paths(3) [of base0 chan0, THEN not_sym] by simp
    show "read_moderation_history lib0 base0 chan0 fs_log0 = Inr []"
      by (simp add: read_moderation_history_def open_history_lock_def read_moderation_none [OF f])
    show "validate_moderation_history lib0 base0 chan0 [] fs_log0 = Inr []"
      by (simp add: validate_moderation_history_def derive_moderation_def)
  qed
  have n: "node ?s2 = fs_log0" "capacity ?s2 = 1" "outbox ?s2 = [challenge_json lib0 ch]"
    by (simp_all add: session0_def)
  let ?s3 = "?s2\<lparr>outbox := outbox ?s2 @ [policy_sync_json lib0 \<lparr>py_type = ''policy_sync'', py_status = ''update'', py_events = []\<rparr>],
    capacity := 0\<rparr>"
  have pol: "serve_policy lib0 base0 chan0 status0 ?s2 = (Inr (), ?s3)"
    using n read nil by (simp add: serve_policy_def bindS_liftS bindS_query bindS_require_member
        validate_policy_history_def is_policy_prefix_def send_policy_def send_def okS_def bindS_def [of "okS ()"])
  have "serve_moderation lib0 base0 chan0 status0 ?s3 = (Inl (Sync PeerClosed), ?s3)"
    using n(1) m by (simp add: serve_moderation_def bindS_query is_moderation_prefix_def send_moderation_def
        send_def okS_def bindS_def [of "okS ()"])
  then have "serve_channel lib0 draws0 base0 chan0 status0 ?s2 = (Inl (Sync PeerClosed), ?s3)"
    unfolding serve_channel_def
    by (simp only: bindS_step [where m = "serve_policy lib0 base0 chan0 status0", OF pol]) (simp add: bindS_def)
  moreover have "run_sync lib0 draws0 base0 owner0 session0 = serve_channel lib0 draws0 base0 chan0 status0 ?s2"
  proof -
    have "send (challenge_json lib0 ch) session0 = (Inr (), ?s1)" by (simp add: send_def session0_def)
    then show ?thesis
      unfolding run_sync_def bindS_liftS ch sum.case
      by (simp only: bindS_step [where m = "send (challenge_json lib0 ch)"] bindS_step [where m = "read_status lib0", OF rd]
          bindS_liftS authenticate0 [OF ch] sum.case)
  qed
  ultimately show ?thesis using n(3) by simp
qed

theorem sync_serves_members_only_witness:
  "\<exists>p. read_channel_policy lib0 base0 chan0 (node session0) = Inr p \<and> policy_allows_read p (public_key member0)"
proof -
  obtain r s' where run: "run_sync lib0 draws0 base0 owner0 session0 = (r, s')" "length (outbox s') = 2"
    using run_sync0 by blast
  have "length (outbox s') > length (outbox session0) + 1" using run(2) by (simp add: session0_def)
  with sync_serves_members_only [OF run(1)] obtain frame rest st chan p where
    "inbox session0 = TextFrame frame # rest" "status_of_json lib0 frame = Some st"
    "parse_channel (st_channel st) = Inr chan" "read_channel_policy lib0 base0 chan (node session0) = Inr p"
    "policy_allows_read p (st_requester st)" by blast
  moreover have "status_of_json lib0 (status_json lib0 status0) = Some status0"
    by (simp add: lib0_def get_put codec_intros)
  ultimately show ?thesis by (auto simp: session0_def parse_channel_def paths0 chan0_def)
qed

theorem keys_shared_with_requester_only_witness:
  "\<exists>r s'. serve_keys lib0 draws0 base0 chan0 status0 session0 = (r, s') \<and> node s' = fs_log0"
proof -
  obtain r s' where run: "serve_keys lib0 draws0 base0 chan0 status0 session0 = (r, s')" by fastforce
  have "read_channel_policy lib0 base0 chan0 (node session0) = Inr default_policy" "visibility default_policy = Public"
    "node session0 = fs_log0"
    by (simp_all add: session0_def default_policy_def)
  with keys_shared_with_requester_only [OF run] run show ?thesis by auto
qed

theorem uploads_are_requested_witness:
  "\<exists>r s' new. receive_uploads lib0 base0 chan0 [env_id env0]
      (session0\<lparr>inbox := [TextFrame (envelope_json lib0 env0)]\<rparr>) = (r, s')
    \<and> log_rel lib0 base0 chan0 ([] @ new) (node s') \<and> env_id ` set new \<subseteq> {env_id env0}"
proof -
  let ?s = "session0\<lparr>inbox := [TextFrame (envelope_json lib0 env0)]\<rparr>"
  obtain r s' where run: "receive_uploads lib0 base0 chan0 [env_id env0] ?s = (r, s')" by fastforce
  have "envelope_of_json lib0 (envelope_json lib0 env0) = Some env0"
    using lib0_envelope_json by (simp add: envelope_json_ok_def)
  then have d: "decoded lib0 (inbox ?s) = [env0]" by simp
  have "log_rel lib0 base0 chan0 [] (node ?s)" using fs_log0_rel(1) by (simp add: session0_def)
  moreover have "length (log_bytes lib0 ([] @ decoded lib0 (inbox ?s))) < 2 ^ 64" unfolding d by (rule env0_short)
  ultimately show ?thesis
    using uploads_are_requested [OF lib0_envelope_json lib0_crypto _ _ _ _ run, of "[]"] run by auto
qed


theorem authentication_window_witness:
  "authenticate lib0 draws0 \<lparr>ac_type = [], ac_nonce = [], ac_responder = [], ac_expires = 0, ac_sig = []\<rparr> (status0\<lparr>st_auth_ts := 161\<rparr>) = Inl (Auth Stale)"
  by (subst authentication_window)
     (simp_all add: draws0_def check_limits_def max_policy_events_def max_moderation_events_def
        merkle_bucket_count_def paths0)

theorem serve_policy_only_extends_witness:
  "\<exists>r s' after. serve_policy lib0 base0 chan0 (status0\<lparr>st_policy := [restrict0]\<rparr>) session0 = (r, s')
    \<and> read_policy_history lib0 base0 chan0 (node s') = Inr after
    \<and> (is_ok r \<longrightarrow> map pe_id after = [pe_id restrict0])"
proof -
  let ?st = "status0\<lparr>st_policy := [restrict0]\<rparr>"
  obtain r s' where run: "serve_policy lib0 base0 chan0 ?st session0 = (r, s')" by fastforce
  have n: "policy_log_complete base0 chan0 (node session0)" "read_policy_history lib0 base0 chan0 (node session0) = Inr []"
    by (simp_all add: session0_def)
  have "no_policy_collision lib0 [] (st_policy ?st)" by (simp add: no_policy_collision_def)
  from serve_policy_only_extends [OF lib0_policy_json lib0_hex_alphabet n this run] show ?thesis
    using run by auto
qed

lemma digests0: "no_bucket_collision lib0 (digests lib0 [env0]) (digests lib0 [])"
proof -
  let ?d = "digest lib0 env0"
  have d: "length ?d = 32" by (simp add: digest_def lib0_def)
  have "blake3 lib0 ?d \<noteq> blake3 lib0 []"
    using digest0_length [of ?d "[]"] d by (auto simp: lib0_def)
  then show ?thesis by (simp add: no_bucket_collision_def digests_def bucket_def)
qed


section \<open>Discovery\<close>

definition server0 :: app_state where
  "server0 = router_with_identity base0 owner0"

lemma challenge0:
  "\<exists>ch s1. challenge lib0 (replicate 32 3) 100 100 server0 = (ChallengeIssued ch, s1) \<and> ac_expires ch = 160"
proof -
  obtain sig where "sign_bytes lib0 owner0 (responder_challenge_payload ''/status''
      (hex_encode lib0 (replicate 32 3)) (public_key owner0) (100 + 60)) = Inr sig"
    using sign_bytes_verifies [OF lib0_crypto, of "replicate 32 1"] unfolding owner0_def by fastforce
  then show ?thesis
    by (simp add: challenge_def make_auth_challenge_def server0_def router_with_identity_def Let_def
        retain_valid_def max_discovery_challenges_def)
qed

lemma handshake0:
  assumes "challenge lib0 (replicate 32 3) 100 100 server0 = (ChallengeIssued ch, s1)" and "ac_expires ch = 160"
  shows "\<exists>rq s2. status_request_for lib0 101 member0 ch address0 = Inr rq
    \<and> discovery_requester lib0 101 102 (headers_of rq) s1 = (Inr (Some (public_key member0)), s2)"
  using handshake_steps [OF lib0_crypto lib0_hex_alphabet lib0_header, of "replicate 32 1" "replicate 32 2"
      "replicate 32 3" server0 None member0 None 100 100 ch s1 101 101 101 102 address0] assms
  by (auto simp: server0_def router_with_identity_def owner0_def member0_def stale_def abs_i64_def)

theorem discovery_nonce_used_once_witness:
  "\<exists>(ch :: auth_challenge) k s. serves lib0 server0 [Issued (ac_nonce ch), Authenticated k (ac_nonce ch)] s
    \<and> times_used (ac_nonce ch) [Issued (ac_nonce ch), Authenticated k (ac_nonce ch)]
      \<le> times_issued (ac_nonce ch) [Issued (ac_nonce ch), Authenticated k (ac_nonce ch)]"
proof -
  obtain ch s1 where ch: "challenge lib0 (replicate 32 3) 100 100 server0 = (ChallengeIssued ch, s1)" "ac_expires ch = 160"
    using challenge0 by blast
  obtain rq s2 where rq: "status_request_for lib0 101 member0 ch address0 = Inr rq"
    "discovery_requester lib0 101 102 (headers_of rq) s1 = (Inr (Some (public_key member0)), s2)"
    using handshake0 [OF ch] by blast
  have "rq_nonce rq = ac_nonce ch" using rq(1) by (auto simp: status_request_for_def bindR_ok)
  moreover have "required_header lib0 (h_nonce (headers_of rq)) = Inr n \<Longrightarrow> n = rq_nonce rq" for n
    by (auto simp: required_header_def headers_of_def lib0_def bindR_ok from_option_ok split: if_splits)
  moreover obtain n where "required_header lib0 (h_nonce (headers_of rq)) = Inr n"
    using requester_cases [OF rq(2)] by auto
  ultimately have n: "required_header lib0 (h_nonce (headers_of rq)) = Inr (ac_nonce ch)" by simp
  have one: "serves lib0 server0 ([] @ [Issued (ac_nonce ch)]) s1"
    using issue [OF start ch(1)] .
  have two: "serves lib0 server0 (([] @ [Issued (ac_nonce ch)]) @ [Authenticated (public_key member0) (ac_nonce ch)]) s2"
    using authenticate [OF one rq(2) n] .
  from discovery_nonce_used_once [OF two [unfolded server0_def], of "ac_nonce ch"] two show ?thesis by auto
qed

theorem status_lists_readable_only_witness:
  "case status lib0 100 100 \<lparr>h_key = None, h_timestamp = None, h_signature = None, h_nonce = None\<rparr> fs_log0 server0 of
     (Unauthorized e, st') \<Rightarrow> False
   | (StatusOk cs, st') \<Rightarrow> st' = server0 \<and> (\<forall>c \<in> set cs. \<exists>chan p. parse_channel c = Inr chan
        \<and> read_channel_policy lib0 base0 chan fs_log0 = Inr p \<and> visibility p = Public)"
proof -
  let ?h = "\<lparr>h_key = None, h_timestamp = None, h_signature = None, h_nonce = None\<rparr>"
  obtain cs where run: "status lib0 100 100 ?h fs_log0 server0 = (StatusOk cs, server0)"
    by (simp add: status_def discovery_requester_def)
  have "tget (discovery_challenges server0) n = None" "datadir server0 = base0" for n
    by (simp_all add: server0_def router_with_identity_def)
  with status_lists_readable_only [OF run] run show ?thesis by auto
qed

theorem discovery_handshake_completes_witness:
  "\<exists>ch s1. challenge lib0 (replicate 32 3) 100 100 server0 = (ChallengeIssued ch, s1)
    \<and> verify_auth_challenge lib0 101 ch ''/status'' (Some (public_key (identity server0))) = Inr ()"
proof -
  obtain ch s1 where ch: "challenge lib0 (replicate 32 3) 100 100 server0 = (ChallengeIssued ch, s1)" "ac_expires ch = 160"
    using challenge0 by blast
  have "verify_auth_challenge lib0 101 ch ''/status'' (Some (public_key (identity server0))) = Inr ()"
    using discovery_handshake_completes [OF lib0_crypto lib0_hex_alphabet lib0_header, of "replicate 32 1" "replicate 32 2"
      "replicate 32 3" server0 None member0 None 100 100 ch s1 101 101 101 102 address0] ch
    by (auto simp: server0_def router_with_identity_def owner0_def member0_def stale_def abs_i64_def)
  then show ?thesis using ch(1) by blast
qed

end
