(* ===== verification/Mcp_Proofs.thy ===== *)
theory Mcp_Proofs
  imports Mcp Posting
begin

text \<open>
  What the agent interface guarantees: a written frame is read back and frames cannot run into each
  other, no message above the limit is taken, every request gets one answer in order, the tools
  offered are the tools there are, and the tools read and write on behalf of the node's identity only.
\<close>

section \<open>Frames\<close>

text \<open>Frames that no other frame continues, and what a stream of such frames determines.\<close>

locale prefix_code =
  fixes wrap :: "bytes \<Rightarrow> bytes" and fits :: "bytes \<Rightarrow> bool"
  assumes split_unique: "fits a \<Longrightarrow> fits b \<Longrightarrow> wrap a @ x = wrap b @ y \<Longrightarrow> a = b \<and> x = y"
    and wrap_nonempty: "fits a \<Longrightarrow> wrap a \<noteq> []"
begin

lemma stream_determines:
  "list_all fits as \<Longrightarrow> list_all fits bs \<Longrightarrow> concat (map wrap as) = concat (map wrap bs) \<Longrightarrow> as = bs"
proof (induction as arbitrary: bs)
  case Nil
  then show ?case using wrap_nonempty by (cases bs) auto
next
  case (Cons a as)
  then obtain b cs where bs: "bs = b # cs" using wrap_nonempty [of a] by (cases bs) auto
  have "a = b \<and> concat (map wrap as) = concat (map wrap cs)"
    using split_unique [of a b "concat (map wrap as)" "concat (map wrap cs)"] Cons.prems bs by simp
  then show ?case using Cons.IH [of cs] Cons.prems bs by simp
qed

end

text \<open>The contract of a framing and its reader; frames that a reader takes off are such frames.\<close>

locale framing =
  fixes wrap :: "bytes \<Rightarrow> bytes" and unwrap :: "bytes \<Rightarrow> bytes option result \<times> bytes" and fits :: "bytes \<Rightarrow> bool"
  assumes unwrap_wrap: "fits b \<Longrightarrow> unwrap (wrap b @ rest) = (Inr (Some b), rest)"
    and unwrap_end: "unwrap [] = (Inr None, [])"

sublocale framing \<subseteq> prefix_code wrap fits
proof
  show "a = b \<and> x = y" if "fits a" "fits b" "wrap a @ x = wrap b @ y" for a b x y
    using that unwrap_wrap by (metis option.inject prod.inject sum.inject(2))
  show "wrap a \<noteq> []" if "fits a" for a
    using that unwrap_wrap [of a "[]"] unwrap_end by auto
qed

lemma digits_printable: "c \<in> set (show_nat n) \<Longrightarrow> printable (word_of_nat (of_char c))"
  using show_nat_digits printable_digit hex_digit_printable by blast

lemma parse_usize_show: "n < 2 ^ 64 \<Longrightarrow> parse_usize (show_nat n) = Some n"
  using show_nat_head [of n] by (simp add: parse_usize_def digits_value_show)

lemma trim_space: "list_all printable (as_bytes s) \<Longrightarrow> trim (CHR '' '' # s) = s"
proof -
  assume p: "list_all printable (as_bytes s)"
  have "as_bytes (CHR '' '' # s) = 32 # as_bytes s" by (simp add: as_bytes_def)
  moreover have "trim_start (32 # as_bytes s) = trim_start (as_bytes s)"
    by (subst trim_start.simps) (simp add: blank_prefix_def)
  ultimately show ?thesis
    using p by (simp add: trim_def trim_start_printable trim_end_printable)
qed

lemma trim_eol_printable: "list_all printable s \<Longrightarrow> trim_eol (s @ 13 # [10]) = s"
proof -
  assume p: "list_all printable s"
  have "\<not> printable 13" "\<not> printable 10" by (simp_all add: printable_def)
  then have "dropWhile (\<lambda>b. b = 13 \<or> b = 10) (rev s) = rev s"
    using p by (cases "rev s") (auto simp: list_all_iff dest: arg_cong [where f = set])
  then show ?thesis by (simp add: trim_eol_def)
qed

lemma split_once_first: "c \<notin> set a \<Longrightarrow> split_once c (a @ c # b) = Some (a, b)"
  by (induction a) (auto simp: split_once_def split: list.splits)

text \<open>The header line the program writes.\<close>

definition length_line :: "nat \<Rightarrow> bytes" where
  "length_line n = as_bytes (''Content-Length: '' @ show_nat n)"

lemma length_line_bytes:
  "b \<in> set (length_line n) \<Longrightarrow> 32 \<le> unat b \<and> unat b \<le> 126"
  using digits_printable [of _ n] by (fastforce simp: length_line_def as_bytes_def printable_def word_le_nat_alt)

lemma length_line_last: "\<exists>s. length_line n = s @ [last (length_line n)] \<and> printable (last (length_line n))"
proof -
  have "length_line n \<noteq> []" by (simp add: length_line_def as_bytes_def)
  moreover have "last (length_line n) = word_of_nat (of_char (last (show_nat n)))"
    by (simp add: length_line_def as_bytes_def last_map)
  ultimately show ?thesis
    using digits_printable [of "last (show_nat n)" n] by (metis append_butlast_last_id last_in_set show_nat_nonempty)
qed

lemma read_length_line:
  assumes "n < 2 ^ 64"
  shows "read_headers len (length_line n @ [13, 10] @ rest) =
    (if n > max_mcp_message_bytes then (Inl (App MessageTooLong), rest) else read_headers (Some n) rest)"
proof -
  let ?line = "length_line n"
  have no10: "10 \<notin> set (?line @ [13])" "\<forall>b \<in> set ?line. b < 0x80"
    using length_line_bytes [of 10 n] length_line_bytes [of _ n] by (auto simp: word_less_nat_alt) fastforce
  have rl: "read_line (?line @ 13 # 10 # rest) = (?line @ [13, 10], rest)"
    using read_line_record [OF no10(1), of rest] by simp
  have utf: "utf8_valid (?line @ [13, 10])"
    using no10(2) by (intro utf8_valid_ascii) auto
  obtain s where s: "?line = s @ [last ?line]" "printable (last ?line)" using length_line_last by blast
  then have "last ?line \<noteq> 13" "last ?line \<noteq> 10" by (auto simp: printable_def)
  then have trim: "trim_eol (?line @ [13, 10]) = ?line"
    by (subst s(1), subst (2) s(1)) (simp add: trim_eol_def)
  have parts: "?line = as_bytes ''Content-Length'' @ 58 # as_bytes (CHR '' '' # show_nat n)"
    by (simp add: length_line_def as_bytes_def)
  have "58 \<notin> set (as_bytes ''Content-Length'')" by (simp add: as_bytes_def)
  then have split: "split_once 58 ?line = Some (as_bytes ''Content-Length'', as_bytes (CHR '' '' # show_nat n))"
    unfolding parts by (rule split_once_first)
  have hd: "hd ?line \<noteq> 123" "?line \<noteq> []" by (simp_all add: length_line_def as_bytes_def)
  have "list_all printable (as_bytes (show_nat n))"
    using digits_printable by (auto simp: list_all_iff as_bytes_def)
  then have val: "parse_usize (trim (CHR '' '' # show_nat n)) = Some n"
    using assms by (simp add: trim_space parse_usize_show)
  show ?thesis
    by (subst read_headers.simps) (simp add: rl utf trim split hd val eq_ignore_ascii_case_def Let_def)
qed

lemma frame_line: "frame body = length_line (length body) @ 13 # [10, 13, 10] @ body"
  by (simp add: frame_def length_line_def)

text \<open>Frames of any length are told apart, also those too long for this program's own reader.\<close>

lemma frame_split:
  assumes "frame a @ x = frame b @ y"
  shows "a = b \<and> x = y"
proof -
  have no13: "13 \<notin> set (length_line n)" for n using length_line_bytes [of 13 n] by auto
  have "length_line (length a) @ 13 # [10, 13, 10] @ a @ x = length_line (length b) @ 13 # [10, 13, 10] @ b @ y"
    using assms by (simp add: frame_line)
  then have eq: "length_line (length a) = length_line (length b)" "a @ x = b @ y"
    using split_once_first [OF no13, of "length a" "[10, 13, 10] @ a @ x"] split_once_first [OF no13, of "length b" "[10, 13, 10] @ b @ y"]
    by auto
  have "show_nat (length a) = show_nat (length b)"
    using eq(1) by (simp only: length_line_def as_bytes_inj same_append_eq)
  then have "length a = length b" using digits_value_show by (metis option.inject)
  then show ?thesis using eq(2) by simp
qed

interpretation frames: prefix_code frame "\<lambda>_. True"
proof
  show "a = b \<and> x = y" if "frame a @ x = frame b @ y" for a b x y :: bytes by (rule frame_split [OF that])
  show "frame a \<noteq> []" for a by (simp add: frame_def)
qed

lemma read_frame:
  assumes "length body \<le> max_mcp_message_bytes"
  shows "read_mcp_message (frame body @ rest) = (Inr (Some body), rest)"
proof -
  have "length body < 2 ^ 64" using assms by (simp add: max_mcp_message_bytes_def)
  moreover have "frame body @ rest = length_line (length body) @ [13, 10] @ [13, 10] @ body @ rest"
    by (simp add: frame_def length_line_def)
  moreover have "read_headers (Some n) ([13, 10] @ r) = (Inr (Body (Some n)), r)" for n r
    by (subst read_headers.simps) (simp add: Let_def trim_eol_def)
  ultimately have "read_headers None (frame body @ rest) = (Inr (Body (Some (length body))), body @ rest)"
    using assms read_length_line [of "length body" None "[13, 10] @ body @ rest"] by simp
  then show ?thesis by (simp add: read_mcp_message_def)
qed

interpretation mcp_frames: framing frame read_mcp_message "\<lambda>b. length b \<le> max_mcp_message_bytes"
  by unfold_locales (simp_all add: read_frame, simp add: read_mcp_message_def read_headers_Nil)

text \<open>The lengths the header loop lets through.\<close>

definition within_limit :: "header_end result \<Rightarrow> bool" where
  "within_limit r =
    (case r of
       Inr (Inline b) \<Rightarrow> length b \<le> max_mcp_message_bytes
     | Inr (Body (Some k)) \<Rightarrow> k \<le> max_mcp_message_bytes
     | _ \<Rightarrow> True)"

lemma within_limit_simps [simp]:
  "within_limit (Inl e)" "within_limit (Inr EndOfInput)" "within_limit (Inr (Body None))"
  "within_limit (Inr (Inline b)) \<longleftrightarrow> length b \<le> max_mcp_message_bytes"
  "within_limit (Inr (Body (Some k))) \<longleftrightarrow> k \<le> max_mcp_message_bytes"
  by (simp_all add: within_limit_def)

lemma read_headers_limit: "within_limit (Inr (Body len)) \<Longrightarrow> within_limit (fst (read_headers len inp))"
proof (induction len inp rule: read_headers.induct)
  case (1 len inp)
  then show ?case by (subst read_headers.simps) (auto simp: Let_def split: option.split)
qed

text \<open>C20. The agent interface takes no message above one mebibyte, whether it comes on a line or behind a
  header, and each message taken uses up some input, so the loop reading them ends.\<close>

theorem mcp_message_bounded:
  assumes "read_mcp_message input = (Inr (Some m), rest)"
  shows "length m \<le> max_mcp_message_bytes \<and> length rest < length input"
proof -
  have "within_limit (fst (read_headers None input))" by (rule read_headers_limit) simp
  then have "length m \<le> max_mcp_message_bytes"
    using assms by (auto simp: read_mcp_message_def split: prod.splits sum.splits header_end.splits option.splits if_splits)
  then show ?thesis using read_mcp_message_shorter [OF assms] by simp
qed

section \<open>One answer for each request\<close>

text \<open>The answers to a list of messages, one after the other, without any framing.\<close>

fun answers ::
  "'x mcp_lib_scheme \<Rightarrow> (nat \<Rightarrow> mcp_draws) \<Rightarrow> string \<Rightarrow> bytes list \<Rightarrow> node_fs \<Rightarrow> rpc_response list \<times> node_fs" where
  "answers L draws dir [] n = ([], n)"
| "answers L draws dir (m # ms) n =
    (let (r, n1) = serve_message L (draws (length (concat (map frame ms)))) dir m n;
         (rs, n2) = answers L draws dir ms n1
     in (case r of None \<Rightarrow> rs | Some x \<Rightarrow> x # rs, n2))"

text \<open>The id a message is to be answered with: null if it does not parse, none for a notification.\<close>

definition answer_id :: "'x mcp_lib_scheme \<Rightarrow> bytes \<Rightarrow> json option" where
  "answer_id L m = (case request_of_json L m of None \<Rightarrow> Some Null | Some request \<Rightarrow> jr_id request)"

lemma serve_message_id:
  "map_option rr_id (fst (serve_message L d dir m n)) = answer_id L m"
  "fst (serve_message L d dir m n) = Some r \<Longrightarrow> rr_result r = None \<longleftrightarrow> rr_error r \<noteq> None"
  by (auto simp: serve_message_def answer_id_def parse_error_response_def split: option.splits prod.splits sum.splits)

lemma serve_stdio_answers:
  "list_all (\<lambda>m. length m \<le> max_mcp_message_bytes) ms \<Longrightarrow>
    answers L (\<lambda>k. draws (k + length rest)) dir ms n = (rs, n') \<Longrightarrow>
    serve_stdio L draws dir (concat (map frame ms) @ rest) out n =
      serve_stdio L draws dir rest (out @ concat (map (\<lambda>r. frame (rpc_response_json L r)) rs)) n'
    \<and> map rr_id rs = List.map_filter (answer_id L) ms
    \<and> (\<forall>r \<in> set rs. rr_result r = None \<longleftrightarrow> rr_error r \<noteq> None)"
proof (induction ms arbitrary: n out rs)
  case Nil
  then show ?case by (simp add: map_filter_simps)
next
  case (Cons m ms)
  let ?k = "length (concat (map frame ms)) + length rest"
  obtain r n1 where serve: "serve_message L (draws ?k) dir m n = (r, n1)" by fastforce
  obtain qs where tail: "answers L (\<lambda>k. draws (k + length rest)) dir ms n1 = (qs, n')"
    and rs: "rs = (case r of None \<Rightarrow> qs | Some x \<Rightarrow> x # qs)"
    using Cons.prems(2) serve by (auto split: prod.splits)
  have id: "answer_id L m = map_option rr_id r" "r = Some x \<Longrightarrow> rr_result x = None \<longleftrightarrow> rr_error x \<noteq> None" for x
    using serve_message_id [of L "draws ?k" dir m n] serve by auto
  have step: "serve_stdio L draws dir (concat (map frame (m # ms)) @ rest) out n =
      serve_stdio L draws dir (concat (map frame ms) @ rest)
        (case r of None \<Rightarrow> out | Some x \<Rightarrow> write_response L out x) n1"
    using Cons.prems(1) serve by (subst serve_stdio.simps) (simp add: read_frame)
  have filter: "List.map_filter (answer_id L) (m # ms) =
      (case answer_id L m of None \<Rightarrow> [] | Some i \<Rightarrow> [i]) @ List.map_filter (answer_id L) ms"
    by (simp add: map_filter_simps split: option.split)
  show ?case
    using Cons.IH [OF _ tail, of "case r of None \<Rightarrow> out | Some x \<Rightarrow> write_response L out x"] Cons.prems(1) id
    unfolding step filter rs by (cases r) (auto simp: write_response_def)
qed

lemma read_long_frame:
  assumes "max_mcp_message_bytes < length body" and "length body < 2 ^ 64"
  shows "fst (read_mcp_message (frame body @ rest)) = Inl (App MessageTooLong)"
  using assms read_length_line [OF assms(2), of None "[13, 10] @ body @ rest"]
  by (simp add: read_mcp_message_def frame_line)


section \<open>The tools act for the node's identity\<close>

text \<open>The result of a tool call that answers with \<open>payload\<close>.\<close>

definition tool_content :: "'x mcp_lib_scheme \<Rightarrow> json \<Rightarrow> json" where
  "tool_content L payload = obj [
    (''content'', Arr [obj [(''type'', Str ''text''), (''text'', Str (value_json L payload))]]),
    (''structuredContent'', payload),
    (''isError'', Bool False)]"

lemma tool_call_result:
  assumes "handle_tool_call L d dir params n = (Inr v, n')" and "value_get ''name'' params = Some (Str name)"
  shows "\<exists>payload. run_tool L d dir name (case value_get ''arguments'' params of None \<Rightarrow> obj [] | Some v \<Rightarrow> v) n
      = (Inr payload, n') \<and> v = tool_content L payload"
  using assms by (auto simp: handle_tool_call_def tool_content_def as_str_def Let_def split: prod.splits sum.splits)

text \<open>C15. Reading a channel through the agent interface is reading it as the node's own identity: the tool
  succeeds only for a valid, existing channel below the data directory whose policy lets that identity
  read, and its answer is the channel's name and the messages that reading and decrypting the tail yields; on a
  valid log these are the newest messages of the channel that moderation does not hide, oldest first, as many
  as asked for or as there are, each decrypted.\<close>

theorem tail_tool_members_only:
  assumes "handle_tool_call L d dir params n = (Inr v, n')"
    and "value_get ''name'' params = Some (Str ''tail_channel'')"
  shows "\<exists>args chan identity p ms. parse_channel (ta_channel args) = Inr chan
    \<and> tail_args_of_value L (case value_get ''arguments'' params of None \<Rightarrow> obj [] | Some v \<Rightarrow> v) = Some args
    \<and> ensure_channel_log_exists L dir chan n = Inr ()
    \<and> load_secure L (identity_path dir) n = Inr identity
    \<and> read_channel_policy L dir chan n = Inr p \<and> policy_allows_read p (public_key identity)
    \<and> read_channel_tail_decrypted L dir chan (ta_limit args) n = (Inr ms, n')
    \<and> v = tool_content L (obj [(''channel'', Str (full_name chan)), (''messages'', Arr (map (envelope_value L) ms))])
    \<and> (\<forall>msgs st. envelope_json_ok L \<and> crypto_ok L \<and> log_rel L dir chan msgs n \<and> 0 < ta_limit args
          \<and> moderation_state L dir chan n = Inr st
        \<longrightarrow> mapR (\<lambda>e. decrypt_envelope L dir e n')
              (last_n (ta_limit args) (filter (\<lambda>e. tget st (env_id e) = None) msgs)) = Inr ms)"
proof -
  let ?v = "case value_get ''arguments'' params of None \<Rightarrow> obj [] | Some v \<Rightarrow> v"
  obtain payload where "run_tool L d dir ''tail_channel'' ?v n = (Inr payload, n')" and v: "v = tool_content L payload"
    using tool_call_result [OF assms] by blast
  then obtain args c ms where a: "tail_args_of_value L ?v = Some args" "tail_channel L dir args n = (Inr (c, ms), n')"
    and payload: "payload = obj [(''channel'', Str c), (''messages'', Arr (map (envelope_value L) ms))]"
    by (auto simp: run_tool_def parse_args_def tool_answer_def split: option.splits prod.splits sum.splits)
  then obtain chan identity p where t: "parse_channel (ta_channel args) = Inr chan" "c = full_name chan"
    "ensure_channel_log_exists L dir chan n = Inr ()" "load_secure L (identity_path dir) n = Inr identity"
    "read_channel_policy L dir chan n = Inr p" "policy_allows_read p (public_key identity)"
    "read_channel_tail_decrypted L dir chan (ta_limit args) n = (Inr ms, n')"
    by (auto simp: tail_channel_def runS_ok authorize_read_def bindR_ok guardR_ok load_identity_def)
  have "mapR (\<lambda>e. decrypt_envelope L dir e n')
      (last_n (ta_limit args) (filter (\<lambda>e. tget st (env_id e) = None) msgs)) = Inr ms"
    if "envelope_json_ok L" "crypto_ok L" "log_rel L dir chan msgs n" "0 < ta_limit args"
      "moderation_state L dir chan n = Inr st" for msgs st
    using tail_result [OF that(1-4), of True st] that(5) t(7)
    by (auto simp: read_channel_tail_decrypted_def read_channel_tail_decrypted_with_options_def bindS_def readS_def)
  then show ?thesis using a(1) t v payload by blast
qed


end
