(* ===== verification/Tui_Proofs.thy ===== *)
theory Tui_Proofs
  imports Tui
begin

text \<open>
  What holds of the screen: its invariant in every run of the main loop, that keys alone write no file,
  that the text typed is the text submitted, what becomes of the selected channel when the list changes,
  and the two places where the loop and its event handler treat errors and lists differently.
\<close>

section \<open>Steps\<close>

lemma with_app_simp [simp]: "with_app f (a, n) = f a (a, n)"
  by (simp add: with_app_def)

lemma modify_simp [simp]: "modify f (a, n) = (Inr (), (f a, n))"
  by (simp add: modify_def)

lemma bindS_modify [simp]: "bindS (modify f) g (a, n) = g () (f a, n)"
  by (simp add: bindS_def)

lemma bindS_with_app [simp]: "bindS (with_app f) g (a, n) = bindS (f a) g (a, n)"
  by (simp add: bindS_def)

lemma bindS_on_disk: "bindS (on_disk m) g (a, n) =
    (case m n of (Inl e, n') \<Rightarrow> (Inl e, (a, n')) | (Inr x, n') \<Rightarrow> g x (a, n'))"
  by (simp add: bindS_def on_disk_def split: prod.split sum.split)

lemmas ui_steps = bindS_on_disk bindS_liftS okS_def

section \<open>What refreshing keeps\<close>

text \<open>The components of the screen that only keys and list changes touch.\<close>

definition same_controls :: "app \<Rightarrow> app \<Rightarrow> bool" where
  "same_controls a b \<longleftrightarrow> a_datadir b = a_datadir a \<and> a_identity b = a_identity a \<and> a_channels b = a_channels a
    \<and> a_selected b = a_selected a \<and> a_mode b = a_mode a \<and> a_input b = a_input a \<and> a_audit b = a_audit a
    \<and> a_max_scroll b = a_max_scroll a \<and> a_peers b = a_peers a \<and> a_quit b = a_quit a
    \<and> a_status b = a_status a \<and> a_connection b = a_connection a \<and> (a_scroll b = a_scroll a \<or> a_scroll b = 0)"

lemma same_controls_refl [simp]: "same_controls a a"
  by (simp add: same_controls_def)

lemma same_controls_trans: "same_controls a b \<Longrightarrow> same_controls b c \<Longrightarrow> same_controls a c"
  by (auto simp: same_controls_def)

lemma same_controls_updates [simp]:
  "same_controls a (a\<lparr>a_messages := m\<rparr>)" "same_controls a (a\<lparr>a_messages := m, a_role := r, a_visibility := v\<rparr>)"
  "same_controls a (a\<lparr>a_role := r, a_visibility := v\<rparr>)" "same_controls a (a\<lparr>a_fingerprint := f\<rparr>)"
  "same_controls a (a\<lparr>a_scroll := 0, a_follow_tail := b, a_policy_conflicts := p, a_moderation_conflicts := q\<rparr>)"
  by (simp_all add: same_controls_def)

lemma tail_files: "files (snd (read_channel_tail_decrypted_with_options L base chan k t n)) = files n
    \<and> dirs (snd (read_channel_tail_decrypted_with_options L base chan k t n)) = dirs n"
proof -
  have db: "files (snd (open_indexed L base chan n)) = files n \<and> dirs (snd (open_indexed L base chan n)) = dirs n" for n
    by (auto simp: open_indexed_def bindS_def readS_def liftS_def okS_def ensure_index_def Let_def put_db_def open_db_def
        split: sum.splits prod.splits)
  have "files (snd (read_channel_tail_with_options L base chan k t n)) = files n
      \<and> dirs (snd (read_channel_tail_with_options L base chan k t n)) = dirs n"
    using db by (auto simp: read_channel_tail_with_options_def bindS_def readS_def liftS_def okS_def
        split: sum.splits prod.splits) (metis snd_conv)+
  then show ?thesis
    by (auto simp: read_channel_tail_decrypted_with_options_def bindS_def readS_def split: sum.splits prod.splits)
qed

lemma take_fingerprint_keeps:
  "take_fingerprint L meta (a, n) = (r, (b, n')) \<Longrightarrow> same_controls a b \<and> n' = n"
  by (auto simp: take_fingerprint_def bindS_on_disk readS_def split: sum.splits)

lemma refresh_keeps:
  assumes "refresh L meta (a, n) = (r, (b, n'))"
  shows "same_controls a b \<and> files n' = files n \<and> dirs n' = dirs n"
proof (cases "channel a")
  case None
  then show ?thesis
    using assms take_fingerprint_keeps [of L meta "a\<lparr>a_messages := [], a_role := ''-'', a_visibility := ''-''\<rparr>" n r b n']
    by (auto simp: refresh_def same_controls_def)
next
  case (Some c)
  show ?thesis
  proof (cases "parse_channel c")
    case (Inl e)
    then show ?thesis using assms Some by (simp add: refresh_def ui_steps)
  next
    case (Inr chan)
    obtain q n1 where t: "read_channel_tail_decrypted_with_options L (a_datadir a) chan 500 (a_audit a) n = (q, n1)"
      by fastforce
    then have f: "files n1 = files n \<and> dirs n1 = dirs n"
      using tail_files [of L "a_datadir a" chan 500 "a_audit a" n] by simp
    show ?thesis
      using assms Some Inr t f
      by (cases q; cases "read_channel_policy L (a_datadir a) chan n1")
        (auto simp: refresh_def ui_steps readS_def same_controls_def dest!: take_fingerprint_keeps)
  qed
qed

section \<open>The invariant of the screen\<close>

text \<open>With \<open>k\<close>, the selected channel is one of the list.\<close>

definition screen_ok :: "bool \<Rightarrow> app \<Rightarrow> bool" where
  "screen_ok k a \<longleftrightarrow> a_scroll a \<le> a_max_scroll a \<and> (a_mode a = NormalMode \<longrightarrow> a_input a = [])
    \<and> (k \<longrightarrow> a_channels a \<noteq> [] \<longrightarrow> a_selected a < length (a_channels a))"

lemma position_bound: "position c cs = Some i \<Longrightarrow> i < length cs \<and> cs ! i = c"
  by (induction cs arbitrary: i) (auto split: if_splits)

lemma position_None: "c \<notin> set cs \<Longrightarrow> position c cs = None"
  by (induction cs) auto

lemma clamped: "cs \<noteq> [] \<Longrightarrow> min i (length cs - Suc 0) < length cs"
  by (cases cs) auto

lemma same_controls_ok: "same_controls a b \<Longrightarrow> screen_ok k a \<Longrightarrow> screen_ok k b"
  by (auto simp: same_controls_def screen_ok_def)

lemma screen_ok_updates [simp]:
  "screen_ok k (a_status_update f2 a) = screen_ok k a"
  "screen_ok k (a_audit_update f3 a) = screen_ok k a"
  "screen_ok k (a_quit_update f4 a) = screen_ok k a"
  "screen_ok k (a_follow_tail_update f5 a) = screen_ok k a"
  "screen_ok k (a_peers_update f6 a) = screen_ok k a"
  "screen_ok k (a_connection_update f7 a) = screen_ok k a"
  "screen_ok k (a_fingerprint_update f8 a) = screen_ok k a"
  "screen_ok k (a_messages_update f9 a) = screen_ok k a"
  "screen_ok k (a_role_update f10 a) = screen_ok k a"
  "screen_ok k (a_visibility_update f11 a) = screen_ok k a"
  by (simp_all add: screen_ok_def)

lemma refresh_ok: "refresh L meta (a, n) = (r, (b, n')) \<Longrightarrow> screen_ok k a \<Longrightarrow> screen_ok k b"
  using refresh_keeps same_controls_ok by blast

lemma load_ok: "load L meta dir n = (Inr a, n') \<Longrightarrow> screen_ok k a"
proof -
  assume "load L meta dir n = (Inr a, n')"
  then obtain a0 where "refresh L meta (a0, n) = (Inr (), (a, n'))" "a_scroll a0 = 0" "a_input a0 = []" "a_selected a0 = 0"
    by (auto simp: load_def bindS_readS Let_def split: sum.splits prod.splits)
  then show ?thesis by (elim refresh_ok) (auto simp: screen_ok_def)
qed

lemma saturating_sub_le: "saturating_sub s k \<le> s"
  by (simp add: saturating_sub_def word_sub_le)

lemma edit_key_ok: "edit_key key a = (act, b) \<Longrightarrow> screen_ok k a \<Longrightarrow> a_mode a \<noteq> NormalMode \<Longrightarrow> screen_ok k b"
  by (auto simp: edit_key_def screen_ok_def Let_def split: key_code.splits if_splits)

lemma command_key_files:
  assumes "command_key L meta key (a, n) = (r, (b, n'))"
  shows "files n' = files n \<and> dirs n' = dirs n"
  using assms
  by (auto simp: command_key_def Let_def ui_steps readS_def bindS_def [where m = "refresh L meta"] split: if_splits sum.splits prod.splits
      dest!: refresh_keeps)

lemma command_key_ok:
  assumes "command_key L meta key (a, n) = (r, (b, n'))" and "screen_ok k a" and "a_mode a = NormalMode"
  shows "screen_ok k b"
  using assms
  by (auto simp: command_key_def Let_def ui_steps readS_def bindS_def [where m = "refresh L meta"] split: if_splits sum.splits prod.splits
      dest!: refresh_ok)
    (auto simp: screen_ok_def intro: order_trans [OF saturating_sub_le] clamped)

lemma handle_key_ok:
  assumes "handle_key L meta key (a, n) = (r, (b, n'))"
  shows "(screen_ok k a \<longrightarrow> screen_ok k b) \<and> files n' = files n \<and> dirs n' = dirs n"
proof (cases "a_mode a = NormalMode")
  case True
  then obtain r' where "command_key L meta key (a, n) = (r', (b, n'))"
    using assms by (auto simp: handle_key_def bindS_def okS_def split: sum.splits prod.splits)
  then show ?thesis using command_key_ok command_key_files True by blast
next
  case False
  obtain act a' where e: "edit_key key a = (act, a')" by fastforce
  then have "b = a'" "n' = n" using assms False by (auto simp: handle_key_def okS_def)
  then show ?thesis using edit_key_ok [OF e] False by simp
qed

lemma same_controls_fields:
  "same_controls a b \<Longrightarrow> a_max_scroll b = a_max_scroll a \<and> a_mode b = a_mode a \<and> a_input b = a_input a
    \<and> (a_scroll b = a_scroll a \<or> a_scroll b = 0) \<and> a_channels b = a_channels a \<and> a_selected b = a_selected a"
  by (simp add: same_controls_def)

text \<open>The channel that \<open>refresh_if_local_state_changed\<close> selects in a new list.\<close>

definition kept_index :: "app \<Rightarrow> string list \<Rightarrow> nat" where
  "kept_index a cs = (case Option.bind (channel a) (\<lambda>c. position c cs) of
     Some i \<Rightarrow> i | None \<Rightarrow> min (a_selected a) (length cs - 1))"

lemma kept_index_bound: "cs \<noteq> [] \<Longrightarrow> kept_index a cs < length cs"
  by (auto simp: kept_index_def bind_eq_Some_conv clamped split: option.split dest: position_bound)

lemma local_refresh_change_ok:
  assumes r: "refresh_if_local_state_changed L meta (a, n) = (r, (b, n'))" and a: "screen_ok k a"
  shows "screen_ok k b"
proof (cases "local_state_fingerprint L meta a n")
  case (Inl e)
  then show ?thesis using r a by (simp add: refresh_if_local_state_changed_def ui_steps readS_def)
next
  case (Inr fp)
  define a1 where "a1 = a\<lparr>a_channels := lf_channels fp, a_selected := kept_index a (lf_channels fp)\<rparr>"
  obtain q c m where c: "refresh L meta (a1, n) = (q, (c, m))" by (metis prod.exhaust)
  have ok: "screen_ok k c"
    using refresh_ok [OF c] a kept_index_bound [of "lf_channels fp" a] by (simp add: a1_def screen_ok_def)
  have s: "a_scroll a \<le> a_max_scroll c"
    using same_controls_fields [of a1 c] refresh_keeps [OF c] a by (simp add: a1_def screen_ok_def)
  show ?thesis
  proof (cases "a_fingerprint a = Some fp")
    case True
    then show ?thesis using r a Inr by (simp add: refresh_if_local_state_changed_def ui_steps readS_def)
  next
    case False
    then have "b = a \<or> b = c \<or> b = c\<lparr>a_scroll := a_scroll a, a_follow_tail := a_follow_tail a,
        a_status := ''local changes detected''\<rparr>"
      using r Inr c unfolding a1_def kept_index_def
      by (cases q) (simp_all add: refresh_if_local_state_changed_def ui_steps readS_def Let_def
          bindS_def [where m = "refresh L meta"])
    then show ?thesis using ok s a by (auto simp: screen_ok_def)
  qed
qed

definition gives_channels :: "auto_sync_event \<Rightarrow> bool" where
  "gives_channels e = (case e of SyncComplete _ _ \<Rightarrow> True | SyncFailed _ _ \<Rightarrow> False)"

lemma apply_auto_sync_ok: "k \<longrightarrow> \<not> gives_channels event \<Longrightarrow> apply_auto_sync L meta event (a, n) = (b, n') \<Longrightarrow> screen_ok k a \<Longrightarrow> screen_ok k b"
  by (auto simp: apply_auto_sync_def gives_channels_def set_status_def Let_def screen_ok_def
      split: auto_sync_event.splits if_splits sum.splits prod.splits dest!: refresh_keeps same_controls_fields)

lemma render_timeline_ok [simp]: "screen_ok k a \<Longrightarrow> screen_ok k (render_timeline L width height a)"
  by (auto simp: render_timeline_def screen_ok_def Let_def)

lemma attempt_ok: "attempt L d sync act (a, n) = (r, (b, n')) \<Longrightarrow> screen_ok k a \<Longrightarrow> screen_ok k b"
  by (auto simp: attempt_def ui_steps liftS_def readS_def split: option.splits action.splits sum.splits prod.splits)

lemma apply_action_ok: "apply_action L meta d sync act (a, n) = (r, (b, n')) \<Longrightarrow> screen_ok k a \<Longrightarrow> screen_ok k b"
  by (auto simp: apply_action_def set_status_def split: if_splits sum.splits prod.splits
      dest!: attempt_ok refresh_ok)

lemma local_refresh_ok: "local_refresh L meta due (a, n) = (b, n') \<Longrightarrow> screen_ok k a \<Longrightarrow> screen_ok k b"
  by (auto simp: local_refresh_def set_status_def split: if_splits sum.splits prod.splits
      dest!: local_refresh_change_ok)

lemma press_ok: "press L meta d sync key (a, n) = (r, (b, n')) \<Longrightarrow> screen_ok k a \<Longrightarrow> screen_ok k b"
  unfolding press_def bindS_def [where m = "handle_key L meta key"]
  by (auto simp: ui_steps readS_def bindS_def [where m = "apply_action L meta d sync act" for act]
      split: action.splits sum.splits prod.splits option.splits dest!: handle_key_ok apply_action_ok)

lemma events_ok: "k \<longrightarrow> \<not> list_ex gives_channels es \<Longrightarrow> fold (apply_auto_sync L meta) es (a, n) = (b, n') \<Longrightarrow> screen_ok k a \<Longrightarrow> screen_ok k b"
proof (induction es arbitrary: a n)
  case Nil
  then show ?case by simp
next
  case (Cons e es)
  obtain c m where e: "apply_auto_sync L meta e (a, n) = (c, m)" by fastforce
  then show ?case using Cons.IH [of c m] Cons.prems apply_auto_sync_ok [OF _ e] by simp
qed

lemma loop_turn_ok: "k \<longrightarrow> \<not> list_ex gives_channels (t_events t) \<Longrightarrow> loop_turn L meta sync t (a, n) = (r, (b, n')) \<Longrightarrow> screen_ok k a \<Longrightarrow> screen_ok k b"
proof -
  assume k: "k \<longrightarrow> \<not> list_ex gives_channels (t_events t)"
    and r: "loop_turn L meta sync t (a, n) = (r, (b, n'))" and a: "screen_ok k a"
  obtain c m where c: "fold (apply_auto_sync L meta) (t_events t) (a, t_world t n) = (c, m)" by fastforce
  obtain d j where d: "local_refresh L meta (t_refresh t) (c, m) = (d, j)" by fastforce
  have "screen_ok k d" using local_refresh_ok [OF d] events_ok [OF k c] a by simp
  moreover from this have "screen_ok k (render_timeline L width height d)" for width height by simp
  ultimately show "screen_ok k b"
    using r a c d by (auto simp: loop_turn_def Let_def screen_ok_def [of k "a\<lparr>a_quit := True\<rparr>"]
        split: if_splits sum.splits prod.splits option.splits dest!: press_ok [where k = k])
qed

lemma run_loop_ok: "k \<longrightarrow> \<not> list_ex (list_ex gives_channels \<circ> t_events) ts \<Longrightarrow> run_loop L meta sync ts (a, n) = (r, (b, n')) \<Longrightarrow> screen_ok k a \<Longrightarrow> screen_ok k b"
proof (induction ts arbitrary: a n r)
  case Nil
  then show ?case by (simp add: okS_def)
next
  case (Cons t ts)
  obtain q c m where t: "loop_turn L meta sync t (a, n) = (q, (c, m))" by (metis prod.exhaust)
  then show ?case
    using Cons.IH [of c m] Cons.prems loop_turn_ok [OF _ t, of k]
    by (cases "run_loop L meta sync ts (c, m)")
      (auto simp: bindS_def okS_def split: if_splits sum.splits option.splits)
qed

text \<open>C12. Whatever happens in however many turns of the main loop (keys, events, changes of the files, sizes of
  the terminal), the scroll position never passes the last one drawn, and no text is left in the input line
  outside the two modes that show it. As long as no background synchronization reports success, a channel is
  selected whenever the list has one.
\<close>

theorem screen_invariant:
  assumes "load L meta dir n0 = (Inr a, n)" and "run_loop L meta sync ts (a, n) = (r, (b, n'))"
  shows "a_scroll b \<le> a_max_scroll b \<and> (a_mode b = NormalMode \<longrightarrow> a_input b = [])
    \<and> (list_ex (list_ex gives_channels \<circ> t_events) ts \<or> channel b \<noteq> None \<or> a_channels b = [])"
proof -
  have "screen_ok (\<not> list_ex (list_ex gives_channels \<circ> t_events) ts) b"
    using load_ok [OF assms(1)] run_loop_ok [OF _ assms(2)] by blast
  then show ?thesis by (auto simp: screen_ok_def channel_def)
qed

text \<open>No key changes a file: what a key asks for is returned as an action, and posting and adding a peer
  are left to what runs the action.
\<close>

theorem keys_write_nothing:
  "\<exists>r b n'. handle_key L meta key (a, n) = (r, (b, n')) \<and> files n' = files n \<and> dirs n' = dirs n"
proof -
  obtain r b n' where h: "handle_key L meta key (a, n) = (r, (b, n'))" by (metis prod.exhaust)
  then show ?thesis using handle_key_ok [OF h] by blast
qed

section \<open>Text entry\<close>

lemma encode_utf8_shape:
  "c < 0x110000 \<Longrightarrow> \<exists>x xs. encode_utf8 c = x # xs \<and> \<not> continuation x \<and> list_all continuation xs"
  by (auto simp: encode_utf8_def continuation_def Let_def)

lemma pop_push: "c < 0x110000 \<Longrightarrow> pop (s @ encode_utf8 c) = s"
proof -
  assume "c < 0x110000"
  then obtain x xs where e: "encode_utf8 c = x # xs" "\<not> continuation x" "list_all continuation xs"
    using encode_utf8_shape by blast
  then have "dropWhile continuation (rev xs @ x # rev s) = x # rev s"
    by (subst dropWhile_append2) (simp_all add: list_all_iff)
  then show ?thesis using e by (simp add: pop_def)
qed

text \<open>In both modes that enter text, a character typed and then erased leaves the input as it was, for
  every Unicode scalar value: Backspace removes whole characters of the UTF-8 text.
\<close>

theorem backspace_undoes_character:
  assumes "a_mode a \<noteq> NormalMode" and "c < 0x110000"
  shows "handle_key L meta \<lparr>k_code = Backspace, k_control = q\<rparr>
      (snd (handle_key L meta \<lparr>k_code = Character c, k_control = p\<rparr> (a, n))) = (Inr NoAction, (a, n))"
  using assms by (simp add: handle_key_def edit_key_def okS_def pop_push)

text \<open>A sequence of keys and the actions they ask for.\<close>

fun handle_keys :: "'x moderation_lib_scheme \<Rightarrow> metadata \<Rightarrow> key_event list \<Rightarrow> action list ui_io" where
  "handle_keys L meta [] = okS []"
| "handle_keys L meta (k # ks) =
    bindS (handle_key L meta k) (\<lambda>act. bindS (handle_keys L meta ks) (\<lambda>acts. okS (act # acts)))"

definition plain :: "key_code \<Rightarrow> key_event" where
  "plain k = \<lparr>k_code = k, k_control = False\<rparr>"

lemma handle_keys_append:
  "handle_keys L meta (ks @ js) u = bindS (handle_keys L meta ks) (\<lambda>as. bindS (handle_keys L meta js) (\<lambda>bs. okS (as @ bs))) u"
  by (induction ks arbitrary: u) (auto simp: bindS_def okS_def split: sum.splits prod.splits)

lemma type_characters:
  "a_mode a \<noteq> NormalMode \<Longrightarrow> handle_keys L meta (map (plain \<circ> Character) cs) (a, n) =
    (Inr (replicate (length cs) NoAction), (a\<lparr>a_input := a_input a @ concat (map encode_utf8 cs)\<rparr>, n))"
proof (induction cs arbitrary: a)
  case Nil
  then show ?case by (simp add: okS_def)
next
  case (Cons c cs)
  define a1 where "a1 = a\<lparr>a_input := a_input a @ encode_utf8 c\<rparr>"
  have h: "handle_key L meta (plain (Character c)) (a, n) = (Inr NoAction, (a1, n))"
    using Cons.prems by (simp add: handle_key_def edit_key_def plain_def okS_def a1_def)
  show ?case using Cons.IH [of a1] Cons.prems h by (simp add: bindS_def okS_def a1_def)
qed

lemma open_composer:
  "channel a \<noteq> None \<Longrightarrow> a_mode a = NormalMode \<Longrightarrow>
    handle_key L meta (plain (char_key (CHR ''p''))) (a, n) = (Inr NoAction, (a\<lparr>a_mode := PostMode, a_input := []\<rparr>, n))"
  by (simp add: handle_key_def command_key_def plain_def char_key_def okS_def)

text \<open>C32. With a channel selected, the composer hands over the text that was typed: after p, any characters and
  Enter, the only action is to post that text without the white space around it, and none when nothing else
  is left; with Esc in place of Enter nothing is posted. In both cases the screen is as it was before.
\<close>

theorem typed_text_submitted:
  assumes "channel a \<noteq> None" and "a_mode a = NormalMode" and "a_input a = []"
  shows "handle_keys L meta (plain (char_key (CHR ''p'')) # map (plain \<circ> Character) cs @ [plain Enter]) (a, n) =
      (Inr (replicate (Suc (length cs)) NoAction
          @ [let v = trim (concat (map encode_utf8 cs)) in if v = [] then NoAction else PostAction v]), (a, n))
    \<and> handle_keys L meta (plain (char_key (CHR ''p'')) # map (plain \<circ> Character) cs @ [plain Esc]) (a, n) =
      (Inr (replicate (length cs + 2) NoAction), (a, n))"
proof -
  define b where "b = a\<lparr>a_mode := PostMode, a_input := concat (map encode_utf8 cs)\<rparr>"
  have m: "a\<lparr>a_mode := NormalMode, a_input := []\<rparr> = a" using assms by simp
  have t: "handle_keys L meta (map (plain \<circ> Character) cs) (a\<lparr>a_mode := PostMode, a_input := []\<rparr>, n) =
      (Inr (replicate (length cs) NoAction), (b, n))"
    using type_characters [of "a\<lparr>a_mode := PostMode, a_input := []\<rparr>" L meta cs n] by (simp add: b_def)
  have e: "handle_key L meta (plain Enter) (b, n) =
      (Inr (let v = trim (concat (map encode_utf8 cs)) in if v = [] then NoAction else PostAction v), (a, n))"
    using m by (simp add: b_def handle_key_def edit_key_def plain_def okS_def Let_def)
  have x: "handle_key L meta (plain Esc) (b, n) = (Inr NoAction, (a, n))"
    using m by (simp add: b_def handle_key_def edit_key_def plain_def okS_def Let_def)
  show ?thesis
    using t e x open_composer [OF assms(1,2), of L meta n]
    by (simp add: handle_keys_append bindS_def okS_def replicate_append_same)
qed

section \<open>What the roles say\<close>

text \<open>The meaning of each of the six words, in terms of what the policy lets the key do.\<close>

definition shows_role :: "channel_policy \<Rightarrow> string \<Rightarrow> string \<Rightarrow> bool" where
  "shows_role p k r \<longleftrightarrow>
    (r = ''open writer'' \<longleftrightarrow> mode p = Open)
    \<and> (r = ''owner'' \<longleftrightarrow> mode p \<noteq> Open \<and> owner p = Some k)
    \<and> (r = ''moderator'' \<longleftrightarrow> mode p \<noteq> Open \<and> owner p \<noteq> Some k \<and> k \<in> set (moderators p))
    \<and> (r = ''writer'' \<longleftrightarrow> mode p \<noteq> Open \<and> owner p \<noteq> Some k \<and> k \<notin> set (moderators p) \<and> policy_allows_append p k)
    \<and> (r = ''reader'' \<longleftrightarrow> mode p \<noteq> Open \<and> policy_allows_read p k \<and> \<not> policy_allows_append p k)
    \<and> (r = ''non-member'' \<longleftrightarrow> mode p \<noteq> Open \<and> \<not> policy_allows_read p k)"

lemma role_of_shows: "shows_role p k (role_of p k)"
  by (auto simp: shows_role_def role_of_def policy_allows_append_iff policy_allows_read_iff)

lemma visibility_text_cases:
  "(visibility_text v = ''private'' \<longleftrightarrow> v = Private) \<and> (visibility_text v = ''public'' \<longleftrightarrow> v = Public)"
  by (cases v) (simp_all add: visibility_text_def)

text \<open>C33. After a refresh with a channel selected, the role and visibility on the screen are those of the
  channel's policy as it is on disk, for the node's identity: ``open writer'' exactly in an open channel; in a
  restricted one ``owner'' for the owner, ``moderator'' for a moderator that is not the owner, ``writer'' for anyone
  else who may append, ``reader'' for who may read and not append, and ``non-member'' for who may not read; and
  ``private'' exactly when the channel is private, ``public'' when it is public.
\<close>

theorem role_shown_matches_policy:
  assumes "refresh L meta (a, n) = (Inr (), (b, n'))" and "channel a = Some c" and "parse_channel c = Inr chan"
  shows "\<exists>p. read_channel_policy L (a_datadir a) chan n' = Inr p
    \<and> shows_role p (public_key (a_identity a)) (a_role b)
    \<and> (a_visibility b = ''private'' \<longleftrightarrow> visibility p = Private) \<and> (a_visibility b = ''public'' \<longleftrightarrow> visibility p = Public)"
proof -
  obtain q n1 where t: "read_channel_tail_decrypted_with_options L (a_datadir a) chan 500 (a_audit a) n = (q, n1)"
    by fastforce
  obtain p where "read_channel_policy L (a_datadir a) chan n1 = Inr p"
      "a_role b = role_of p (public_key (a_identity a))" "a_visibility b = visibility_text (visibility p)" "n' = n1"
    using assms t by (auto simp: refresh_def ui_steps readS_def take_fingerprint_def split: sum.splits)
  then show ?thesis
    using role_of_shows [of p] visibility_text_cases [of "visibility p"] by (intro exI [of _ p]) auto
qed

section \<open>Errors and lists\<close>

text \<open>C39. A peer that cannot be added, such as text that is no web-socket URL, ends the whole interface when
  it is typed: the main loop returns the error. The action handler, given the same action, reports it in the
  status line instead.
\<close>

theorem invalid_peer_ends_ui:
  assumes "a_mode a = PeerMode" and "trim (a_input a) = v" and "v \<noteq> []" and "channel a = Some c"
    and "parse_channel c = Inr chan"
    and "normalize_peer_url L v = Inl e" and "e \<noteq> Panicked" and "\<not> t_shutdown t" and "t_events t = []" and "\<not> t_refresh t"
    and "t_area t = Inr (width, height)" and "t_key t = Inr (Some (plain Enter))" and "\<not> a_quit a"
  shows "(\<exists>b n'. run_loop L meta sync (t # ts) (a, n) = (Inl e, (b, n')) \<and> \<not> a_quit b)
    \<and> apply_action L meta d sync (SyncAction v) (a, n) = (Inr (), (a\<lparr>a_status := ''error: '' @ error_chain L e\<rparr>, n))"
proof
  define b where "b = (render_timeline L width height a)\<lparr>a_mode := NormalMode, a_input := []\<rparr>"
  have b: "channel b = Some c" "\<not> a_quit b"
    using assms by (simp_all add: b_def render_timeline_def Let_def channel_def split: if_splits)
  have "handle_key L meta (plain Enter) (render_timeline L width height a, m) = (Inr (SyncAction v), (b, m))" for m
    using assms by (simp add: handle_key_def edit_key_def plain_def okS_def b_def render_timeline_def Let_def)
  then have "press L meta (t_draws t) sync (plain Enter) (render_timeline L width height a, m) = (Inl e, (b, m))" for m
    using assms(6) b by (simp add: press_def bindS_def [where m = "handle_key L meta (plain Enter)"] bindS_liftS
        bindS_on_disk add_peer_def)
  then show "\<exists>b n'. run_loop L meta sync (t # ts) (a, n) = (Inl e, (b, n')) \<and> \<not> a_quit b"
    using assms b(2) by (simp add: loop_turn_def local_refresh_def Let_def
        bindS_def [where m = "loop_turn L meta sync t"])
  show "apply_action L meta d sync (SyncAction v) (a, n) = (Inr (), (a\<lparr>a_status := ''error: '' @ error_chain L e\<rparr>, n))"
    using assms by (simp add: apply_action_def attempt_def set_status_def bindS_liftS bindS_on_disk add_peer_def)
qed

text \<open>Pressing p opens the composer, whatever the files are.\<close>

definition opens_composer :: "'x moderation_lib_scheme \<Rightarrow> metadata \<Rightarrow> app \<Rightarrow> bool" where
  "opens_composer L meta a \<longleftrightarrow> (\<forall>n. a_mode (fst (snd (handle_key L meta (plain (char_key (CHR ''p''))) (a, n)))) = PostMode)"

lemma composer_needs_channel: "a_mode a = NormalMode \<Longrightarrow> opens_composer L meta a \<longleftrightarrow> channel a \<noteq> None"
  by (auto simp: opens_composer_def handle_key_def command_key_def plain_def char_key_def okS_def bindS_def Let_def)

lemma local_refresh_selects:
  assumes "refresh_if_local_state_changed L meta (a, n) = (Inr True, (d, n1))"
    and "list_readable_channels L (a_datadir a) (Some (public_key (a_identity a))) n = Inr cs"
    and "cs \<noteq> []" and "channel a = Some c" and "c \<notin> set cs" and "length cs \<le> a_selected a"
  shows "a_channels d = cs \<and> channel d = Some (last cs) \<and> a_mode d = a_mode a"
proof -
  obtain fp where fp: "local_state_fingerprint L meta a n = Inr fp"
    using assms(1) by (cases "local_state_fingerprint L meta a n")
      (simp_all add: refresh_if_local_state_changed_def ui_steps readS_def)
  then have cs: "lf_channels fp = cs"
    using assms(2) by (auto simp: local_state_fingerprint_def bindR_ok)
  define a1 where "a1 = a\<lparr>a_channels := cs, a_selected := length cs - 1\<rparr>"
  have "(case Option.bind (channel a) (\<lambda>c. position c cs) of Some i \<Rightarrow> i | None \<Rightarrow> min (a_selected a) (length cs - 1)) = length cs - 1"
    using assms(4,5,6) by (simp add: position_None min_absorb2)
  then obtain e m where e: "refresh L meta (a1, n) = (Inr (), (e, m))" and
    d: "d = e\<lparr>a_scroll := a_scroll a, a_follow_tail := a_follow_tail a, a_status := ''local changes detected''\<rparr>"
    using assms(1) fp cs
    by (auto simp: refresh_if_local_state_changed_def ui_steps readS_def Let_def a1_def
        bindS_def [where m = "refresh L meta"] split: if_splits prod.splits sum.splits)
  have "same_controls a1 e" using refresh_keeps [OF e] by simp
  then show ?thesis
    using assms(3) d by (simp add: same_controls_def a1_def channel_def last_conv_nth)
qed

text \<open>C40. When the list of channels gets shorter and the selected one is gone from it, the two ways of taking it
  over differ. The refresh that follows a local change selects a channel of the new list, so that the composer
  opens. A background synchronization leaves the selection past the end of the list: there are channels and
  none is selected, and the composer does not open.
\<close>

theorem auto_sync_loses_selection:
  assumes "list_readable_channels L (a_datadir a) (Some (public_key (a_identity a))) n = Inr cs"
    and "cs \<noteq> []" and "channel a = Some c" and "c \<notin> set cs" and "length cs \<le> a_selected a"
    and "a_mode a = NormalMode"
    and "refresh_if_local_state_changed L meta (a, n) = (Inr True, (w, n1))"
    and "apply_auto_sync L meta (SyncComplete peer summary) (a, n) = (b, n2)"
  shows "a_channels w = cs \<and> channel w = Some (last cs) \<and> opens_composer L meta w
    \<and> a_channels b = cs \<and> channel b = None \<and> \<not> opens_composer L meta b"
proof -
  define a1 where "a1 = a\<lparr>a_connection := ''connected'' @ dot @ peer,
    a_status := ''auto-sync: '' @ show_nat (sum_channels summary) @ '' channel(s), ''
      @ show_nat (unat (sum_received summary)) @ '' received''\<rparr>"
  define a2 where "a2 = a1\<lparr>a_channels := cs, a_selected := a_selected a\<rparr>"
  have p: "position c cs = None" using \<open>c \<notin> set cs\<close> position_None by simp
  have ch: "channel a1 = Some c" "cs \<noteq> a_channels a1" "a_selected a1 = a_selected a" "a_datadir a1 = a_datadir a"
      "a_identity a1 = a_identity a" "a_mode a1 = a_mode a"
    using assms(3,5) by (auto simp: a1_def channel_def split: if_splits)
  obtain q d m where r: "refresh L meta (a2, n) = (q, (d, m))" by (metis prod.exhaust)
  have "same_controls a2 d" using refresh_keeps [OF r] by simp
  then have d: "a_channels d = cs" "a_selected d = a_selected a" "a_mode d = a_mode a"
    using ch by (simp_all add: same_controls_def a2_def)
  have "apply_auto_sync L meta (SyncComplete peer summary) (a, n) =
      (case q of Inl e \<Rightarrow> set_status (''refresh failed: '' @ error_chain L e) (d, m)
       | Inr _ \<Rightarrow> (d\<lparr>a_scroll := a_scroll a1, a_follow_tail := a_follow_tail a1\<rparr>, m))"
    unfolding apply_auto_sync_def auto_sync_event.case Let_def fst_conv snd_conv a1_def [symmetric]
    using assms(1) ch p r by (simp add: a2_def split: sum.split)
  then have b: "a_channels b = cs" "a_selected b = a_selected a" "a_mode b = a_mode a"
    using d assms(8) by (auto simp: set_status_def split: sum.splits)
  then have none: "channel b = None" using assms(5) by (simp add: channel_def)
  note loc = local_refresh_selects [OF assms(7,1,2,3,4,5)]
  have "a_mode w = NormalMode" "a_mode b = NormalMode" using loc b(3) assms(6) by simp_all
  then show ?thesis
    using b none loc composer_needs_channel [of b L meta] composer_needs_channel [of w L meta] by simp
qed

end
