(* ===== verification/Commands_Proofs.thy ===== *)
theory Commands_Proofs
  imports Commands Tui_Proofs
begin

text \<open>
  What the commands promise: an identity is created once and is then the node's, listing and showing
  writes nothing, a direct synchronization runs with a pinned peer only, and a text posted on the
  command line, by an agent and in the terminal becomes the same message.
\<close>

lemmas command_steps = printing_def on_channel_def as_owner_def bindS_readS bindS_liftS okS_def

section \<open>Identity\<close>

lemma path_ancestors_mem: "d \<noteq> [] \<Longrightarrow> d \<in> set (path_ancestors d)"
  by (rule path_ancestors_self)

lemma init_layout_result:
  "\<exists>n'. init_layout dir n = (Inr (), n') \<and> files n' = files n \<and> dbs n' = dbs n
    \<and> dir_exists (path_join dir ''keys'') n' \<and> set (dirs n) \<subseteq> set (dirs n')"
proof -
  have "path_join dir ''keys'' \<noteq> []" by (simp add: path_join_def)
  then show ?thesis
    using path_ancestors_self by (auto simp: init_layout_def bindS_def ensure_dir_def dir_exists_def)
qed

lemma initialize_identity_new:
  assumes "\<not> path_exists (identity_path dir) n"
    and "case key of None \<Rightarrow> i = generate L seed nick | Some p \<Rightarrow> Identity_File.load L p n = Inr i"
  shows "\<exists>n'. initialize_identity L seed dir key nick n = (Inr i, n')
    \<and> files n' = tput (identity_path dir) (keypair_json L i) (files n)"
proof -
  obtain n1 where "init_layout dir n = (Inr (), n1)" "files n1 = files n" "dir_exists (path_join dir ''keys'') n1"
    using init_layout_result by blast
  then show ?thesis
    using assms by (cases key) (simp_all add: initialize_identity_def bindS_def readS_def okS_def save_def
        replace_file_def)
qed

text \<open>C17. Initializing a node gives it an identity once. Where there is none and the key to import, if any, can be
  read, \<open>init\<close> succeeds and writes that one file; afterwards \<open>identity\<close> prints the public key of the
  imported or generated pair, and every further \<open>init\<close> fails and changes nothing.
\<close>

theorem init_gives_identity_once:
  assumes "keypair_json_ok L" and "\<not> path_exists (identity_path dir) n"
    and "case key of None \<Rightarrow> i = generate L (cd_seed d) nick | Some p \<Rightarrow> Identity_File.load L p n = Inr i"
  shows "\<exists>n'. run_command L d sync dir (Init key nick) n = (Inr (Printed [''initialized '' @ dir]), n')
    \<and> (\<forall>q. q \<noteq> identity_path dir \<longrightarrow> read_file q n' = read_file q n)
    \<and> (\<exists>rest. run_command L d' sync dir Identity n' = (Inr (Printed ((''public key: '' @ public_key i) # rest)), n'))
    \<and> (\<forall>key' nick'. run_command L d' sync dir (Init key' nick') n' = (Inl (App IdentityExists), n'))"
proof -
  obtain n' where r: "initialize_identity L (cd_seed d) dir key nick n = (Inr i, n')"
      "files n' = tput (identity_path dir) (keypair_json L i) (files n)"
    using initialize_identity_new [OF assms(2,3)] by blast
  have "load_secure L (identity_path dir) n' = Inr i" and e: "path_exists (identity_path dir) n'"
    using assms(1) r(2) by (simp_all add: load_secure_def Identity_File.load_def read_file_def keypair_json_ok_def path_exists_def
        file_exists_def)
  moreover have "initialize_identity L s dir key' nick' n' = (Inl (App IdentityExists), n')" for s key' nick'
    using e by (simp add: initialize_identity_def bindS_readS)
  ultimately show ?thesis
    using r by (intro exI [of _ n']) (simp add: run_command_def command_steps bindS_def read_file_def readS_def)
qed

section \<open>Commands that only show\<close>

fun only_shows :: "command \<Rightarrow> bool" where
  "only_shows Identity = True"
| "only_shows (ChannelPolicy _) = True"
| "only_shows (ChannelPolicyHistory _) = True"
| "only_shows (ChannelPolicyConflicts _) = True"
| "only_shows (ModerationHistory _) = True"
| "only_shows (ModerationConflicts _) = True"
| "only_shows (Tail _ _ _) = True"
| "only_shows PeerList = True"
| "only_shows _ = False"

definition keeps_files :: "'a io \<Rightarrow> bool" where
  "keeps_files m \<longleftrightarrow> (\<forall>n. files (snd (m n)) = files n \<and> dirs (snd (m n)) = dirs n)"

lemma keeps_files_steps:
  "keeps_files (okS x)" "keeps_files (liftS r)" "keeps_files (readS f)"
  by (simp_all add: keeps_files_def okS_def liftS_def readS_def)

lemma keeps_files_bindS: "keeps_files m \<Longrightarrow> (\<And>x. keeps_files (f x)) \<Longrightarrow> keeps_files (bindS m f)"
  unfolding keeps_files_def by (auto simp: bindS_def split: sum.splits prod.splits) (metis snd_conv)+

lemma keeps_files_tail: "keeps_files (read_channel_tail_decrypted_with_options L dir chan k b)"
  by (simp add: keeps_files_def tail_files)

lemma keeps_files_command: "only_shows c \<Longrightarrow> keeps_files (run_command L d sync dir c)"
  by (cases c) (simp_all add: run_command_def printing_def on_channel_def as_owner_def
      keeps_files_steps keeps_files_bindS keeps_files_tail)

lemma tail_command_member:
  assumes "run_command L d sync dir (Tail name k b) n = (Inr x, n')"
  shows "\<exists>chan i p. parse_channel name = Inr chan \<and> load_secure L (identity_path dir) n = Inr i
    \<and> read_channel_policy L dir chan n = Inr p \<and> policy_allows_read p (public_key i)"
  using assms
  by (auto simp: run_command_def printing_def on_channel_def as_owner_def runS_ok authorize_read_def bindR_ok guardR_def
      split: if_splits)

text \<open>A command that shows something leaves every file and directory as it is, whether it succeeds or not
  (the message index may be brought up to date), and \<open>tail\<close> prints messages only when the channel's policy lets the
  node's identity read.
\<close>

theorem showing_writes_nothing:
  assumes "only_shows c" and "run_command L d sync dir c n = (r, n')"
  shows "files n' = files n \<and> dirs n' = dirs n
    \<and> (\<forall>name k b x. c = Tail name k b \<and> r = Inr x \<longrightarrow> (\<exists>chan i p. parse_channel name = Inr chan
        \<and> load_secure L (identity_path dir) n = Inr i \<and> read_channel_policy L dir chan n = Inr p
        \<and> policy_allows_read p (public_key i)))"
proof (intro conjI allI impI)
  have k: "keeps_files (run_command L d sync dir c)" by (rule keeps_files_command [OF assms(1)])
  show "files n' = files n" "dirs n' = dirs n"
    using k [unfolded keeps_files_def, rule_format, of n] unfolding assms(2) by simp_all
  fix name k b x
  assume "c = Tail name k b \<and> r = Inr x"
  then have "run_command L d sync dir (Tail name k b) n = (Inr x, n')" using assms(2) by simp
  then show "\<exists>chan i p. parse_channel name = Inr chan \<and> load_secure L (identity_path dir) n = Inr i
      \<and> read_channel_policy L dir chan n = Inr p \<and> policy_allows_read p (public_key i)"
    by (rule tail_command_member)
qed

section \<open>Direct synchronization\<close>

lemma add_peer_expected:
  assumes "peer_lib_ok L" and "d \<noteq> []" and a: "add_peer L d value (Some v) n = (Inr rec, n1)"
  shows "\<exists>k. validate_peer_key L v = Inr k \<and> expected_peer_key L d value n1 = Inr (Some k)"
proof -
  obtain peers where "list_peer_records L d (snd (lock_config d n)) = Inr peers"
    using a by (auto simp: add_peer_def runS_ok)
  moreover have f: "files (snd (lock_config d n)) = files n" by (simp add: lock_config_def ensure_dir_def)
  have "list_peer_records L d (snd (lock_config d n)) = list_peer_records L d n"
    unfolding list_peer_records_def file_exists_def read_file_def f ..
  ultimately have "list_peer_records L d n = Inr peers" by simp
  from add_peer_result [OF assms(1,2) this a] obtain u k after where
      "normalize_peer_url L value = Inr u" "validate_peer_key L v = Inr k" "list_peer_records L d n1 = Inr after"
      "find_peer u after = Some rec" "peer_key rec = Some k"
    by (auto simp: validate_optional_key_def bindR_ok split: option.splits)
  then show ?thesis by (simp add: expected_peer_key_def)
qed

text \<open>C13. The \<open>sync\<close> command opens a session only with a peer whose identity is pinned: it fails without one, and what it
  runs is the session on files in which the peer's configured key is known, the one given on the
  command line if there is one.
\<close>

theorem direct_sync_is_pinned:
  assumes "peer_lib_ok L" and "dir \<noteq> []"
    and "run_command L d sync dir (SyncChannel peer key c) n = (Inr out, n')"
  shows "\<exists>n1 k received. sync peer c n1 = (Inr received, n') \<and> expected_peer_key L dir peer n1 = Inr (Some k)
    \<and> (case key of None \<Rightarrow> n1 = n | Some v \<Rightarrow> validate_peer_key L v = Inr k)"
proof (cases key)
  case None
  then show ?thesis using assms(3)
    by (auto simp: run_command_def printing_def sync_command_def runS_ok guardR_def split: if_splits)
next
  case (Some v)
  then obtain rec n1 received where a: "add_peer L dir peer (Some v) n = (Inr rec, n1)" "sync peer c n1 = (Inr received, n')"
    using assms(3) by (auto simp: run_command_def printing_def sync_command_def runS_ok)
  obtain k where k: "validate_peer_key L v = Inr k" "expected_peer_key L dir peer n1 = Inr (Some k)"
    using add_peer_expected [OF assms(1,2) a(1)] by auto
  then show ?thesis using a(2) Some by auto
qed

section \<open>One message, three ways to post it\<close>

text \<open>Signing a text for a channel and appending it, as the three front ends all do.\<close>

definition submit ::
  "'x moderation_lib_scheme \<Rightarrow> mcp_draws \<Rightarrow> string \<Rightarrow> channel_ref \<Rightarrow> keypair \<Rightarrow> message \<Rightarrow> (envelope \<times> string) io" where
  "submit L d dir chan kp m =
    bindS (sign_message_for_channel L (md_key d) (md_nonce d) dir chan kp m) (\<lambda>env.
    bindS (append_message L dir chan env) (\<lambda>i. okS (env, i)))"

lemma bindS_assoc: "bindS (bindS m f) g s = bindS m (\<lambda>x. bindS (f x) g) s"
  by (simp add: bindS_def split: sum.split prod.split)

lemma bindS_case: "m s = (r, t) \<Longrightarrow> bindS m f s = (case r of Inl e \<Rightarrow> (Inl e, t) | Inr x \<Rightarrow> f x t)"
  by (simp add: bindS_def)

lemma two_steps:
  assumes "bindS m (\<lambda>x. bindS (g x) (\<lambda>y. okS (x, y))) s = (q, t)"
  shows "bindS m (\<lambda>x. bindS (g x) (h x)) s = (case q of Inl e \<Rightarrow> (Inl e, t) | Inr (x, y) \<Rightarrow> h x y t)"
  using assms by (auto simp: bindS_def okS_def split: sum.splits prod.splits)

lemma command_line_submits:
  assumes "load_secure L (identity_path dir) n = Inr kp" and "parse_channel c = Inr chan"
    and "cd_now cd = md_now d" and "cd_key cd = md_key d" and "cd_nonce cd = md_nonce d"
    and q: "submit L d dir chan kp (new_text (md_now d) title tags body refs) n = (q, n')"
  shows "run_command L cd sync dir (PostText c title tags body refs) n =
    (case q of Inl e \<Rightarrow> (Inl e, n') | Inr (env, i) \<Rightarrow> (Inr (Printed [''posted '' @ c @ '' -> '' @ i]), n'))"
  using assms(1-5) by (simp add: run_command_def printing_def on_channel_def as_owner_def bindS_readS bindS_liftS bindS_assoc
      two_steps [OF q [unfolded submit_def]] okS_def split: sum.split prod.split)

lemma agent_submits:
  assumes "load_secure L (identity_path dir) n = Inr kp" and "parse_channel c = Inr chan"
    and "ensure_channel_log_exists L dir chan n = Inr ()"
    and q: "submit L d dir chan kp (new_text (md_now d) title tags body refs) n = (q, n')"
  shows "post_message L d dir \<lparr>pa_channel = c, pa_title = title, pa_body = body, pa_tags = tags, pa_refs = refs\<rparr> n =
    (case q of Inl e \<Rightarrow> (Inl e, n')
    | Inr (env, i) \<Rightarrow> (Inr (obj [(''id'', Str i), (''channel'', Str (full_name chan)), (''envelope'', envelope_value L env)]), n'))"
  using assms(1-3) by (simp add: post_message_def load_identity_def bindS_liftS bindS_readS Let_def
      two_steps [OF q [unfolded submit_def]] okS_def split: sum.split prod.split)

lemma on_disk_two_steps:
  assumes "bindS m (\<lambda>x. bindS (g x) (\<lambda>y. okS (x, y))) n = (q, n')"
  shows "bindS (on_disk m) (\<lambda>x. bindS (on_disk (g x)) h) (a, n)
    = (case q of Inl e \<Rightarrow> (Inl e, (a, n')) | Inr (x, y) \<Rightarrow> h y (a, n'))"
  using assms by (auto simp: bindS_def on_disk_def okS_def split: sum.splits prod.splits)

lemma terminal_submits:
  assumes "a_identity a = kp" and "channel a = Some c" and "parse_channel c = Inr chan" and "a_datadir a = dir"
    and q: "submit L d dir chan kp (new_text (md_now d) None [] body []) n = (q, n')"
  shows "attempt L d sync (PostAction body) (a, n) =
    (case q of Inl e \<Rightarrow> (Inl e, (a\<lparr>a_follow_tail := True\<rparr>, n'))
    | Inr (env, i) \<Rightarrow> (bindR (slice_to 12 i) (\<lambda>short. Inr (''posted '' @ short)), (a\<lparr>a_follow_tail := True\<rparr>, n')))"
  using assms(1-4)
  by (auto simp: attempt_def bindS_liftS on_disk_two_steps [OF q [unfolded submit_def]] okS_def bindR_def
      split: sum.split)

text \<open>C9. A text posted from the command line, by an agent and in the terminal takes the same course: with the same
  clock and randomness all three sign the same message with the node's identity and append it, leave the same files, and
  fail alike when signing or appending fails.
\<close>

theorem front_ends_post_alike:
  assumes "load_secure L (identity_path dir) n = Inr kp" and "parse_channel c = Inr chan"
    and "ensure_channel_log_exists L dir chan n = Inr ()"
    and "a_datadir a = dir" and "a_identity a = kp" and "channel a = Some c"
    and "cd_now cd = md_now d" and "cd_key cd = md_key d" and "cd_nonce cd = md_nonce d"
  shows "case submit L d dir chan kp (new_text (md_now d) None [] body []) n of
      (Inl e, n') \<Rightarrow>
        run_command L cd sync dir (PostText c None [] body []) n = (Inl e, n')
        \<and> post_message L d dir \<lparr>pa_channel = c, pa_title = None, pa_body = body, pa_tags = [], pa_refs = []\<rparr> n = (Inl e, n')
        \<and> apply_action L meta d sync (PostAction body) (a, n)
          = (if e = Panicked then (Inl e, (a\<lparr>a_follow_tail := True\<rparr>, n'))
             else (Inr (), (a\<lparr>a_follow_tail := True, a_status := ''error: '' @ error_chain L e\<rparr>, n')))
    | (Inr (env, i), n') \<Rightarrow>
        run_command L cd sync dir (PostText c None [] body []) n = (Inr (Printed [''posted '' @ c @ '' -> '' @ i]), n')
        \<and> (\<exists>posted. post_message L d dir \<lparr>pa_channel = c, pa_title = None, pa_body = body, pa_tags = [], pa_refs = []\<rparr> n
            = (Inr posted, n') \<and> value_get ''id'' posted = Some (Str i))
        \<and> snd (attempt L d sync (PostAction body) (a, n)) = (a\<lparr>a_follow_tail := True\<rparr>, n')"
proof -
  let ?m = "new_text (md_now d) None [] body []"
  obtain q n' where q: "submit L d dir chan kp ?m n = (q, n')" by fastforce
  note runs = command_line_submits [OF assms(1,2,7,8,9) q] agent_submits [OF assms(1-3) q]
    terminal_submits [OF assms(5,6,2,4) q]
  have "apply_action L meta d sync (PostAction body) (a, n)
      = (if e = Panicked then (Inl e, (a\<lparr>a_follow_tail := True\<rparr>, n'))
         else (Inr (), (a\<lparr>a_follow_tail := True, a_status := ''error: '' @ error_chain L e\<rparr>, n')))" if "q = Inl e" for e
    unfolding apply_action_def runs(3) that by (simp add: set_status_def)
  then show ?thesis
    unfolding runs q by (cases q) (auto simp: obj_def value_get_def tget_def)
qed

section \<open>Posting in the terminal\<close>

lemma submit_result:
  assumes ok: "envelope_json_ok L" "crypto_ok L" "log_rel L dir chan msgs n"
    and size: "\<forall>e s. sign_message_for_channel L (md_key d) (md_nonce d) dir chan kp m n = (Inr e, s)
      \<longrightarrow> length (log_bytes L (msgs @ [e])) < 2 ^ 64"
    and "submit L d dir chan kp m n = (q, n')"
  shows "case q of
      Inl e \<Rightarrow> log_rel L dir chan msgs n'
    | Inr (env, i) \<Rightarrow> verify L env = Inr () \<and> env_from env = public_key kp \<and> env_channel env = full_name chan
        \<and> i = env_id env \<and> carries L dir chan (md_nonce d) m n n' env
        \<and> log_rel L dir chan (log_append msgs env) n'"
proof -
  obtain p s1 where sign: "sign_message_for_channel L (md_key d) (md_nonce d) dir chan kp m n = (p, s1)" by fastforce
  have rel: "log_rel L dir chan msgs s1"
    using log_rel_outside [OF ok(3) writes_onlyD [OF sign_for_channel_frame sign]] index_keyring_distinct by (auto dest: not_sym)
  show ?thesis
  proof (cases p)
    case (Inl e)
    then show ?thesis using assms(5) sign rel by (auto simp: submit_def bindS_def)
  next
    case (Inr env)
    obtain i s2 where app: "append_message L dir chan env s1 = (i, s2)" by fastforce
    have len: "length (log_bytes L (msgs @ [env])) < 2 ^ 64" using size sign Inr by blast
    show ?thesis
    proof (cases i)
      case (Inl e)
      then have "s2 = s1" using append_message_result [OF ok(1,2) rel len app] by simp
      then show ?thesis using assms(5) sign \<open>p = Inr env\<close> app Inl rel by (auto simp: submit_def bindS_def okS_def)
    next
      case (Inr x)
      from post_result [OF ok sign [unfolded \<open>p = Inr env\<close>] app [unfolded Inr] len] show ?thesis
        using assms(5) sign \<open>p = Inr env\<close> app Inr by (auto simp: submit_def bindS_def okS_def)
    qed
  qed
qed

lemma refresh_keys:
  assumes "refresh L meta (a, n) = (r, (b, n'))"
  shows "current_channel_key L dir c n' = current_channel_key L dir c n"
proof -
  have "files n' = files n" using refresh_keeps [OF assms] by simp
  then show ?thesis by (simp add: current_channel_key_def load_keys_def Let_def file_exists_def read_file_def)
qed

lemma refresh_log_rel:
  assumes ok: "envelope_json_ok L" "crypto_ok L" "log_rel L (a_datadir a) chan msgs n"
    and c: "channel a = Some c" "parse_channel c = Inr chan" and r: "refresh L meta (a, n) = (r, (b, n'))"
  shows "log_rel L (a_datadir a) chan msgs n'"
proof -
  obtain q n1 where t: "read_channel_tail_with_options L (a_datadir a) chan 500 (a_audit a) n = (q, n1)" by fastforce
  have "log_rel L (a_datadir a) chan msgs n1"
  proof (cases "\<not> a_audit a \<longrightarrow> is_ok (moderation_state L (a_datadir a) chan n)")
    case True
    then obtain st where "\<not> a_audit a \<longrightarrow> moderation_state L (a_datadir a) chan n = Inr st" by (auto simp: is_ok_iff)
    from tail_result [OF ok, of 500 "\<not> a_audit a" st, OF _ this] t show ?thesis by auto
  next
    case False
    then have "n1 = n" using t by (auto simp: read_channel_tail_with_options_def bindS_readS is_ok_iff split: sum.splits)
    then show ?thesis using ok(3) by simp
  qed
  moreover have "n' = n1"
    using r c t by (auto simp: refresh_def ui_steps readS_def read_channel_tail_decrypted_with_options_def
        bindS_def [where m = "read_channel_tail_with_options L k chan j t" for k j t] take_fingerprint_def split: sum.splits)
  ultimately show ?thesis by simp
qed


end
