(* ===== verification/Lifecycle.thy ===== *)
theory Lifecycle
  imports Tui
begin

text \<open>
  Starting and stopping: the managed server of \<open>src/server.rs\<close> (\<open>start\<close>, \<open>run\<close>, \<open>ServerHandle\<close>) and
  \<open>run\<close> of \<open>src/tui.rs\<close>, which holds the terminal, the server and two tasks while the main loop of \<open>Tui\<close>
  runs, and gives them back on every way out. What the operating system answers is an argument.
\<close>

section \<open>What a process holds\<close>

text \<open>The node's files, the terminal's modes, the server that is listening, the two tasks that are kept track of, the
  synchronizations that were spawned on a key and left to themselves (the peer and the channel of each), and
  the number of calls made to the terminal so far.\<close>

record host =
  h_node :: node_fs
  h_raw :: bool
  h_alternate :: bool
  h_server :: "app_state option"
  h_sync :: bool
  h_signals :: bool
  h_jobs :: "(string \<times> string) list"
  h_calls :: nat

type_synonym 'a host_io = "host \<Rightarrow> 'a result \<times> host"

text \<open>The answers: of parsing an address, of binding it (the local address), of each call to the terminal by its
  number, and of the server's task once it has been told to stop or has failed.\<close>

record host_env =
  parse_addr :: "string \<Rightarrow> string result"
  bind_addr :: "string \<Rightarrow> string result"
  terminal_call :: "nat \<Rightarrow> unit result"
  served :: "unit result"

definition change :: "(host \<Rightarrow> host) \<Rightarrow> unit host_io" where
  "change f h = (Inr (), f h)"

definition on_terminal :: "host_env \<Rightarrow> (host \<Rightarrow> host) \<Rightarrow> unit host_io" where
  "on_terminal env f h =
    (let h' = h\<lparr>h_calls := Suc (h_calls h)\<rparr> in
     case terminal_call env (h_calls h) of Inl e \<Rightarrow> (Inl e, h') | Inr _ \<Rightarrow> (Inr (), f h'))"

definition enable_raw_mode :: "host_env \<Rightarrow> unit host_io" where
  "enable_raw_mode env = on_terminal env (h_raw_update (\<lambda>_. True))"

definition disable_raw_mode :: "host_env \<Rightarrow> unit host_io" where
  "disable_raw_mode env = on_terminal env (h_raw_update (\<lambda>_. False))"

definition enter_alternate_screen :: "host_env \<Rightarrow> unit host_io" where
  "enter_alternate_screen env = on_terminal env (h_alternate_update (\<lambda>_. True))"

definition leave_alternate_screen :: "host_env \<Rightarrow> unit host_io" where
  "leave_alternate_screen env = on_terminal env (h_alternate_update (\<lambda>_. False))"

text \<open>\<open>Terminal::new\<close> and \<open>show_cursor\<close>.\<close>

definition plain_call :: "host_env \<Rightarrow> unit host_io" where
  "plain_call env = on_terminal env (\<lambda>h. h)"

text \<open>\<open>let _ = m;\<close>\<close>

definition ignoring :: "'a host_io \<Rightarrow> unit host_io" where
  "ignoring m h = (Inr (), snd (m h))"

text \<open>\<open>m\<close>, then the drop \<open>d\<close> of a value that \<open>m\<close> holds, whatever \<open>m\<close> returns.\<close>

definition dropping :: "(host \<Rightarrow> host) \<Rightarrow> 'a host_io \<Rightarrow> 'a host_io" where
  "dropping d m h = (case m h of (r, h') \<Rightarrow> (r, d h'))"

section \<open>The managed server\<close>

definition start :: "'x proto_lib_scheme \<Rightarrow> host_env \<Rightarrow> string \<Rightarrow> string \<Rightarrow> string host_io" where
  "start L env dir listen =
    bindS (liftS (parse_addr env listen)) (\<lambda>requested.
    bindS (liftS (bind_addr env requested)) (\<lambda>addr.
    bindS (readS (\<lambda>h. load_secure L (identity_path dir) (h_node h))) (\<lambda>identity.
    bindS (change (h_server_update (\<lambda>_. Some (router_with_identity dir identity)))) (\<lambda>_.
    okS addr))))"

text \<open>\<open>ServerHandle::shutdown\<close> and \<open>wait\<close> both end with the task's result; the socket is closed by then.\<close>

definition shutdown :: "host_env \<Rightarrow> unit host_io" where
  "shutdown env h = (served env, h\<lparr>h_server := None\<rparr>)"

definition wait :: "host_env \<Rightarrow> unit host_io" where
  "wait env h = (served env, h\<lparr>h_server := None\<rparr>)"

text \<open>\<open>Drop\<close> of a handle: the task is told to stop and aborted.\<close>

definition drop_handle :: "host \<Rightarrow> host" where
  "drop_handle h = h\<lparr>h_server := None\<rparr>"

text \<open>\<open>server::run\<close>\<close>

definition serve :: "'x proto_lib_scheme \<Rightarrow> host_env \<Rightarrow> string \<Rightarrow> string \<Rightarrow> unit host_io" where
  "serve L env dir listen =
    bindS (start L env dir listen) (\<lambda>_.
    wait env)"

definition shutdown_managed :: "host_env \<Rightarrow> bool \<Rightarrow> unit host_io" where
  "shutdown_managed env managed = (if managed then shutdown env else okS ())"

definition drop_managed :: "bool \<Rightarrow> host \<Rightarrow> host" where
  "drop_managed managed h = (if managed then drop_handle h else h)"

section \<open>The terminal\<close>

text \<open>\<open>Drop\<close> of \<open>TerminalRestore\<close> while it is armed.\<close>

definition restore_terminal :: "host_env \<Rightarrow> host \<Rightarrow> host" where
  "restore_terminal env h =
    snd (bindS (ignoring (disable_raw_mode env)) (\<lambda>_. ignoring (leave_alternate_screen env)) h)"

definition start_listener ::
  "'x proto_lib_scheme \<Rightarrow> host_env \<Rightarrow> string \<Rightarrow> string option \<Rightarrow> app \<Rightarrow> app host_io" where
  "start_listener L env dir listen a =
    (case listen of
       None \<Rightarrow> okS a
     | Some address \<Rightarrow>
         bindS (start L env dir address) (\<lambda>addr. okS (a\<lparr>a_listener := ''listening '' @ addr\<rparr>)))"

text \<open>Steps after a failure of setting up: what is held is given back, then the error is returned.\<close>

definition failing :: "host_env \<Rightarrow> bool \<Rightarrow> unit host_io \<Rightarrow> error \<Rightarrow> unit host_io" where
  "failing env managed undo e =
    bindS (change (h_sync_update (\<lambda>_. False))) (\<lambda>_.
    dropping (drop_managed managed)
      (bindS undo (\<lambda>_.
       bindS (ignoring (shutdown_managed env managed)) (\<lambda>_.
       liftS (Inl e)))))"

definition handling :: "'a host_io \<Rightarrow> (error \<Rightarrow> 'b host_io) \<Rightarrow> ('a \<Rightarrow> 'b host_io) \<Rightarrow> 'b host_io" where
  "handling m failed f h = (case m h of (Inl e, h') \<Rightarrow> failed e h' | (Inr x, h') \<Rightarrow> f x h')"

text \<open>The end of \<open>run\<close>: the loop has the given result.\<close>

definition finish :: "host_env \<Rightarrow> bool \<Rightarrow> unit result \<Rightarrow> unit host_io" where
  "finish env managed result =
    bindS (change (\<lambda>h. h\<lparr>h_sync := False, h_signals := False\<rparr>)) (\<lambda>_ h.
    let (terminal_cleanup, h1) =
          bindS (disable_raw_mode env) (\<lambda>_.
          bindS (leave_alternate_screen env) (\<lambda>_.
          plain_call env)) h;
        (server_cleanup, h2) = shutdown_managed env managed h1
    in (bindR result (\<lambda>_. bindR terminal_cleanup (\<lambda>_. server_cleanup)), h2))"

text \<open>With the terminal: \<open>main\<close> is the main loop. A panic in it unwinds past the end of \<open>run\<close>, so that the
  values held are dropped instead.\<close>

definition in_terminal :: "host_env \<Rightarrow> bool \<Rightarrow> unit host_io \<Rightarrow> unit host_io" where
  "in_terminal env managed main =
    handling (enable_raw_mode env) (failing env managed (okS ())) (\<lambda>_.
    handling (enter_alternate_screen env) (failing env managed (disable_raw_mode env)) (\<lambda>_.
    handling (plain_call env)
      (\<lambda>e. dropping (restore_terminal env)
        (failing env managed (bindS (disable_raw_mode env) (\<lambda>_. leave_alternate_screen env)) e)) (\<lambda>_.
    bindS (change (h_signals_update (\<lambda>_. True))) (\<lambda>_ h.
    case main h of (result, h1) \<Rightarrow>
      if result = Inl Panicked then (result, drop_managed managed (restore_terminal env h1))
      else finish env managed result h1))))"

definition main_loop ::
  "'x tui_lib_scheme \<Rightarrow> metadata \<Rightarrow> (string \<Rightarrow> string \<Rightarrow> u64 io) \<Rightarrow> turn list \<Rightarrow> app \<Rightarrow> unit host_io" where
  "main_loop L meta sync ts a h =
    (case loop_turns L meta sync ts (a, h_node h) of
       (jobs, r, (_, n)) \<Rightarrow> (r, h\<lparr>h_node := n, h_jobs := h_jobs h @ jobs\<rparr>))"

text \<open>\<open>tui::run\<close>, with the turns its main loop goes through.\<close>

definition run ::
  "'x tui_lib_scheme \<Rightarrow> metadata \<Rightarrow> (string \<Rightarrow> string \<Rightarrow> u64 io) \<Rightarrow> host_env \<Rightarrow> string \<Rightarrow> string option \<Rightarrow> turn list
    \<Rightarrow> unit host_io"
where
  "run L meta sync env dir listen ts =
    bindS (\<lambda>h. case Tui.load L meta dir (h_node h) of (r, n) \<Rightarrow> (r, h\<lparr>h_node := n\<rparr>)) (\<lambda>a.
    bindS (start_listener L env dir listen a) (\<lambda>a1.
    bindS (change (h_sync_update (\<lambda>_. True))) (\<lambda>_.
    in_terminal env (listen \<noteq> None) (main_loop L meta sync ts a1))))"

end
