(* ===== verification/Lifecycle_Proofs.thy ===== *)
theory Lifecycle_Proofs
  imports Lifecycle
begin

text \<open>
  What is given back when the terminal interface ends: the server, the tasks and the terminal, on
  every way out; and the one way out that leaves the screen as it is.
\<close>

definition idle :: "host \<Rightarrow> bool" where
  "idle h \<longleftrightarrow> h_server h = None \<and> \<not> h_sync h \<and> \<not> h_signals h"

definition plain_terminal :: "host \<Rightarrow> bool" where
  "plain_terminal h \<longleftrightarrow> \<not> h_raw h \<and> \<not> h_alternate h"

text \<open>A loop that touches nothing but the files and spawns synchronizations.\<close>

definition only_files :: "unit host_io \<Rightarrow> bool" where
  "only_files main \<longleftrightarrow> (\<forall>h. \<exists>r n js. main h = (r, h\<lparr>h_node := n, h_jobs := js\<rparr>))"

lemma main_loop_only_files: "only_files (main_loop L meta sync ts a)"
proof -
  have "\<exists>r n js. main_loop L meta sync ts a h = (r, h\<lparr>h_node := n, h_jobs := js\<rparr>)" for h
    unfolding main_loop_def by (cases "loop_turns L meta sync ts (a, h_node h)") (auto split: prod.split)
  then show ?thesis by (simp add: only_files_def)
qed

lemmas terminal_steps = on_terminal_def enable_raw_mode_def disable_raw_mode_def enter_alternate_screen_def
  leave_alternate_screen_def plain_call_def Let_def

lemma shutdown_managed_result:
  "shutdown_managed env managed h = ((if managed then served env else Inr ()), drop_managed managed h)"
  by (simp add: shutdown_managed_def drop_managed_def shutdown_def drop_handle_def okS_def)

lemmas way_out = handling_def failing_def finish_def change_def dropping_def ignoring_def restore_terminal_def
  drop_managed_def drop_handle_def bindS_def okS_def liftS_def shutdown_managed_result idle_def plain_terminal_def terminal_steps

lemma in_terminal_idle:
  assumes "in_terminal env managed main h = (r, h')" and "only_files main" and "\<not> h_signals h"
    and "managed \<or> h_server h = None"
  shows "h_server h' = None \<and> (r = Inl Panicked \<or> idle h')"
proof -
  obtain g f js where main: "main = (\<lambda>h. (g h, h\<lparr>h_node := f h, h_jobs := js h\<rparr>))"
    using assms(2) unfolding only_files_def by metis
  show ?thesis
    using assms(1,3,4) unfolding main in_terminal_def
    by (auto simp: way_out split: sum.splits prod.splits if_splits)
qed

definition orderly :: "host_env \<Rightarrow> nat \<Rightarrow> bool" where
  "orderly env k \<longleftrightarrow> (\<forall>i \<ge> k + 3. is_ok (terminal_call env i))
    \<and> (is_ok (terminal_call env (k + 1)) \<or> is_ok (terminal_call env (k + 2)))"

lemma in_terminal_restores:
  assumes "in_terminal env managed main h = (r, h')" and "only_files main" and "plain_terminal h"
    and "orderly env (h_calls h)"
  shows "plain_terminal h'"
proof -
  obtain g f js where main: "main = (\<lambda>h. (g h, h\<lparr>h_node := f h, h_jobs := js h\<rparr>))"
    using assms(2) unfolding only_files_def by metis
  have ok: "terminal_call env i \<noteq> Inl e" if "i \<ge> h_calls h + 3" for i e
    using assms(4) that unfolding orderly_def by (metis is_ok_simps(2))
  show ?thesis
    using assms(1,3,4) ok unfolding main in_terminal_def orderly_def
    by (auto simp: way_out is_ok_iff split: sum.splits prod.splits if_splits)
qed

text \<open>The synchronizations that a run of the loop spawns on the files \<open>n\<close>.\<close>

definition spawned ::
  "'x tui_lib_scheme \<Rightarrow> metadata \<Rightarrow> (string \<Rightarrow> string \<Rightarrow> u64 io) \<Rightarrow> turn list \<Rightarrow> app \<Rightarrow> node_fs \<Rightarrow> (string \<times> string) list" where
  "spawned L meta sync ts a n = fst (loop_turns L meta sync ts (a, n))"

lemma in_terminal_jobs:
  assumes "in_terminal env managed (main_loop L meta sync ts a) h = (r, h')"
  shows "h_jobs h' = h_jobs h \<or> h_jobs h' = h_jobs h @ spawned L meta sync ts a (h_node h)"
proof -
  define g where "g n = fst (snd (loop_turns L meta sync ts (a, n)))" for n
  define f where "f n = snd (snd (snd (loop_turns L meta sync ts (a, n))))" for n
  have main: "main_loop L meta sync ts a =
      (\<lambda>h. (g (h_node h), h\<lparr>h_node := f (h_node h), h_jobs := h_jobs h @ spawned L meta sync ts a (h_node h)\<rparr>))"
    by (rule ext) (simp add: main_loop_def g_def f_def spawned_def case_prod_beta)
  show ?thesis
    using assms unfolding main in_terminal_def
    by (auto simp: way_out split: sum.splits prod.splits if_splits)
qed

section \<open>Every way out\<close>

lemma start_result:
  assumes "start L env dir address h = (r, h1)"
  shows "\<exists>v. h1 = h\<lparr>h_server := v\<rparr> \<and> (is_ok r \<or> v = h_server h)"
proof -
  have "(h1 = h\<lparr>h_server := h_server h\<rparr>) \<or> (is_ok r \<and> (\<exists>v. h1 = h\<lparr>h_server := v\<rparr>))"
    using assms by (auto simp: start_def bindS_def liftS_def readS_def change_def okS_def split: sum.splits)
      (metis is_ok_simps(1))
  then show ?thesis by blast
qed

lemma start_listener_result:
  assumes "start_listener L env dir listen a h = (r, h1)"
  shows "\<exists>v. h1 = h\<lparr>h_server := v\<rparr> \<and> ((listen \<noteq> None \<and> is_ok r) \<or> v = h_server h)"
proof (cases listen)
  case None
  then have "h1 = h\<lparr>h_server := h_server h\<rparr>" using assms by (simp add: start_listener_def okS_def)
  then show ?thesis by blast
next
  case (Some address)
  obtain q h2 where q: "start L env dir address h = (q, h2)" by fastforce
  then have "h1 = h2 \<and> (is_ok r \<longleftrightarrow> is_ok q)"
    using assms Some by (cases q) (auto simp: start_listener_def bindS_def okS_def)
  then show ?thesis using start_result [OF q] Some by auto
qed

lemma start_listener_app:
  "start_listener L env dir listen a h = (Inr a1, h1) \<Longrightarrow> \<exists>t. a1 = a\<lparr>a_listener := t\<rparr>"
proof (cases listen)
  case None
  then have "a1 = a\<lparr>a_listener := a_listener a\<rparr>"
    if "start_listener L env dir listen a h = (Inr a1, h1)" using that by (simp add: start_listener_def okS_def)
  then show "start_listener L env dir listen a h = (Inr a1, h1) \<Longrightarrow> ?thesis" by blast
qed (auto simp: start_listener_def okS_def bindS_def split: sum.splits prod.splits)

lemma run_cases:
  assumes "run L meta sync env dir listen ts h = (r, h')"
  shows "(\<not> is_ok r \<and> (\<exists>n. h' = h\<lparr>h_node := n\<rparr>))
    \<or> (\<exists>n a t v. Tui.load L meta dir (h_node h) = (Inr a, n)
        \<and> in_terminal env (listen \<noteq> None) (main_loop L meta sync ts (a\<lparr>a_listener := t\<rparr>))
            (h\<lparr>h_node := n, h_server := v, h_sync := True\<rparr>) = (r, h')
        \<and> (listen \<noteq> None \<or> v = h_server h))"
proof -
  obtain q n where l: "Tui.load L meta dir (h_node h) = (q, n)" by fastforce
  show ?thesis
  proof (cases q)
    case (Inl e)
    then show ?thesis using assms l by (auto simp: run_def bindS_def)
  next
    case (Inr a)
    obtain p h1 where p: "start_listener L env dir listen a (h\<lparr>h_node := n\<rparr>) = (p, h1)" by fastforce
    from start_listener_result [OF p] obtain v where v: "h1 = h\<lparr>h_node := n, h_server := v\<rparr>"
        "(listen \<noteq> None \<and> is_ok p) \<or> v = h_server h" by auto
    show ?thesis
    proof (cases p)
      case (Inl e)
      then have "h' = h\<lparr>h_node := n\<rparr>" "\<not> is_ok r" using assms l Inr p v by (auto simp: run_def bindS_def)
      then show ?thesis by blast
    next
      case (Inr a1)
      obtain t where "a1 = a\<lparr>a_listener := t\<rparr>" using start_listener_app p Inr by blast
      then have "in_terminal env (listen \<noteq> None) (main_loop L meta sync ts (a\<lparr>a_listener := t\<rparr>))
          (h\<lparr>h_node := n, h_server := v, h_sync := True\<rparr>) = (r, h')"
        using assms l \<open>q = Inr a\<close> p Inr v(1) by (simp add: run_def bindS_def change_def)
      then show ?thesis using v(2) l \<open>q = Inr a\<close> by blast
    qed
  qed
qed


text \<open>One failure leaves the screen as it is: when the user has quit and leaving raw mode fails, the
  alternate screen is not left either, although that call would succeed; the guard that restores the terminal
  on every other early return has been disarmed, so neither call is tried again.\<close>

theorem failed_cleanup_leaves_screen:
  assumes "Tui.load L meta dir (h_node h) = (Inr a, n)" and "run_loop L meta sync ts (a, n) = (Inr jobs, u)"
    and "\<forall>i. i = h_calls h + 3 \<or> is_ok (terminal_call env i)" and "terminal_call env (h_calls h + 3) = Inl e"
  shows "\<exists>h'. run L meta sync env dir None ts h = (Inl e, h') \<and> h_raw h' \<and> h_alternate h' \<and> h_calls h' = h_calls h + 4"
proof -
  have loop: "loop_turns L meta sync ts (a, n) = (jobs, Inr (), u)"
    using assms(2) by (auto simp: run_loop_def bindR_def split: prod.splits sum.splits)
  have ok: "\<exists>x. terminal_call env i = Inr x" if "i \<noteq> h_calls h + 3" for i
    using assms(3) that by (auto simp: is_ok_iff)
  obtain x where "terminal_call env (h_calls h) = Inr x" using ok [of "h_calls h"] by auto
  moreover obtain y where "terminal_call env (Suc (h_calls h)) = Inr y" using ok [of "Suc (h_calls h)"] by auto
  moreover obtain z where "terminal_call env (Suc (Suc (h_calls h))) = Inr z" using ok [of "Suc (Suc (h_calls h))"] by auto
  moreover have "terminal_call env (Suc (Suc (Suc (h_calls h)))) = Inl e" using assms(4) by (simp add: eval_nat_numeral)
  ultimately show ?thesis
    using assms(1) loop by (cases u) (simp add: run_def in_terminal_def main_loop_def start_listener_def way_out bindR_def eval_nat_numeral)
qed

end
