(* ===== verification/Witnesses_App.thy ===== *)
theory Witnesses_App
  imports Witnesses_Sync Mcp_Proofs Tui_Proofs Commands_Proofs Lifecycle_Proofs
begin

text \<open>
  The theorems on the agent interface, the terminal and the command line, applied at a node that has an
  identity and the channel \<open>ops\<close>.
\<close>

section \<open>A node with an identity\<close>

definition node0 :: node_fs where
  "node0 = \<lparr>files = [(''node/channels/ops/log.ndjson'', []), (''node/keys/identity.json'', keypair_json lib0 owner0)],
     dirs = [''node'', ''node/channels'', ''node/channels/ops'', ''node/keys''], dbs = []\<rparr>"

definition like0 :: "node_fs \<Rightarrow> bool" where
  "like0 n \<longleftrightarrow> files n = files node0 \<and> dirs n = dirs node0"

lemma like0_refl [simp]: "like0 node0"
  by (simp add: like0_def)

lemma paths1:
  "channel_dir base0 chan0 = ''node/channels/ops''" "log_path base0 chan0 = ''node/channels/ops/log.ndjson''"
  "identity_path base0 = ''node/keys/identity.json''" "config_path base0 = ''node/peers.json''"
  "policy_log_path base0 chan0 = ''node/channels/ops/policy.ndjson''"
  "policy_path base0 chan0 = ''node/channels/ops/policy.json''"
  "moderation_log_path base0 chan0 = ''node/channels/ops/moderation.ndjson''"
  by (simp_all add: channel_dir_def log_path_def identity_path_def config_path_def policy_log_path_def policy_path_def
      moderation_log_path_def chan0_def paths0 channel_file_def path_join_def) (simp_all add: base0_def)

lemma like0_files [simp]:
  "like0 n \<Longrightarrow> tget (files n) p =
    (if p = ''node/channels/ops/log.ndjson'' then Some []
     else if p = ''node/keys/identity.json'' then Some (keypair_json lib0 owner0) else None)"
  "like0 n \<Longrightarrow> dir_exists d n \<longleftrightarrow> d \<in> {''node'', ''node/channels'', ''node/channels/ops'', ''node/keys''}"
  by (simp_all add: like0_def node0_def tget_def dir_exists_def)

lemma parse_ops [simp]: "parse_channel ''ops'' = Inr chan0"
  by (simp add: parse_channel_def paths0 chan0_def)

lemma like0_identity [simp]: "like0 n \<Longrightarrow> load_secure lib0 (identity_path base0) n = Inr owner0"
  using lib0_keypair_json by (simp add: load_secure_def Identity_File.load_def read_file_def paths1 keypair_json_ok_def)

lemma like0_policy [simp]:
  "like0 n \<Longrightarrow> read_policy_history lib0 base0 chan0 n = Inr []"
  "like0 n \<Longrightarrow> read_channel_policy lib0 base0 chan0 n = Inr default_policy"
  by (simp_all add: read_policy_history_unlocked_def read_policy_history_def file_exists_def paths1
      open_history_lock_def read_policy_cache_def read_channel_policy_def open_log_def read_file_def Let_def)

lemma like0_moderation [simp]: "like0 n \<Longrightarrow> moderation_state lib0 base0 chan0 n = Inr []"
  by (simp add: moderation_state_def read_moderation_history_def read_moderation_history_unlocked_def open_history_lock_def
      paths1 file_exists_def derive_moderation_def)

lemma like0_readable [simp]: "like0 n \<Longrightarrow> list_readable_channels lib0 base0 key n = Inr [''ops'']"
proof -
  assume n: "like0 n"
  have "channel_of_path ''node/channels'' ''node/channels/ops/log.ndjson'' = Some ''ops''"
    "channel_of_path ''node/channels'' ''node/keys/identity.json'' = None" by code_simp+
  then have "list_channels base0 n = [''ops'']"
    using n paths0(1) by (simp add: list_channels_def collect_channels_def like0_def node0_def tkeys_def path_join_def base0_def
        dir_exists_def map_filter_simps)
  then show ?thesis using n
    by (cases key) (simp_all add: list_readable_channels_def default_policy_def policy_allows_read_def)
qed

lemma node0_rel: "log_rel lib0 base0 chan0 [] node0"
proof -
  have "get_db (index_path base0 chan0) node0 = empty_db" by (simp add: get_db_def node0_def)
  then show ?thesis by (simp add: log_rel_def log_wf_def index_ok_def index_current_def empty_db_def paths1)
qed

lemma node0_tail: "\<exists>n. read_channel_tail_decrypted_with_options lib0 base0 chan0 (Suc k) b node0 = (Inr [], n) \<and> like0 n"
proof -
  obtain n where n: "read_channel_tail_with_options lib0 base0 chan0 (Suc k) b node0 = (Inr [], n)"
    using tail_result [OF lib0_envelope_json lib0_crypto node0_rel, of "Suc k" "\<not> b" "[]"] by (auto simp: last_n_def)
  then have "read_channel_tail_decrypted_with_options lib0 base0 chan0 (Suc k) b node0 = (Inr [], n)"
    by (simp add: read_channel_tail_decrypted_with_options_def bindS_def readS_def)
  moreover from this have "like0 n"
    using tail_files [of lib0 base0 chan0 "Suc k" b node0] by (simp add: like0_def)
  ultimately show ?thesis by blast
qed

lemma node0_log_exists: "ensure_channel_log_exists lib0 base0 chan0 node0 = Inr ()"
proof -
  have "path_starts_with ''node/channels/ops/log.ndjson'' ''node''" by code_simp
  then show ?thesis
    by (simp add: ensure_channel_log_exists_def ensure_under_datadir_def path_exists_def file_exists_def Let_def
        path_join_def chan0_def base0_def) (simp add: lib0_def guardR_def)
qed

lemma node0_reads: "authorize_read lib0 base0 chan0 key node0 = Inr ()" "full_name chan0 = ''ops''"
  by (simp_all add: authorize_read_def bindR_def guardR_def default_policy_def policy_allows_read_def chan0_def [symmetric])
    (simp add: chan0_def)

section \<open>The agent interface\<close>

theorem mcp_message_bounded_witness:
  "length ([123, 125] :: bytes) \<le> max_mcp_message_bytes \<and> length ([] :: bytes) < length (frame [123, 125])"
proof (rule mcp_message_bounded)
  show "read_mcp_message (frame [123, 125]) = (Inr (Some [123, 125]), [])"
    using read_frame [of "[123, 125]" "[]"] by (simp add: max_mcp_message_bytes_def)
qed

definition draws1 :: mcp_draws where
  "draws1 = \<lparr>md_now = 5, md_key = replicate 32 5, md_nonce = replicate 24 9\<rparr>"

definition ping0 :: bytes where
  "ping0 = put request_c (Some ''1'', ''ping'', [])"

definition notice0 :: bytes where
  "notice0 = put request_c (None, ''ping'', [])"

lemma requests0:
  "request_of_json lib0 ping0 = Some (request0 (Some ''1'', ''ping'', []))"
  "request_of_json lib0 notice0 = Some (request0 (None, ''ping'', []))"
  by (simp_all add: lib0_def ping0_def notice0_def request_c_def get_put codec_intros)

lemma short_requests: "length ping0 < 1000" "length notice0 < 1000"
proof -
  have "sexp_bound (fst request_c (Some ''1'', ''ping'', [])) < 1000" "sexp_bound (fst request_c (None, ''ping'', [])) < 1000"
    by (simp_all add: request_c_def map_c_def pair_c_def string_c_def option_c_def list_c_def)
  then show "length ping0 < 1000" "length notice0 < 1000"
    using length_enc [of "fst request_c (Some ''1'', ''ping'', [])"] length_enc [of "fst request_c (None, ''ping'', [])"]
    by (simp_all add: ping0_def notice0_def put_def)
qed


definition tail_params0 :: json where
  "tail_params0 = obj [(''name'', Str ''tail_channel''),
     (''arguments'', obj [(''channel'', Str ''ops''), (''limit'', Number (PosInt 5))])]"

lemma tail_params0_get:
  "value_get ''name'' tail_params0 = Some (Str ''tail_channel'')"
  "value_get ''arguments'' tail_params0 = Some (obj [(''channel'', Str ''ops''), (''limit'', Number (PosInt 5))])"
  "tail_args_of_value lib0 (obj [(''channel'', Str ''ops''), (''limit'', Number (PosInt 5))]) = Some \<lparr>ta_channel = ''ops'', ta_limit = 5\<rparr>"
  by (simp_all add: lib0_def tail_args0_def opt_str_def as_str_def tail_params0_def value_get_def obj_def tget_def)

theorem tail_tool_members_only_witness:
  "\<exists>v n' p ms. handle_tool_call lib0 draws1 base0 tail_params0 node0 = (Inr v, n')
    \<and> v = tool_content lib0 (obj [(''channel'', Str ''ops''), (''messages'', Arr (map (envelope_value lib0) ms))])
    \<and> read_channel_policy lib0 base0 chan0 node0 = Inr p \<and> policy_allows_read p (public_key owner0)"
proof -
  obtain n where t: "read_channel_tail_decrypted_with_options lib0 base0 chan0 5 False node0 = (Inr [], n)"
    using node0_tail [of 4 False] by (auto simp: eval_nat_numeral)
  have "tail_channel lib0 base0 \<lparr>ta_channel = ''ops'', ta_limit = 5\<rparr> node0 = (Inr (''ops'', []), n)"
    by (simp add: tail_channel_def bindS_liftS bindS_readS node0_log_exists load_identity_def node0_reads
        read_channel_tail_decrypted_def okS_def
        bindS_step [where m = "read_channel_tail_decrypted_with_options lib0 base0 chan0 5 False", OF t])
  then obtain v where v: "handle_tool_call lib0 draws1 base0 tail_params0 node0 = (Inr v, n)"
    by (simp add: handle_tool_call_def tail_params0_get as_str_def run_tool_def parse_args_def tool_answer_def Let_def)
  from tail_tool_members_only [OF v tail_params0_get(1)] obtain ms p where
    "v = tool_content lib0 (obj [(''channel'', Str ''ops''), (''messages'', Arr (map (envelope_value lib0) ms))])"
    "read_channel_policy lib0 base0 chan0 node0 = Inr p" "policy_allows_read p (public_key owner0)"
    by (auto simp: tail_params0_get chan0_def)
  then show ?thesis using v by blast
qed

definition post_params0 :: json where
  "post_params0 = obj [(''name'', Str ''post_message''),
     (''arguments'', obj [(''channel'', Str ''ops''), (''body'', Str ''hi'')])]"

definition posted0 :: post_message_args where
  "posted0 = \<lparr>pa_channel = ''ops'', pa_title = None, pa_body = ''hi'', pa_tags = [], pa_refs = []\<rparr>"

lemma post_params0_get:
  "value_get ''name'' post_params0 = Some (Str ''post_message'')"
  "value_get ''arguments'' post_params0 = Some (obj [(''channel'', Str ''ops''), (''body'', Str ''hi'')])"
  "post_args_of_value lib0 (obj [(''channel'', Str ''ops''), (''body'', Str ''hi'')]) = Some posted0"
  by (simp_all add: lib0_def post_args0_def opt_str_def strs_def as_str_def post_params0_def value_get_def obj_def tget_def posted0_def)

lemma node0_signs:
  "sign_message_for_channel lib0 (md_key draws1) (md_nonce draws1) base0 chan0 owner0 (new_text 5 None [] ''hi'' []) node0 = (Inr env0, node0)"
proof -
  have "sign lib0 owner0 ''ops'' message0 = Inr env0"
    using sign_verifies [OF lib0_crypto, of "replicate 32 1" None "''ops''" message0] by (auto simp: env0_def owner0_def)
  then show ?thesis
    by (simp add: sign_message_for_channel_def bindS_readS node0_reads default_policy_def message0_def)
      (simp add: bindS_def okS_def liftS_def)
qed

definition node1 :: node_fs where
  "node1 = snd (append_message lib0 base0 chan0 env0 node0)"

lemma node0_appends: "append_message lib0 base0 chan0 env0 node0 = (Inr (env_id env0), node1)"
proof -
  obtain r s' where run: "append_message lib0 base0 chan0 env0 node0 = (r, s')" by fastforce
  have "is_ok (authorize_append lib0 base0 chan0 (env_from env0) node0)"
    by (simp add: authorize_append_def policy_allows_append_def default_policy_def)
  then show ?thesis
    using append_message_result [OF lib0_envelope_json lib0_crypto node0_rel env0_short run] env0_verify run
    by (cases r) (simp_all add: node1_def)
qed

lemma node0_submits: "submit lib0 draws1 base0 chan0 owner0 (new_text 5 None [] ''hi'' []) node0 = (Inr (env0, env_id env0), node1)"
  unfolding submit_def
  by (simp add: bindS_step [where m = "sign_message_for_channel lib0 (md_key draws1) (md_nonce draws1) base0 chan0 owner0 (new_text 5 None [] ''hi'' [])", OF node0_signs]
      bindS_step [where m = "append_message lib0 base0 chan0 env0", OF node0_appends] okS_def)


section \<open>The terminal\<close>

definition meta0 :: metadata where
  "meta0 = (\<lambda>_ _. Inr None)"

definition app0 :: app where
  "app0 = \<lparr>a_datadir = base0, a_identity = owner0, a_channels = [''ops''], a_selected = 0, a_messages = [],
     a_scroll = 0, a_max_scroll = 0, a_follow_tail = True, a_audit = False, a_mode = NormalMode, a_input = [],
     a_status = ''ready'', a_role = ''-'', a_visibility = ''-'', a_policy_conflicts = 0, a_moderation_conflicts = 0,
     a_peers = [], a_connection = ''offline'' @ dot @ ''no saved peers'', a_listener = ''not listening'',
     a_fingerprint = None, a_quit = False\<rparr>"

lemma app0_simps [simp]:
  "a_datadir app0 = base0" "a_identity app0 = owner0" "a_channels app0 = [''ops'']" "a_selected app0 = 0"
  "a_mode app0 = NormalMode" "a_input app0 = []" "a_quit app0 = False" "channel app0 = Some ''ops''"
  by (simp_all add: app0_def channel_def)

lemma refresh0: "\<exists>b n. refresh lib0 meta0 (app0, node0) = (Inr (), (b, n)) \<and> like0 n"
proof -
  obtain n where n: "read_channel_tail_decrypted_with_options lib0 base0 chan0 500 (a_audit app0) node0 = (Inr [], n)" "like0 n"
    using node0_tail [of 499 "a_audit app0"] by (auto simp: eval_nat_numeral)
  have fp: "local_state_fingerprint lib0 meta0 a n = Inl e \<longleftrightarrow> False"
    if "a_datadir a = base0" "a_identity a = owner0" "channel a = Some ''ops''" for a e
    using that n(2) by (simp add: local_state_fingerprint_def meta0_def watched_files_def bindR_def)
  show ?thesis
    using n by (auto simp: refresh_def ui_steps readS_def take_fingerprint_def fp channel_def split: sum.split)
qed

lemma node0_peers: "list_peers lib0 base0 node0 = Inr []"
  by (simp add: list_peers_def list_peer_records_def file_exists_def paths1)

lemma load0: "\<exists>b n. Tui.load lib0 meta0 base0 node0 = (Inr b, n)"
proof -
  obtain b n where "refresh lib0 meta0 (app0, node0) = (Inr (), (b, n))" using refresh0 by blast
  then show ?thesis
    unfolding Tui.load_def
    by (simp add: bindS_readS Let_def node0_peers app0_def)
qed

definition turn0 :: turn where
  "turn0 = \<lparr>t_world = \<lambda>n. n, t_shutdown = False, t_events = [], t_refresh = False, t_area = Inr (80, 24),
     t_key = Inr (Some (plain Enter)), t_draws = draws1\<rparr>"

theorem screen_invariant_witness:
  "\<exists>a n r b n'. Tui.load lib0 meta0 base0 node0 = (Inr a, n)
    \<and> run_loop lib0 meta0 (\<lambda>_ _ n. (Inr 0, n)) [turn0\<lparr>t_key := Inr (Some (plain (char_key (CHR ''p''))))\<rparr>, turn0] (a, n) = (r, (b, n'))
    \<and> a_scroll b \<le> a_max_scroll b"
proof -
  obtain a n where a: "Tui.load lib0 meta0 base0 node0 = (Inr a, n)" using load0 by blast
  let ?ts = "[turn0\<lparr>t_key := Inr (Some (plain (char_key (CHR ''p''))))\<rparr>, turn0]"
  obtain r b n' where r: "run_loop lib0 meta0 (\<lambda>_ _ n. (Inr 0, n)) ?ts (a, n) = (r, (b, n'))" by (metis prod.exhaust)
  show ?thesis using screen_invariant [OF a r] a r by (intro exI conjI) (assumption, assumption, simp)
qed

theorem backspace_undoes_character_witness:
  "snd (handle_key lib0 meta0 (plain Backspace) (snd (handle_key lib0 meta0 (plain (Character 233)) (app0\<lparr>a_mode := PostMode\<rparr>, node0))))
    = (app0\<lparr>a_mode := PostMode\<rparr>, node0)"
  using backspace_undoes_character [of "app0\<lparr>a_mode := PostMode\<rparr>" 233 lib0 meta0 False False node0] by (simp add: plain_def)

theorem typed_text_submitted_witness:
  "handle_keys lib0 meta0 [plain (char_key (CHR ''p'')), plain (Character 104), plain (Character 105), plain Enter] (app0, node0)
    = (Inr [NoAction, NoAction, NoAction, PostAction ''hi''], (app0, node0))"
proof -
  have h: "concat (map encode_utf8 [104, 105]) = ''hi''" by code_simp
  have "list_all printable (as_bytes ''hi'')" by code_simp
  then have "trim ''hi'' = ''hi''" by (rule trim_printable)
  then show ?thesis
    using typed_text_submitted [of app0 lib0 meta0 "[104, 105]" node0] unfolding h by (simp add: numeral_2_eq_2 Let_def)
qed

theorem role_shown_matches_policy_witness:
  "\<exists>b n p. refresh lib0 meta0 (app0, node0) = (Inr (), (b, n)) \<and> read_channel_policy lib0 base0 chan0 n = Inr p
    \<and> a_role b = ''open writer'' \<and> a_visibility b = ''public''"
proof -
  obtain b n where r: "refresh lib0 meta0 (app0, node0) = (Inr (), (b, n))" "like0 n" using refresh0 by blast
  from role_shown_matches_policy [OF r(1) app0_simps(8) parse_ops] r show ?thesis
    by (auto simp: shows_role_def default_policy_def)
qed

theorem invalid_peer_ends_ui_witness:
  "\<exists>e b n. run_loop lib0 meta0 (\<lambda>_ _ n. (Inr 0, n)) [turn0] (app0\<lparr>a_mode := PeerMode, a_input := ''x''\<rparr>, node0) = (Inl e, (b, n))"
proof -
  let ?a = "app0\<lparr>a_mode := PeerMode, a_input := ''x''\<rparr>"
  have "list_all printable (as_bytes ''x'')" by code_simp
  then have t: "trim ''x'' = ''x''" by (rule trim_printable)
  have "sexp_read (as_bytes ''x'') = None" by code_simp
  then have "url_parse lib0 ''x'' = None" by (simp add: lib0_def get_def)
  then have u: "normalize_peer_url lib0 ''x'' = Inl (Decode NotUrl)" by (simp add: normalize_peer_url_def t bindR_def)
  have "channel ?a = Some ''ops''" by (simp add: channel_def)
  from invalid_peer_ends_ui [of ?a "''x''" "''ops''" chan0 lib0 "Decode NotUrl" turn0 80 24, OF _ _ _ this parse_ops u] t
  show ?thesis by (fastforce simp: turn0_def)
qed

lemma local_refresh0:
  "\<exists>d n1. refresh_if_local_state_changed lib0 meta0 (app0\<lparr>a_channels := [''ops'', ''private''], a_selected := 1\<rparr>, node0)
    = (Inr True, (d, n1))"
proof -
  let ?a = "app0\<lparr>a_channels := [''ops'', ''private''], a_selected := 1\<rparr>"
  obtain b n where r: "refresh lib0 meta0 (app0, node0) = (Inr (), (b, n))" using refresh0 by blast
  have c: "channel ?a = Some ''private''" by (simp add: channel_def)
  then obtain fp where fp: "local_state_fingerprint lib0 meta0 ?a node0 = Inr fp" "lf_channels fp = [''ops'']"
    by (auto simp: local_state_fingerprint_def meta0_def watched_files_def bindR_def)
  have e: "app0\<lparr>a_channels := [''ops''], a_selected := 0\<rparr> = app0" by (simp add: app0_def)
  have "a_fingerprint app0 = None" by (simp add: app0_def)
  then show ?thesis
    using fp c r by (simp add: e refresh_if_local_state_changed_def ui_steps readS_def Let_def position_None
        bindS_def [where m = "refresh lib0 meta0"])
qed

theorem auto_sync_loses_selection_witness:
  "let u = (app0\<lparr>a_channels := [''ops'', ''private''], a_selected := 1\<rparr>, node0) in
    channel (fst (snd (refresh_if_local_state_changed lib0 meta0 u))) = Some ''ops''
    \<and> channel (fst (apply_auto_sync lib0 meta0 (SyncComplete address0 \<lparr>sum_channels = 1, sum_received = 0\<rparr>) u)) = None"
proof -
  let ?a = "app0\<lparr>a_channels := [''ops'', ''private''], a_selected := 1\<rparr>"
  obtain b n2 where r: "apply_auto_sync lib0 meta0 (SyncComplete address0 \<lparr>sum_channels = 1, sum_received = 0\<rparr>) (?a, node0) = (b, n2)"
    by fastforce
  have "channel ?a = Some ''private''" by (simp add: channel_def)
  moreover obtain d n1 where l: "refresh_if_local_state_changed lib0 meta0 (?a, node0) = (Inr True, (d, n1))"
    using local_refresh0 by blast
  ultimately show ?thesis
    using auto_sync_loses_selection [OF _ _ _ _ _ _ l r, of "[''ops'']"] r l by (simp add: Let_def)
qed

section \<open>The command line\<close>

definition cli0 :: cli_draws where
  "cli0 = \<lparr>cd_now = 5, cd_later = 6, cd_seed = replicate 32 1, cd_key = replicate 32 5, cd_nonce = replicate 24 9\<rparr>"

theorem init_gives_identity_once_witness:
  "\<exists>n'. run_command lib0 cli0 (\<lambda>_ _ n. (Inr 0, n)) base0 (Init None None) fs0 = (Inr (Printed [''initialized '' @ base0]), n')
    \<and> run_command lib0 cli0 (\<lambda>_ _ n. (Inr 0, n)) base0 (Init None (Some ''me'')) n' = (Inl (App IdentityExists), n')"
proof -
  have "\<not> path_exists (identity_path base0) fs0"
    by (simp add: path_exists_def file_exists_def dir_exists_def fs0_def paths1)
  then show ?thesis
    using init_gives_identity_once [OF lib0_keypair_json, where dir = base0 and n = fs0 and key = None and i = owner0
      and d = cli0 and d' = cli0 and nick = None and sync = "\<lambda>_ _ n. (Inr 0, n)"]
    by (auto simp: owner0_def cli0_def)
qed

theorem showing_writes_nothing_witness:
  "files (snd (run_command lib0 cli0 (\<lambda>_ _ n. (Inr 0, n)) base0 (Tail ''ops'' 5 False) node0)) = files node0"
  using showing_writes_nothing [of "Tail ''ops'' 5 False" lib0 cli0 "\<lambda>_ _ n. (Inr 0, n)" base0 node0]
  by (metis only_shows.simps(7) prod.collapse)

theorem direct_sync_is_pinned_witness:
  "\<exists>out n' k. run_command lib0 cli0 (\<lambda>_ _ n. (Inr 3, n)) base0
      (SyncChannel address0 (Some (hex_encode lib0 (replicate 32 2))) ''ops'') fs0 = (Inr out, n')
    \<and> expected_peer_key lib0 base0 address0 n' = Inr (Some k)"
proof -
  obtain out n' where r: "run_command lib0 cli0 (\<lambda>_ _ n. (Inr 3, n)) base0
      (SyncChannel address0 (Some (hex_encode lib0 (replicate 32 2))) ''ops'') fs0 = (Inr out, n')"
    by (simp add: run_command_def printing_def sync_command_def bindS_assoc
        bindS_step [where m = "add_peer lib0 base0 address0 (Some (hex_encode lib0 (replicate 32 2)))", OF fs_peer0_ok(1)])
      (simp add: bindS_def okS_def)
  from direct_sync_is_pinned [OF lib0_peer no_peers0(2) r] r show ?thesis by auto
qed

theorem front_ends_post_alike_witness:
  "run_command lib0 cli0 (\<lambda>_ _ n. (Inr 0, n)) base0 (PostText ''ops'' None [] ''hi'' []) node0
      = (Inr (Printed [''posted '' @ ''ops'' @ '' -> '' @ env_id env0]), node1)
    \<and> snd (attempt lib0 draws1 (\<lambda>_ _ n. (Inr 0, n)) (PostAction ''hi'') (app0, node0)) = (app0\<lparr>a_follow_tail := True\<rparr>, node1)"
proof -
  have now: "md_now draws1 = 5" by (simp add: draws1_def)
  show ?thesis
    using front_ends_post_alike [where L = lib0 and dir = base0 and n = node0 and kp = owner0 and c = "''ops''" and chan = chan0
        and a = app0 and cd = cli0 and d = draws1 and body = "''hi''" and sync = "\<lambda>_ _ n. (Inr 0, n)" and meta = meta0]
      node0_log_exists node0_submits now by (simp add: cli0_def draws1_def)
qed


section \<open>Starting and stopping\<close>

definition host0 :: host where
  "host0 = \<lparr>h_node = node0, h_raw = False, h_alternate = False, h_server = None, h_sync = False, h_signals = False,
     h_jobs = [], h_calls = 0\<rparr>"

definition steady0 :: host_env where
  "steady0 = \<lparr>parse_addr = Inr, bind_addr = Inr, terminal_call = \<lambda>_. Inr (), served = Inr ()\<rparr>"

definition failing0 :: host_env where
  "failing0 = steady0\<lparr>terminal_call := \<lambda>i. if i = 3 then Inl (Io (Missing ''tty'')) else Inr ()\<rparr>"


theorem failed_cleanup_leaves_screen_witness:
  "\<exists>e h'. run lib0 meta0 (\<lambda>_ _ n. (Inr 0, n)) failing0 base0 None [] host0 = (Inl e, h') \<and> h_alternate h'"
proof -
  obtain a n where a: "Tui.load lib0 meta0 base0 (h_node host0) = (Inr a, n)" using load0 by (auto simp: host0_def)
  have l: "run_loop lib0 meta0 (\<lambda>_ _ n. (Inr 0, n)) [] (a, n) = (Inr [], (a, n))" by (simp add: okS_def)
  have "\<forall>i. i = h_calls host0 + 3 \<or> is_ok (terminal_call failing0 i)"
    "terminal_call failing0 (h_calls host0 + 3) = Inl (Io (Missing ''tty''))"
    by (simp_all add: failing0_def host0_def)
  from failed_cleanup_leaves_screen [OF a l this] show ?thesis by blast
qed

end
